theory Spec2Isabelle
  imports Main
begin

section \<open>Request values\<close>

text \<open>
  The request body is parsed JSON.  A JSON number is finite (a literal beyond the range of a
  double is not modelled) and is either an integer, \<open>Whole n\<close>, or not: \<open>Fraction n\<close> is a
  number that is not an integer and whose integer part, towards zero, is \<open>n\<close>.  The handler
  and the database client look at nothing else of a number.  JSON has no NaN, so \<open>isNaN\<close>
  is false on every \<open>JNum\<close>.  A value of type \<open>jsval\<close> is a JavaScript value read out of
  the body: \<open>None\<close> is \<open>undefined\<close>.  A string is the list of the bytes of its UTF-8
  encoding.
\<close>

datatype number = Whole int | Fraction int

datatype json =
    JNull
  | JBool bool
  | JNum number
  | JStr string
  | JArr "json list"
  | JObj "(string \<times> json) list"

type_synonym jsval = "json option"

fun truthy :: "jsval \<Rightarrow> bool" where
  "truthy None = False"
| "truthy (Some JNull) = False"
| "truthy (Some (JBool b)) = b"
| "truthy (Some (JNum (Whole n))) = (n \<noteq> 0)"
| "truthy (Some (JNum (Fraction n))) = True"
| "truthy (Some (JStr s)) = (s \<noteq> [])"
| "truthy (Some (JArr xs)) = True"
| "truthy (Some (JObj kvs)) = True"

text \<open>Property access \<open>v.k\<close> on a value that is neither null nor undefined; none of the
  keys the handler reads exists on a string, number, boolean or array.\<close>

fun get_prop :: "jsval \<Rightarrow> string \<Rightarrow> jsval" where
  "get_prop (Some (JObj kvs)) k = map_of kvs k"
| "get_prop v k = None"

text \<open>\<open>typeof v === 'number' && !isNaN(v)\<close>\<close>

fun is_number :: "jsval \<Rightarrow> bool" where
  "is_number (Some (JNum n)) = True"
| "is_number v = False"

text \<open>What the database client makes of an \<open>Int\<close> argument.  The handler tests only that
  the value is a number; the client sends an integer as it is when it fits 64 bits, sends the
  integer part of a number that is not an integer, and refuses every other value with a
  \<open>PrismaClientValidationError\<close> (\<open>None\<close>).\<close>

fun as_int :: "jsval \<Rightarrow> int option" where
  "as_int (Some (JNum (Whole n))) =
     (if - 9223372036854775808 \<le> n \<and> n \<le> 9223372036854775807 then Some n else None)"
| "as_int (Some (JNum (Fraction n))) = Some n"
| "as_int v = None"

text \<open>The values of an INTEGER column.\<close>

definition int4 :: "int \<Rightarrow> bool" where
  "int4 n = (- 2147483648 \<le> n \<and> n \<le> 2147483647)"

text \<open>The white space that \<open>String.prototype.trim\<close> strips, in UTF-8: the one-byte characters
  U+0009 to U+000D and U+0020; the two-byte character U+00A0; the three-byte characters
  U+1680, U+2000 to U+200A, U+2028, U+2029, U+202F, U+205F, U+3000 and U+FEFF.\<close>

definition is_space1 :: "char \<Rightarrow> bool" where
  "is_space1 a = (a \<in> set [CHR 0x09, CHR 0x0A, CHR 0x0B, CHR 0x0C, CHR 0x0D, CHR 0x20])"

definition is_space2 :: "char \<Rightarrow> char \<Rightarrow> bool" where
  "is_space2 a b = (a = CHR 0xC2 \<and> b = CHR 0xA0)"

definition is_space3 :: "char \<Rightarrow> char \<Rightarrow> char \<Rightarrow> bool" where
  "is_space3 a b c =
     ((a = CHR 0xE1 \<and> b = CHR 0x9A \<and> c = CHR 0x80)
      \<or> (a = CHR 0xE2 \<and> b = CHR 0x80
          \<and> c \<in> set [CHR 0x80, CHR 0x81, CHR 0x82, CHR 0x83, CHR 0x84, CHR 0x85, CHR 0x86,
                      CHR 0x87, CHR 0x88, CHR 0x89, CHR 0x8A, CHR 0xA8, CHR 0xA9, CHR 0xAF])
      \<or> (a = CHR 0xE2 \<and> b = CHR 0x81 \<and> c = CHR 0x9F)
      \<or> (a = CHR 0xE3 \<and> b = CHR 0x80 \<and> c = CHR 0x80)
      \<or> (a = CHR 0xEF \<and> b = CHR 0xBB \<and> c = CHR 0xBF))"

text \<open>\<open>s.trim().length === 0\<close>: the string is white space from end to end.\<close>

fun blank :: "string \<Rightarrow> bool" where
  "blank [] = True"
| "blank [a] = is_space1 a"
| "blank [a, b] = (if is_space1 a then is_space1 b else is_space2 a b)"
| "blank (a # b # c # s) =
     (if is_space1 a then blank (b # c # s)
      else if is_space2 a b then blank (c # s)
      else is_space3 a b c \<and> blank s)"

text \<open>The string holds the character U+0000, which PostgreSQL does not store.\<close>

definition has_nul :: "string \<Rightarrow> bool" where
  "has_nul s = (CHR 0x00 \<in> set s)"

text \<open>\<open>s.split(sep)\<close> for a one-character separator.\<close>

fun split_on :: "char \<Rightarrow> string \<Rightarrow> string list" where
  "split_on sep [] = [[]]"
| "split_on sep (c # cs) =
     (if c = sep then [] # split_on sep cs
      else (case split_on sep cs of w # ws \<Rightarrow> (c # w) # ws | [] \<Rightarrow> [[c]]))"

text \<open>\<open>xs[1]\<close>\<close>

fun second :: "'a list \<Rightarrow> 'a option" where
  "second (x # y # ys) = Some y"
| "second xs = None"

datatype exn =
    Error string
  | TypeError
  | PrismaClientValidationError
  | PrismaClientUnknownRequestError
  | PrismaClientKnownRequestError string

text \<open>The three outcomes of the pattern \<open>if (!v || v.trim().length === 0) return 400\<close>:
  the guard fires, \<open>v.trim\<close> is not a function, or \<open>v\<close> is a usable string.\<close>

datatype text_check = Missing | NoTrim | Present string

fun text_field :: "jsval \<Rightarrow> text_check" where
  "text_field v =
     (if \<not> truthy v then Missing
      else (case v of
              Some (JStr s) \<Rightarrow> if blank s then Missing else Present s
            | _ \<Rightarrow> NoTrim))"

section \<open>Storage\<close>

text \<open>
  The tables of the migrations, in insertion order.  Columns the handler neither reads nor
  writes (\<open>metadata\<close>, \<open>created_at\<close>, \<open>updated_at\<close>) are left out.  An id column is an
  INTEGER: a statement with an id argument outside that range fails (\<open>P2020\<close>).  Each
  SERIAL column has its sequence, which ends at 2147483647; a sequence value taken by a
  failed or rolled-back statement is not given back, as in PostgreSQL.  A \<open>returned_at\<close> is
  a time stamp in milliseconds.
\<close>

text \<open>A \<open>checkout_date\<close> is a calendar day of the years 1 to 9999.  The handler writes
  the current day; a DATE column can hold days of other years too, but the client gives no
  valid \<open>Date\<close> object for them and the snapshot of such a storage fails, so they are left
  out.\<close>

definition leap :: "nat \<Rightarrow> bool" where
  "leap y = (y mod 4 = 0 \<and> (y mod 100 \<noteq> 0 \<or> y mod 400 = 0))"

definition days_in_month :: "nat \<Rightarrow> nat \<Rightarrow> nat" where
  "days_in_month y m =
     (if m = 2 then (if leap y then 29 else 28)
      else if m = 4 \<or> m = 6 \<or> m = 9 \<or> m = 11 then 30 else 31)"

definition calendar_day :: "nat \<times> nat \<times> nat \<Rightarrow> bool" where
  "calendar_day ymd =
     (case ymd of (y, m, d) \<Rightarrow>
        1 \<le> y \<and> y \<le> 9999 \<and> 1 \<le> m \<and> m \<le> 12 \<and> 1 \<le> d \<and> d \<le> days_in_month y m)"

typedef date = "{ymd. calendar_day ymd}"
  by (rule exI [of _ "(1970, 1, 1)"]) (simp add: calendar_day_def days_in_month_def)

definition year :: "date \<Rightarrow> nat" where
  "year dt = fst (Rep_date dt)"

definition month :: "date \<Rightarrow> nat" where
  "month dt = fst (snd (Rep_date dt))"

definition day :: "date \<Rightarrow> nat" where
  "day dt = snd (snd (Rep_date dt))"

text \<open>The day with the given year, month and day of the month, when there is one.\<close>

definition ymd :: "nat \<Rightarrow> nat \<Rightarrow> nat \<Rightarrow> date" where
  "ymd y m d = Abs_date (y, m, d)"

record clock =
  now :: int
  today :: date

record item_type =
  it_id :: int
  it_code :: string
  it_name :: string

record category =
  cat_id :: int
  cat_code :: string
  cat_name :: string
  cat_parentId :: "int option"

record item =
  item_id :: int
  item_title :: string
  item_itemTypeId :: int
  item_requestedBy :: "string option"
  item_currentLoanId :: "int option"

record loan =
  loan_id :: int
  loan_itemId :: int
  loan_patronName :: string
  loan_checkoutDate :: date
  loan_returnedAt :: "int option"

text \<open>A row \<open>(a, b)\<close> of \<open>_ItemToCategory\<close> has \<open>a\<close> a category id and \<open>b\<close> an item id.\<close>

record db =
  item_types :: "item_type list"
  categories :: "category list"
  items :: "item list"
  loans :: "loan list"
  item_to_category :: "(int \<times> int) list"
  item_type_id_seq :: int
  category_id_seq :: int
  item_id_seq :: int
  loan_id_seq :: int

text \<open>Rolling back to \<open>d0\<close> from \<open>d1\<close> restores the rows and keeps the sequences.\<close>

definition rollback :: "db \<Rightarrow> db \<Rightarrow> db" where
  "rollback d0 d1 =
     d1\<lparr>item_types := item_types d0, categories := categories d0, items := items d0,
        loans := loans d0, item_to_category := item_to_category d0\<rparr>"

subsection \<open>The Prisma calls of the handler\<close>

text \<open>
  The Prisma client and the database are not part of the repository.  The calls are
  modelled on the tables and constraints of the migrations and on the error codes of
  Prisma's client: \<open>P2002\<close> is a unique constraint violation, \<open>P2003\<close> a foreign key
  violation, \<open>P2025\<close> a record that an update, a delete or a connect needs and does not
  find, \<open>P2020\<close> a value out of the range of its column.  Each call returns its result or
  the exception it throws, and the storage afterwards.  A value of the wrong type for a
  column is refused by the client before any statement runs
  (\<open>PrismaClientValidationError\<close>); the cases of the handler do that check where they
  read the payload.  An insert whose sequence has ended, or with a string that holds the
  character U+0000, fails with an error of the database that the client has no code for.
\<close>

definition itemType_create :: "string \<Rightarrow> string \<Rightarrow> db \<Rightarrow> (exn + item_type) \<times> db" where
  "itemType_create c n d =
     (let i = item_type_id_seq d;
          d1 = d\<lparr>item_type_id_seq := i + 1\<rparr>;
          row = \<lparr>it_id = i, it_code = c, it_name = n\<rparr>
      in if has_nul c \<or> has_nul n \<or> 2147483647 < i
         then (Inl PrismaClientUnknownRequestError, d)
         else if i \<in> set (map it_id (item_types d)) \<or> c \<in> set (map it_code (item_types d))
         then (Inl (PrismaClientKnownRequestError ''P2002''), d1)
         else (Inr row, d1\<lparr>item_types := item_types d @ [row]\<rparr>))"

definition category_create :: "string \<Rightarrow> string \<Rightarrow> int option \<Rightarrow> db \<Rightarrow> (exn + category) \<times> db" where
  "category_create c n p d =
     (let i = category_id_seq d;
          d1 = d\<lparr>category_id_seq := i + 1\<rparr>;
          row = \<lparr>cat_id = i, cat_code = c, cat_name = n, cat_parentId = p\<rparr>
      in if (case p of None \<Rightarrow> False | Some q \<Rightarrow> \<not> int4 q)
         then (Inl (PrismaClientKnownRequestError ''P2020''), d)
         else if has_nul c \<or> has_nul n \<or> 2147483647 < i
         then (Inl PrismaClientUnknownRequestError, d)
         else if i \<in> set (map cat_id (categories d)) \<or> c \<in> set (map cat_code (categories d))
         then (Inl (PrismaClientKnownRequestError ''P2002''), d1)
         else if (case p of None \<Rightarrow> False
                  | Some q \<Rightarrow> q \<noteq> i \<and> q \<notin> set (map cat_id (categories d)))
         then (Inl (PrismaClientKnownRequestError ''P2003''), d1)
         else (Inr row, d1\<lparr>categories := categories d @ [row]\<rparr>))"

definition item_create :: "string \<Rightarrow> int \<Rightarrow> string option \<Rightarrow> db \<Rightarrow> (exn + item) \<times> db" where
  "item_create t ty rb d =
     (let i = item_id_seq d;
          d1 = d\<lparr>item_id_seq := i + 1\<rparr>;
          row = \<lparr>item_id = i, item_title = t, item_itemTypeId = ty, item_requestedBy = rb,
                 item_currentLoanId = None\<rparr>
      in if \<not> int4 ty then (Inl (PrismaClientKnownRequestError ''P2020''), d)
         else if has_nul t \<or> (case rb of None \<Rightarrow> False | Some s \<Rightarrow> has_nul s) \<or> 2147483647 < i
         then (Inl PrismaClientUnknownRequestError, d)
         else if i \<in> set (map item_id (items d))
         then (Inl (PrismaClientKnownRequestError ''P2002''), d1)
         else if ty \<notin> set (map it_id (item_types d))
         then (Inl (PrismaClientKnownRequestError ''P2003''), d1)
         else (Inr row, d1\<lparr>items := items d @ [row]\<rparr>))"

definition loan_create :: "int \<Rightarrow> string \<Rightarrow> date \<Rightarrow> db \<Rightarrow> (exn + loan) \<times> db" where
  "loan_create iid p dt d =
     (let i = loan_id_seq d;
          d1 = d\<lparr>loan_id_seq := i + 1\<rparr>;
          row = \<lparr>loan_id = i, loan_itemId = iid, loan_patronName = p, loan_checkoutDate = dt,
                 loan_returnedAt = None\<rparr>
      in if \<not> int4 iid then (Inl (PrismaClientKnownRequestError ''P2020''), d)
         else if has_nul p \<or> 2147483647 < i then (Inl PrismaClientUnknownRequestError, d)
         else if i \<in> set (map loan_id (loans d))
         then (Inl (PrismaClientKnownRequestError ''P2002''), d1)
         else if iid \<notin> set (map item_id (items d))
         then (Inl (PrismaClientKnownRequestError ''P2003''), d1)
         else (Inr row, d1\<lparr>loans := loans d @ [row]\<rparr>))"

text \<open>\<open>item.updateMany({ where: { id, currentLoanId: cur }, data: { currentLoanId: new } })\<close>,
  returning the number of rows it changed.  A new value must name a loan (foreign key) and
  no second row may hold it (unique index).\<close>

definition item_updateMany :: "int \<Rightarrow> int option \<Rightarrow> int option \<Rightarrow> db \<Rightarrow> (exn + nat) \<times> db" where
  "item_updateMany iid cur new d =
     (let hit = (\<lambda>r. item_id r = iid \<and> item_currentLoanId r = cur);
          n = length (filter hit (items d))
      in if \<not> int4 iid then (Inl (PrismaClientKnownRequestError ''P2020''), d)
         else if n = 0 then (Inr 0, d)
         else if (case new of None \<Rightarrow> False
                  | Some l \<Rightarrow> 1 < n \<or> (\<exists>r \<in> set (items d). \<not> hit r \<and> item_currentLoanId r = Some l))
         then (Inl (PrismaClientKnownRequestError ''P2002''), d)
         else if (case new of None \<Rightarrow> False | Some l \<Rightarrow> l \<notin> set (map loan_id (loans d)))
         then (Inl (PrismaClientKnownRequestError ''P2003''), d)
         else (Inr n, d\<lparr>items := map (\<lambda>r. if hit r then r\<lparr>item_currentLoanId := new\<rparr> else r) (items d)\<rparr>))"

text \<open>\<open>item.findUnique({ where: { id }, select: { currentLoanId: true } })\<close>\<close>

definition item_findUnique :: "int \<Rightarrow> db \<Rightarrow> exn + item option" where
  "item_findUnique iid d =
     (if \<not> int4 iid then Inl (PrismaClientKnownRequestError ''P2020'')
      else Inr (find (\<lambda>r. item_id r = iid) (items d)))"

text \<open>\<open>loan.update({ where: { id }, data: { returnedAt } })\<close>\<close>

definition loan_update :: "int \<Rightarrow> int \<Rightarrow> db \<Rightarrow> (exn + unit) \<times> db" where
  "loan_update lid t d =
     (if \<not> int4 lid then (Inl (PrismaClientKnownRequestError ''P2020''), d)
      else if lid \<notin> set (map loan_id (loans d))
      then (Inl (PrismaClientKnownRequestError ''P2025''), d)
      else (Inr (), d\<lparr>loans := map (\<lambda>l. if loan_id l = lid then l\<lparr>loan_returnedAt := Some t\<rparr> else l) (loans d)\<rparr>))"

text \<open>\<open>item.update({ where: { id }, data: { categories: { connect: { id: cid } } } })\<close>;
  connecting a category that is linked already changes nothing.\<close>

definition item_connect :: "int \<Rightarrow> int \<Rightarrow> db \<Rightarrow> (exn + unit) \<times> db" where
  "item_connect iid cid d =
     (if \<not> int4 iid \<or> \<not> int4 cid then (Inl (PrismaClientKnownRequestError ''P2020''), d)
      else if iid \<notin> set (map item_id (items d)) \<or> cid \<notin> set (map cat_id (categories d))
      then (Inl (PrismaClientKnownRequestError ''P2025''), d)
      else if (cid, iid) \<in> set (item_to_category d) then (Inr (), d)
      else (Inr (), d\<lparr>item_to_category := item_to_category d @ [(cid, iid)]\<rparr>))"

text \<open>\<open>item.update({ where: { id }, data: { categories: { disconnect: { id: cid } } } })\<close>;
  disconnecting a category that is not linked changes nothing.\<close>

definition item_disconnect :: "int \<Rightarrow> int \<Rightarrow> db \<Rightarrow> (exn + unit) \<times> db" where
  "item_disconnect iid cid d =
     (if \<not> int4 iid \<or> \<not> int4 cid then (Inl (PrismaClientKnownRequestError ''P2020''), d)
      else if iid \<notin> set (map item_id (items d))
      then (Inl (PrismaClientKnownRequestError ''P2025''), d)
      else (Inr (), d\<lparr>item_to_category := filter (\<lambda>ab. ab \<noteq> (cid, iid)) (item_to_category d)\<rparr>))"

text \<open>\<open>item.delete({ where: { id } })\<close>.  The foreign keys of the migrations do the rest:
  \<open>loan_item_id_fkey\<close> and \<open>_ItemToCategory_B_fkey\<close> are ON DELETE CASCADE, and
  \<open>item_current_loan_id_fkey\<close> is ON DELETE SET NULL, so an item that points to a loan
  deleted by the cascade loses its pointer.\<close>

definition item_delete :: "int \<Rightarrow> db \<Rightarrow> (exn + unit) \<times> db" where
  "item_delete iid d =
     (if \<not> int4 iid then (Inl (PrismaClientKnownRequestError ''P2020''), d)
      else if iid \<notin> set (map item_id (items d))
      then (Inl (PrismaClientKnownRequestError ''P2025''), d)
      else
        (let gone = map loan_id (filter (\<lambda>l. loan_itemId l = iid) (loans d));
             set_null = (\<lambda>r. case item_currentLoanId r of
                               None \<Rightarrow> r
                             | Some l \<Rightarrow> if l \<in> set gone then r\<lparr>item_currentLoanId := None\<rparr> else r)
         in (Inr (),
             d\<lparr>items := map set_null (filter (\<lambda>r. item_id r \<noteq> iid) (items d)),
               loans := filter (\<lambda>l. loan_itemId l \<noteq> iid) (loans d),
               item_to_category := filter (\<lambda>ab. snd ab \<noteq> iid) (item_to_category d)\<rparr>)))"

section \<open>The snapshot\<close>

record ref =
  ref_id :: int
  ref_name :: string

record 'd loan_view =
  lv_id :: int
  lv_patronName :: string
  lv_checkoutDate :: 'd

record 'd item_view =
  iv_id :: int
  iv_title :: string
  iv_requestedBy :: "string option"
  iv_itemType :: ref
  iv_categories :: "ref list"
  iv_currentLoan :: "'d loan_view option"

record snapshot =
  itemTypes :: "item_type list"
  categories_of :: "category list"
  items_of :: "string item_view list"

text \<open>\<open>Date.prototype.toISOString\<close> on the midnight (UTC) that Prisma returns for a DATE
  column of the years 1 to 9999.\<close>

definition digit :: "nat \<Rightarrow> char" where
  "digit n = ''0123456789'' ! (n mod 10)"

definition pad2 :: "nat \<Rightarrow> string" where
  "pad2 n = [digit (n div 10), digit n]"

definition pad4 :: "nat \<Rightarrow> string" where
  "pad4 n = [digit (n div 1000), digit (n div 100), digit (n div 10), digit n]"

definition toISOString :: "date \<Rightarrow> string" where
  "toISOString dt =
     pad4 (year dt) @ ''-'' @ pad2 (month dt) @ ''-'' @ pad2 (day dt) @ ''T00:00:00.000Z''"

text \<open>The format of that string, read back: \<open>YYYY-MM-DDT00:00:00.000Z\<close>, four digits for
  the year and two each for the month and the day.  \<open>read_iso\<close> gives the year, the month
  and the day that a string of this format names, and nothing for any other string.\<close>

definition digit_value :: "char \<Rightarrow> nat option" where
  "digit_value c = map_of (zip ''0123456789'' [0, 1, 2, 3, 4, 5, 6, 7, 8, 9]) c"

definition number_value :: "string \<Rightarrow> nat option" where
  "number_value s = map_option (foldl (\<lambda>n k. 10 * n + k) 0) (those (map digit_value s))"

definition read_iso :: "string \<Rightarrow> (nat \<times> nat \<times> nat) option" where
  "read_iso s =
     (if length s = 24 \<and> take 1 (drop 4 s) = ''-'' \<and> take 1 (drop 7 s) = ''-''
         \<and> drop 10 s = ''T00:00:00.000Z''
      then (case (number_value (take 4 s), number_value (take 2 (drop 5 s)),
                  number_value (take 2 (drop 8 s))) of
              (Some yy, Some mm, Some dd) \<Rightarrow> Some (yy, mm, dd)
            | _ \<Rightarrow> None)
      else None)"

text \<open>The selection of one item with its relations.  \<open>itemType\<close> is a required relation:
  a row whose item type is not there makes the query fail.  The categories of an item come
  in the order of its rows in \<open>_ItemToCategory\<close>.\<close>

definition item_select :: "db \<Rightarrow> item \<Rightarrow> date item_view option" where
  "item_select d r =
     (case find (\<lambda>t. it_id t = item_itemTypeId r) (item_types d) of
        None \<Rightarrow> None
      | Some t \<Rightarrow>
          Some \<lparr>iv_id = item_id r, iv_title = item_title r, iv_requestedBy = item_requestedBy r,
                iv_itemType = \<lparr>ref_id = it_id t, ref_name = it_name t\<rparr>,
                iv_categories =
                  map (\<lambda>c. \<lparr>ref_id = cat_id c, ref_name = cat_name c\<rparr>)
                    (List.map_filter (\<lambda>ab. find (\<lambda>c. cat_id c = fst ab) (categories d))
                       (filter (\<lambda>ab. snd ab = item_id r) (item_to_category d))),
                iv_currentLoan =
                  (case item_currentLoanId r of
                     None \<Rightarrow> None
                   | Some lid \<Rightarrow>
                       map_option
                         (\<lambda>l. \<lparr>lv_id = loan_id l, lv_patronName = loan_patronName l,
                                lv_checkoutDate = loan_checkoutDate l\<rparr>)
                         (find (\<lambda>l. loan_id l = lid) (loans d)))\<rparr>)"

text \<open>\<open>item.findMany({ select: ..., orderBy: { id: 'asc' } })\<close>\<close>

definition item_findMany :: "db \<Rightarrow> exn + date item_view list" where
  "item_findMany d =
     (case those (map (item_select d) (sort_key item_id (items d))) of
        None \<Rightarrow> Inl PrismaClientUnknownRequestError
      | Some vs \<Rightarrow> Inr vs)"

definition iso_loan :: "date item_view \<Rightarrow> string item_view" where
  "iso_loan i =
     \<lparr>iv_id = iv_id i, iv_title = iv_title i, iv_requestedBy = iv_requestedBy i,
      iv_itemType = iv_itemType i, iv_categories = iv_categories i,
      iv_currentLoan =
        (case iv_currentLoan i of
           Some cl \<Rightarrow> Some \<lparr>lv_id = lv_id cl, lv_patronName = lv_patronName cl,
                           lv_checkoutDate = toISOString (lv_checkoutDate cl)\<rparr>
         | None \<Rightarrow> None)\<rparr>"

definition getSnapshot :: "db \<Rightarrow> exn + snapshot" where
  "getSnapshot d =
     (case item_findMany d of
        Inl e \<Rightarrow> Inl e
      | Inr vs \<Rightarrow>
          Inr \<lparr>itemTypes = item_types d, categories_of = categories d, items_of = map iso_loan vs\<rparr>)"

section \<open>The handler\<close>

record request =
  http_method :: string
  authorization :: "string option"
  body :: jsval

datatype message = Text string | MessageOf exn

record response =
  status :: nat
  ok :: bool
  message :: "message option"
  snapshot_of :: "snapshot option"

definition failure :: "nat \<Rightarrow> message \<Rightarrow> response" where
  "failure st m = \<lparr>status = st, ok = False, message = Some m, snapshot_of = None\<rparr>"

definition success :: "snapshot \<Rightarrow> response" where
  "success s = \<lparr>status = 200, ok = True, message = None, snapshot_of = Some s\<rparr>"

text \<open>The catch block.  Every exception of the model is an \<open>Error\<close> object, so the message
  is the exception's own; for an exception of a library its text is not in the source.\<close>

fun message_of :: "exn \<Rightarrow> message" where
  "message_of (Error m) = Text m"
| "message_of e = MessageOf e"

definition caught :: "exn \<Rightarrow> response" where
  "caught e =
     (if e = PrismaClientKnownRequestError ''P2025'' then failure 404 (Text ''Record not found'')
      else failure 400 (message_of e))"

text \<open>What a case of the switch does: return a response, throw, or break.\<close>

datatype step = Respond response | Throw exn | Break

definition run :: "(exn + 'a) \<times> db \<Rightarrow> step \<times> db" where
  "run r = (case r of (Inl e, d) \<Rightarrow> (Throw e, d) | (Inr x, d) \<Rightarrow> (Break, d))"

definition createItemType :: "jsval \<Rightarrow> db \<Rightarrow> step \<times> db" where
  "createItemType payload d =
     (case text_field (get_prop payload ''code'') of
        Missing \<Rightarrow> (Respond (failure 400 (Text ''Item type code is required.'')), d)
      | NoTrim \<Rightarrow> (Throw TypeError, d)
      | Present c \<Rightarrow>
          (case text_field (get_prop payload ''name'') of
             Missing \<Rightarrow> (Respond (failure 400 (Text ''Item type name is required.'')), d)
           | NoTrim \<Rightarrow> (Throw TypeError, d)
           | Present n \<Rightarrow> run (itemType_create c n d)))"

text \<open>\<open>parentId ?? null\<close>, as Prisma accepts it for a nullable \<open>Int\<close>.\<close>

fun nullable_int :: "jsval \<Rightarrow> exn + int option" where
  "nullable_int None = Inr None"
| "nullable_int (Some JNull) = Inr None"
| "nullable_int (Some (JNum n)) =
     (case as_int (Some (JNum n)) of None \<Rightarrow> Inl PrismaClientValidationError | Some i \<Rightarrow> Inr (Some i))"
| "nullable_int v = Inl PrismaClientValidationError"

definition createCategory :: "jsval \<Rightarrow> db \<Rightarrow> step \<times> db" where
  "createCategory payload d =
     (case text_field (get_prop payload ''code'') of
        Missing \<Rightarrow> (Respond (failure 400 (Text ''Category code is required.'')), d)
      | NoTrim \<Rightarrow> (Throw TypeError, d)
      | Present c \<Rightarrow>
          (case text_field (get_prop payload ''name'') of
             Missing \<Rightarrow> (Respond (failure 400 (Text ''Category name is required.'')), d)
           | NoTrim \<Rightarrow> (Throw TypeError, d)
           | Present n \<Rightarrow>
               (case nullable_int (get_prop payload ''parentId'') of
                  Inl e \<Rightarrow> (Throw e, d)
                | Inr p \<Rightarrow> run (category_create c n p d))))"

text \<open>\<open>(typeof requestedBy === 'string' && requestedBy.trim().length === 0) ? null
  : (requestedBy ?? null)\<close>, as Prisma accepts it for a nullable \<open>String\<close>.\<close>

fun requested_by :: "jsval \<Rightarrow> exn + string option" where
  "requested_by None = Inr None"
| "requested_by (Some JNull) = Inr None"
| "requested_by (Some (JStr s)) = Inr (if blank s then None else Some s)"
| "requested_by v = Inl PrismaClientValidationError"

definition createItem :: "jsval \<Rightarrow> db \<Rightarrow> step \<times> db" where
  "createItem payload d =
     (case text_field (get_prop payload ''title'') of
        Missing \<Rightarrow> (Respond (failure 400 (Text ''Item title is required.'')), d)
      | NoTrim \<Rightarrow> (Throw TypeError, d)
      | Present t \<Rightarrow>
          if \<not> is_number (get_prop payload ''itemTypeId'')
          then (Respond (failure 400 (Text ''Item type ID is required and must be a number.'')), d)
          else
            (case (as_int (get_prop payload ''itemTypeId''), requested_by (get_prop payload ''requestedBy'')) of
               (Some ty, Inr rb) \<Rightarrow> run (item_create t ty rb d)
             | _ \<Rightarrow> (Throw PrismaClientValidationError, d)))"

definition linkCategory :: "jsval \<Rightarrow> db \<Rightarrow> step \<times> db" where
  "linkCategory payload d =
     (if \<not> is_number (get_prop payload ''itemId'')
      then (Respond (failure 400 (Text ''Item ID is required and must be a number.'')), d)
      else if \<not> is_number (get_prop payload ''categoryId'')
      then (Respond (failure 400 (Text ''Category ID is required and must be a number.'')), d)
      else
        (case (as_int (get_prop payload ''itemId''), as_int (get_prop payload ''categoryId'')) of
           (Some iid, Some cid) \<Rightarrow> run (item_connect iid cid d)
         | _ \<Rightarrow> (Throw PrismaClientValidationError, d)))"

definition unlinkCategory :: "jsval \<Rightarrow> db \<Rightarrow> step \<times> db" where
  "unlinkCategory payload d =
     (if \<not> is_number (get_prop payload ''itemId'')
      then (Respond (failure 400 (Text ''Item ID is required and must be a number.'')), d)
      else if \<not> is_number (get_prop payload ''categoryId'')
      then (Respond (failure 400 (Text ''Category ID is required and must be a number.'')), d)
      else
        (case (as_int (get_prop payload ''itemId''), as_int (get_prop payload ''categoryId'')) of
           (Some iid, Some cid) \<Rightarrow> run (item_disconnect iid cid d)
         | _ \<Rightarrow> (Throw PrismaClientValidationError, d)))"

text \<open>The transaction of \<open>checkout\<close>: create the loan, point the item at it if the item has
  no loan, and throw (rolling everything back) when no row was changed.\<close>

definition checkout_tx :: "clock \<Rightarrow> int \<Rightarrow> string \<Rightarrow> db \<Rightarrow> (exn + unit) \<times> db" where
  "checkout_tx clk iid p d =
     (case loan_create iid p (today clk) d of
        (Inl e, d1) \<Rightarrow> (Inl e, rollback d d1)
      | (Inr ln, d1) \<Rightarrow>
          (case item_updateMany iid None (Some (loan_id ln)) d1 of
             (Inl e, d2) \<Rightarrow> (Inl e, rollback d d2)
           | (Inr count, d2) \<Rightarrow>
               if count = 0
               then (Inl (Error ''Item already loaned or does not exist''), rollback d d2)
               else (Inr (), d2)))"

definition checkout :: "clock \<Rightarrow> jsval \<Rightarrow> db \<Rightarrow> step \<times> db" where
  "checkout clk payload d =
     (if \<not> is_number (get_prop payload ''itemId'')
      then (Respond (failure 400 (Text ''Item ID is required and must be a number.'')), d)
      else
        (case text_field (get_prop payload ''patronName'') of
           Missing \<Rightarrow> (Respond (failure 400 (Text ''Patron name is required.'')), d)
         | NoTrim \<Rightarrow> (Throw TypeError, d)
         | Present p \<Rightarrow>
             (case as_int (get_prop payload ''itemId'') of
                None \<Rightarrow> (Throw PrismaClientValidationError, d)
              | Some iid \<Rightarrow> run (checkout_tx clk iid p d))))"

text \<open>The transaction of \<open>return\<close>, for the loan id \<open>lid\<close> read before it.\<close>

definition return_tx :: "clock \<Rightarrow> int \<Rightarrow> int \<Rightarrow> db \<Rightarrow> (exn + unit) \<times> db" where
  "return_tx clk iid lid d =
     (case loan_update lid (now clk) d of
        (Inl e, d1) \<Rightarrow> (Inl e, rollback d d1)
      | (Inr u, d1) \<Rightarrow>
          (case item_updateMany iid (Some lid) None d1 of
             (Inl e, d2) \<Rightarrow> (Inl e, rollback d d2)
           | (Inr count, d2) \<Rightarrow>
               if count = 0
               then (Inl (Error ''Failed to return item. It may have been returned by another process.''),
                     rollback d d2)
               else (Inr (), d2)))"

text \<open>\<open>!item?.currentLoanId\<close> holds for no item, for a null pointer and for the id 0.\<close>

definition return_item :: "clock \<Rightarrow> jsval \<Rightarrow> db \<Rightarrow> step \<times> db" where
  "return_item clk payload d =
     (if \<not> is_number (get_prop payload ''itemId'')
      then (Respond (failure 400 (Text ''Item ID is required and must be a number.'')), d)
      else
        (case as_int (get_prop payload ''itemId'') of
           None \<Rightarrow> (Throw PrismaClientValidationError, d)
         | Some iid \<Rightarrow>
             (case item_findUnique iid d of
                Inl e \<Rightarrow> (Throw e, d)
              | Inr None \<Rightarrow> (Throw (Error ''No active loan for this item''), d)
              | Inr (Some r) \<Rightarrow>
                  (case item_currentLoanId r of
                     None \<Rightarrow> (Throw (Error ''No active loan for this item''), d)
                   | Some lid \<Rightarrow>
                       if lid = 0 then (Throw (Error ''No active loan for this item''), d)
                       else run (return_tx clk iid lid d)))))"

definition deleteItem :: "jsval \<Rightarrow> db \<Rightarrow> step \<times> db" where
  "deleteItem payload d =
     (if \<not> is_number (get_prop payload ''id'')
      then (Respond (failure 400 (Text ''Item ID is required and must be a number.'')), d)
      else
        (case as_int (get_prop payload ''id'') of
           None \<Rightarrow> (Throw PrismaClientValidationError, d)
         | Some iid \<Rightarrow> run (item_delete iid d)))"

text \<open>\<open>switch (action)\<close> compares with \<open>===\<close>: a value that is not a string meets the default.\<close>

definition switch :: "clock \<Rightarrow> jsval \<Rightarrow> jsval \<Rightarrow> db \<Rightarrow> step \<times> db" where
  "switch clk action payload d =
     (if action = Some (JStr ''createItemType'') then createItemType payload d
      else if action = Some (JStr ''createCategory'') then createCategory payload d
      else if action = Some (JStr ''createItem'') then createItem payload d
      else if action = Some (JStr ''linkCategory'') then linkCategory payload d
      else if action = Some (JStr ''unlinkCategory'') then unlinkCategory payload d
      else if action = Some (JStr ''checkout'') then checkout clk payload d
      else if action = Some (JStr ''return'') then return_item clk payload d
      else if action = Some (JStr ''deleteItem'') then deleteItem payload d
      else (Respond (failure 400 (Text ''Unknown action'')), d))"

definition respond_snapshot :: "db \<Rightarrow> response" where
  "respond_snapshot d = (case getSnapshot d of Inl e \<Rightarrow> caught e | Inr s \<Rightarrow> success s)"

text \<open>\<open>!authHeader || !authHeader.startsWith('Bearer ') || token !== env\<close>, with
  \<open>token = authHeader?.split(' ')[1]\<close>.\<close>

definition unauthorized :: "string \<Rightarrow> string option \<Rightarrow> bool" where
  "unauthorized env_token authHeader =
     (case authHeader of
        None \<Rightarrow> True
      | Some h \<Rightarrow> h = [] \<or> take 7 h \<noteq> ''Bearer '' \<or> second (split_on CHR '' '' h) \<noteq> Some env_token)"

text \<open>The handler, given the value of \<open>NEXT_PUBLIC_DEMO_AUTH_TOKEN\<close>, the clocks, the request
  and the storage; it returns the response and the storage afterwards.\<close>

definition handler :: "string option \<Rightarrow> clock \<Rightarrow> request \<Rightarrow> db \<Rightarrow> response \<times> db" where
  "handler env clk req d =
     (case env of
        None \<Rightarrow> (failure 500 (Text ''Server configuration error: Authentication token not set.''), d)
      | Some tok \<Rightarrow>
          if tok = []
          then (failure 500 (Text ''Server configuration error: Authentication token not set.''), d)
          else if http_method req = ''GET'' then (respond_snapshot d, d)
          else if http_method req \<noteq> ''POST'' then (failure 405 (Text ''Method not allowed''), d)
          else if unauthorized tok (authorization req)
          then (failure 401 (Text ''Unauthorized: Invalid or missing token.''), d)
          else if body req = None \<or> body req = Some JNull then (caught TypeError, d)
          else
            (let action = get_prop (body req) ''action'';
                 payload = get_prop (body req) ''payload''
             in if \<not> truthy action \<or> \<not> truthy payload
                then (failure 400 (Text ''Action and payload are required.''), d)
                else
                  (case switch clk action payload d of
                     (Respond r, d') \<Rightarrow> (r, d')
                   | (Throw e, d') \<Rightarrow> (caught e, d')
                   | (Break, d') \<Rightarrow> (respond_snapshot d', d'))))"

section \<open>Constraints, the loan invariant and calls\<close>

text \<open>Primary keys: the ids of items and of loans are distinct, positive values of the
  INTEGER range and below their sequences (every id was drawn from its sequence, which
  starts at 1).\<close>

definition pk_ok :: "db \<Rightarrow> bool" where
  "pk_ok d =
     (distinct (map item_id (items d)) \<and> 0 < item_id_seq d
      \<and> (\<forall>i \<in> set (map item_id (items d)). 0 < i \<and> i < item_id_seq d \<and> int4 i)
      \<and> distinct (map loan_id (loans d)) \<and> 0 < loan_id_seq d
      \<and> (\<forall>i \<in> set (map loan_id (loans d)). 0 < i \<and> i < loan_id_seq d \<and> int4 i))"

text \<open>Foreign keys: \<open>loan_item_id_fkey\<close>, \<open>item_item_type_id_fkey\<close> and
  \<open>item_current_loan_id_fkey\<close>.\<close>

definition fk_ok :: "db \<Rightarrow> bool" where
  "fk_ok d =
     ((\<forall>i \<in> set (map loan_itemId (loans d)). i \<in> set (map item_id (items d)))
      \<and> (\<forall>t \<in> set (map item_itemTypeId (items d)). t \<in> set (map it_id (item_types d)))
      \<and> (\<forall>p \<in> set (map item_currentLoanId (items d)).
            \<forall>l \<in> set_option p. l \<in> set (map loan_id (loans d))))"

definition wf :: "db \<Rightarrow> bool" where
  "wf d = (pk_ok d \<and> fk_ok d)"

text \<open>The open loans of an item: the loan rows that reference it and have no \<open>returnedAt\<close>.
  An item is on loan when it has one.\<close>

definition open_loans :: "db \<Rightarrow> int \<Rightarrow> loan list" where
  "open_loans d i = filter (\<lambda>l. loan_itemId l = i \<and> loan_returnedAt l = None) (loans d)"

definition on_loan :: "db \<Rightarrow> int \<Rightarrow> bool" where
  "on_loan d i = (open_loans d i \<noteq> [])"

text \<open>The invariant of the data model, for every item: \<open>currentLoanId\<close> is non-null iff
  the item is on loan; when non-null it is the id of an open loan of that item; the item has
  at most one open loan.\<close>

definition loan_invariant :: "db \<Rightarrow> bool" where
  "loan_invariant d =
     (\<forall>r \<in> set (items d).
        (item_currentLoanId r \<noteq> None \<longleftrightarrow> on_loan d (item_id r))
        \<and> (\<forall>lid \<in> set_option (item_currentLoanId r).
              lid \<in> set (map loan_id (open_loans d (item_id r))))
        \<and> length (open_loans d (item_id r)) \<le> 1)"

text \<open>The rows of all tables (the storage without its sequences).\<close>

definition rows ::
  "db \<Rightarrow> item_type list \<times> category list \<times> item list \<times> loan list \<times> (int \<times> int) list" where
  "rows d = (item_types d, categories d, items d, loans d, item_to_category d)"

text \<open>A request that reaches the switch of a server whose token is \<open>env\<close>: a POST with the
  right bearer token whose body carries the action name and the payload.\<close>

definition calls :: "string option \<Rightarrow> request \<Rightarrow> string \<Rightarrow> jsval \<Rightarrow> bool" where
  "calls env req action payload =
     ((case env of None \<Rightarrow> False | Some tok \<Rightarrow> tok \<noteq> [] \<and> \<not> unauthorized tok (authorization req))
      \<and> http_method req = ''POST''
      \<and> get_prop (body req) ''action'' = Some (JStr action)
      \<and> get_prop (body req) ''payload'' = payload)"

text \<open>An authorization header that presents the token: it is \<open>Bearer\<close>, a space and the
  token, and either ends there or goes on with a space.\<close>

definition presents :: "string \<Rightarrow> string \<Rightarrow> bool" where
  "presents tok h =
     (take (7 + length tok) h = ''Bearer '' @ tok
      \<and> (drop (7 + length tok) h = [] \<or> take 1 (drop (7 + length tok) h) = '' ''))"

text \<open>The request the page sends for an action, and a GET.\<close>

definition post :: "string \<Rightarrow> string \<Rightarrow> (string \<times> json) list \<Rightarrow> request" where
  "post tok action kvs =
     \<lparr>http_method = ''POST'', authorization = Some (''Bearer '' @ tok),
      body = Some (JObj [(''action'', JStr action), (''payload'', JObj kvs)])\<rparr>"

definition get :: "string option \<Rightarrow> request" where
  "get auth = \<lparr>http_method = ''GET'', authorization = auth, body = None\<rparr>"

text \<open>The seed data, with the ids the sequences give them.\<close>

definition seed :: db where
  "seed =
     \<lparr>item_types = [\<lparr>it_id = 1, it_code = ''BOOK'', it_name = ''Book''\<rparr>,
                    \<lparr>it_id = 2, it_code = ''ELEC'', it_name = ''Electronics''\<rparr>],
      categories = [\<lparr>cat_id = 1, cat_code = ''FICT'', cat_name = ''Fiction'', cat_parentId = None\<rparr>,
                    \<lparr>cat_id = 2, cat_code = ''SCIFI'', cat_name = ''Science Fiction'', cat_parentId = Some 1\<rparr>],
      items = [\<lparr>item_id = 1, item_title = ''The Hitchhiker's Guide to the Galaxy'', item_itemTypeId = 1,
                item_requestedBy = None, item_currentLoanId = Some 1\<rparr>,
               \<lparr>item_id = 2, item_title = ''Laptop Pro X'', item_itemTypeId = 2,
                item_requestedBy = Some ''Ford Prefect'', item_currentLoanId = None\<rparr>,
               \<lparr>item_id = 3, item_title = ''Learning Prisma'', item_itemTypeId = 1,
                item_requestedBy = None, item_currentLoanId = None\<rparr>],
      loans = [\<lparr>loan_id = 1, loan_itemId = 1, loan_patronName = ''Arthur Dent'',
                loan_checkoutDate = ymd 2025 8 1, loan_returnedAt = None\<rparr>],
      item_to_category = [(1, 1), (2, 1), (1, 3)],
      item_type_id_seq = 3, category_id_seq = 3, item_id_seq = 4, loan_id_seq = 2\<rparr>"

definition noon :: clock where
  "noon = \<lparr>now = 1756382400000, today = ymd 2025 8 28\<rparr>"

section \<open>States reached by the transitions\<close>

text \<open>The invariant in the form the proofs use: the ids of the open loans of an item are
  exactly what its \<open>currentLoanId\<close> names.\<close>

definition ptr_ok :: "db \<Rightarrow> bool" where
  "ptr_ok d =
     (\<forall>r \<in> set (items d).
        map loan_id (open_loans d (item_id r)) =
          (case item_currentLoanId r of None \<Rightarrow> [] | Some lid \<Rightarrow> [lid]))"

text \<open>Same rows, sequences not lower.\<close>

definition grown :: "db \<Rightarrow> db \<Rightarrow> bool" where
  "grown d d' = (rows d' = rows d \<and> item_id_seq d \<le> item_id_seq d' \<and> loan_id_seq d \<le> loan_id_seq d')"

text \<open>The storage after a checkout of item \<open>iid\<close> by patron \<open>p\<close> that commits.\<close>

definition checked_out :: "clock \<Rightarrow> int \<Rightarrow> string \<Rightarrow> db \<Rightarrow> db" where
  "checked_out clk iid p d =
     d\<lparr>loan_id_seq := loan_id_seq d + 1,
       loans := loans d @ [\<lparr>loan_id = loan_id_seq d, loan_itemId = iid, loan_patronName = p,
                             loan_checkoutDate = today clk, loan_returnedAt = None\<rparr>],
       items := map (\<lambda>r. if item_id r = iid \<and> item_currentLoanId r = None
                          then r\<lparr>item_currentLoanId := Some (loan_id_seq d)\<rparr> else r) (items d)\<rparr>"

text \<open>The storage after a return of item \<open>iid\<close>, whose loan was \<open>lid\<close>, that commits.\<close>

definition returned :: "clock \<Rightarrow> int \<Rightarrow> int \<Rightarrow> db \<Rightarrow> db" where
  "returned clk iid lid d =
     d\<lparr>loans := map (\<lambda>l. if loan_id l = lid then l\<lparr>loan_returnedAt := Some (now clk)\<rparr> else l) (loans d),
       items := map (\<lambda>r. if item_id r = iid \<and> item_currentLoanId r = Some lid
                          then r\<lparr>item_currentLoanId := None\<rparr> else r) (items d)\<rparr>"

text \<open>The storage without item \<open>iid\<close>, its loans and its category links.\<close>

definition deleted :: "int \<Rightarrow> db \<Rightarrow> db" where
  "deleted iid d =
     d\<lparr>items := filter (\<lambda>r. item_id r \<noteq> iid) (items d),
       loans := filter (\<lambda>l. loan_itemId l \<noteq> iid) (loans d),
       item_to_category := filter (\<lambda>ab. snd ab \<noteq> iid) (item_to_category d)\<rparr>"

text \<open>The constraints of the schema together with the loan invariant.\<close>

definition state_ok :: "db \<Rightarrow> bool" where
  "state_ok d = (wf d \<and> ptr_ok d)"

text \<open>What a \<open>currentLoan\<close> of the snapshot shows of a loan: its id, its patron name, and
  its checkout date as a string of the ISO format that names the year, month and day of that
  date.\<close>

definition shows_the_loan :: "loan \<Rightarrow> string loan_view \<Rightarrow> bool" where
  "shows_the_loan l cl =
     (lv_id cl = loan_id l \<and> lv_patronName cl = loan_patronName l
      \<and> read_iso (lv_checkoutDate cl)
          = Some (year (loan_checkoutDate l), month (loan_checkoutDate l), day (loan_checkoutDate l)))"

text \<open>What the snapshot shows of an item \<open>r\<close> in its entry \<open>v\<close>: the item's id, title,
  requester and item type id, a \<open>currentLoan\<close> exactly when the item has a
  \<open>currentLoanId\<close>, and then the loan of that id.\<close>

definition shows_loan :: "db \<Rightarrow> item \<Rightarrow> string item_view \<Rightarrow> bool" where
  "shows_loan d r v =
     (iv_id v = item_id r \<and> iv_title v = item_title r \<and> iv_requestedBy v = item_requestedBy r
      \<and> ref_id (iv_itemType v) = item_itemTypeId r
      \<and> (iv_currentLoan v \<noteq> None \<longleftrightarrow> item_currentLoanId r \<noteq> None)
      \<and> (\<forall>l \<in> set (loans d).
            item_currentLoanId r = Some (loan_id l) \<longrightarrow>
            (\<forall>cl \<in> set_option (iv_currentLoan v). shows_the_loan l cl)))"

text \<open>How the handler ends after the switch: the response a case returned, the catch
  block for what it threw, or the snapshot after a break.\<close>

definition finish :: "step \<times> db \<Rightarrow> response \<times> db" where
  "finish sd =
     (case sd of
        (Respond r, d') \<Rightarrow> (r, d')
      | (Throw e, d') \<Rightarrow> (caught e, d')
      | (Break, d') \<Rightarrow> (respond_snapshot d', d'))"

text \<open>Requests served one after the other, each at its own time.\<close>

fun serve :: "string option \<Rightarrow> (clock \<times> request) list \<Rightarrow> db \<Rightarrow> response list \<times> db" where
  "serve env [] d = ([], d)"
| "serve env (q # qs) d =
     (case handler env (fst q) (snd q) d of
        (r, d') \<Rightarrow> (case serve env qs d' of (rs, d'') \<Rightarrow> (r # rs, d'')))"

text \<open>A storage in which item 1 is available and has one closed loan.\<close>

definition history :: db where
  "history =
     \<lparr>item_types = [\<lparr>it_id = 1, it_code = ''BOOK'', it_name = ''Book''\<rparr>],
      categories = [],
      items = [\<lparr>item_id = 1, item_title = ''Learning Prisma'', item_itemTypeId = 1,
                item_requestedBy = None, item_currentLoanId = None\<rparr>],
      loans = [\<lparr>loan_id = 1, loan_itemId = 1, loan_patronName = ''Arthur Dent'',
                loan_checkoutDate = ymd 2025 8 1,
                loan_returnedAt = Some 1754388000000\<rparr>],
      item_to_category = [],
      item_type_id_seq = 2, category_id_seq = 1, item_id_seq = 2, loan_id_seq = 2\<rparr>"

text \<open>The action names of the switch.\<close>

definition known_actions :: "string list" where
  "known_actions =
     [''createItemType'', ''createCategory'', ''createItem'', ''linkCategory'',
      ''unlinkCategory'', ''checkout'', ''return'', ''deleteItem'']"

section \<open>Preservation of the constraints and of the loan invariant\<close>

lemma loan_invariant_iff: "loan_invariant d = ptr_ok d"
proof -
  have h: "\<And>r. ((item_currentLoanId r \<noteq> None \<longleftrightarrow> on_loan d (item_id r))
        \<and> (\<forall>lid \<in> set_option (item_currentLoanId r).
              lid \<in> set (map loan_id (open_loans d (item_id r))))
        \<and> length (open_loans d (item_id r)) \<le> 1)
       = (map loan_id (open_loans d (item_id r)) =
          (case item_currentLoanId r of None \<Rightarrow> [] | Some lid \<Rightarrow> [lid]))"
    subgoal for r
      by (cases "open_loans d (item_id r)"; cases "item_currentLoanId r";
          cases "tl (open_loans d (item_id r))")
         (auto simp: on_loan_def)
    done
  show ?thesis
    by (simp only: loan_invariant_def ptr_ok_def h)
qed

lemma open_loans_fresh:
  assumes "fk_ok d" and "i \<notin> set (map item_id (items d))"
  shows "open_loans d i = []"
  using assms by (auto simp: fk_ok_def open_loans_def filter_empty_conv)

lemma ptr_item_create: "wf d \<Longrightarrow> ptr_ok d \<Longrightarrow> ptr_ok (snd (item_create t ty rb d))"
proof -
  assume w: "wf d" and p: "ptr_ok d"
  show ?thesis
  proof (cases "item_id_seq d \<in> set (map item_id (items d))")
    case True
    then show ?thesis using p by (simp add: item_create_def Let_def ptr_ok_def open_loans_def)
  next
    case False
    then have "open_loans d (item_id_seq d) = []"
      using w open_loans_fresh by (simp add: wf_def)
    then show ?thesis using p False
      by (auto simp: item_create_def Let_def ptr_ok_def open_loans_def)
  qed
qed

lemma grown_refl: "grown d d"
  by (simp add: grown_def)

lemma grown_wf: "grown d d' \<Longrightarrow> wf d \<Longrightarrow> wf d'"
proof -
  assume g: "grown d d'" and w: "wf d"
  from g have e: "items d' = items d" "loans d' = loans d" "item_types d' = item_types d"
    and s: "item_id_seq d \<le> item_id_seq d'" "loan_id_seq d \<le> loan_id_seq d'"
    by (simp_all add: grown_def rows_def)
  from w have "fk_ok d'" by (simp add: wf_def fk_ok_def e)
  moreover from w s have "pk_ok d'" unfolding wf_def pk_ok_def e by force
  ultimately show ?thesis by (simp add: wf_def)
qed

lemma grown_ptr: "grown d d' \<Longrightarrow> ptr_ok d \<Longrightarrow> ptr_ok d'"
  by (simp add: grown_def rows_def ptr_ok_def open_loans_def)

lemma grown_rollback:
  "item_id_seq d \<le> item_id_seq d1 \<Longrightarrow> loan_id_seq d \<le> loan_id_seq d1 \<Longrightarrow> grown d (rollback d d1)"
  by (simp add: grown_def rows_def rollback_def)

lemma checkout_tx_result:
  "(\<exists>e. fst (checkout_tx clk iid p d) = Inl e \<and> grown d (snd (checkout_tx clk iid p d)))
   \<or> (checkout_tx clk iid p d = (Inr (), checked_out clk iid p d)
       \<and> loan_id_seq d \<notin> set (map loan_id (loans d))
       \<and> loan_id_seq d \<le> 2147483647
       \<and> (\<exists>r \<in> set (items d). item_id r = iid \<and> item_currentLoanId r = None))"
proof -
  define d1 where "d1 = d\<lparr>loan_id_seq := loan_id_seq d + 1\<rparr>"
  define ln where "ln = \<lparr>loan_id = loan_id_seq d, loan_itemId = iid, loan_patronName = p,
                          loan_checkoutDate = today clk, loan_returnedAt = None\<rparr>"
  define d2 where "d2 = d1\<lparr>loans := loans d @ [ln]\<rparr>"
  have g0: "grown d (rollback d d)" and g1: "grown d (rollback d d1)" and g2: "grown d (rollback d d2)"
    by (simp_all add: d1_def d2_def grown_def rows_def rollback_def)
  consider (range) "\<not> int4 iid"
    | (ended) "int4 iid" "has_nul p \<or> 2147483647 < loan_id_seq d"
    | (dup) "int4 iid" "loan_id_seq d \<le> 2147483647" "loan_id_seq d \<in> set (map loan_id (loans d))"
        "\<not> has_nul p"
    | (nofk) "int4 iid" "loan_id_seq d \<le> 2147483647"
        "loan_id_seq d \<notin> set (map loan_id (loans d))" "iid \<notin> set (map item_id (items d))"
        "\<not> has_nul p"
    | (made) "int4 iid" "loan_id_seq d \<le> 2147483647"
        "loan_id_seq d \<notin> set (map loan_id (loans d))" "iid \<in> set (map item_id (items d))"
        "\<not> has_nul p"
    by fastforce
  then show ?thesis
  proof cases
    case range
    then have "checkout_tx clk iid p d = (Inl (PrismaClientKnownRequestError ''P2020''), rollback d d)"
      by (simp add: checkout_tx_def loan_create_def Let_def)
    then show ?thesis using g0 by simp
  next
    case ended
    then have "checkout_tx clk iid p d = (Inl PrismaClientUnknownRequestError, rollback d d)"
      by (auto simp: checkout_tx_def loan_create_def Let_def)
    then show ?thesis using g0 by simp
  next
    case dup
    then have "checkout_tx clk iid p d = (Inl (PrismaClientKnownRequestError ''P2002''), rollback d d1)"
      by (simp add: checkout_tx_def loan_create_def Let_def d1_def)
    then show ?thesis using g1 by simp
  next
    case nofk
    then have "checkout_tx clk iid p d = (Inl (PrismaClientKnownRequestError ''P2003''), rollback d d1)"
      by (simp add: checkout_tx_def loan_create_def Let_def d1_def)
    then show ?thesis using g1 by simp
  next
    case made
    then have lc: "loan_create iid p (today clk) d = (Inr ln, d2)"
      by (simp add: loan_create_def Let_def d1_def d2_def ln_def)
    have tx: "checkout_tx clk iid p d =
        (case item_updateMany iid None (Some (loan_id_seq d)) d2 of
           (Inl e, d3) \<Rightarrow> (Inl e, rollback d d3)
         | (Inr count, d3) \<Rightarrow>
             if count = 0
             then (Inl (Error ''Item already loaned or does not exist''), rollback d d3)
             else (Inr (), d3))"
      by (simp add: checkout_tx_def lc ln_def)
    have um: "item_updateMany iid None (Some (loan_id_seq d)) d2 = (Inr 0, d2)
        \<or> (\<exists>e. item_updateMany iid None (Some (loan_id_seq d)) d2 = (Inl e, d2))
        \<or> ((\<exists>n. n \<noteq> 0 \<and> item_updateMany iid None (Some (loan_id_seq d)) d2
                = (Inr n, checked_out clk iid p d))
            \<and> (\<exists>r \<in> set (items d). item_id r = iid \<and> item_currentLoanId r = None))"
    proof (cases "filter (\<lambda>r. item_id r = iid \<and> item_currentLoanId r = None) (items d) = []")
      case True
      then show ?thesis
        using made(1) by (simp add: item_updateMany_def Let_def d2_def d1_def)
    next
      case False
      then have ex: "\<exists>r \<in> set (items d). item_id r = iid \<and> item_currentLoanId r = None"
        by (simp add: filter_empty_conv)
      have it: "items d2 = items d" "loans d2 = loans d @ [ln]"
        by (simp_all add: d2_def d1_def)
      have co: "d2\<lparr>items := map (\<lambda>r. if item_id r = iid \<and> item_currentLoanId r = None
                          then r\<lparr>item_currentLoanId := Some (loan_id_seq d)\<rparr> else r) (items d)\<rparr>
                = checked_out clk iid p d"
        by (simp add: d2_def d1_def checked_out_def ln_def)
      show ?thesis
        using False ex co made(1)
        by (auto simp: item_updateMany_def Let_def it ln_def)
    qed
    then show ?thesis
      using tx g2 made(2,3) by (auto simp: grown_def)
  qed
qed

lemma map_item_id_set_ptr [simp]:
  "map item_id (map (\<lambda>r. if P r then r\<lparr>item_currentLoanId := v\<rparr> else r) xs) = map item_id xs"
  by (induction xs) simp_all

lemma map_loan_id_close [simp]:
  "map loan_id (map (\<lambda>l. if Q l then l\<lparr>loan_returnedAt := t\<rparr> else l) xs) = map loan_id xs"
  by (induction xs) simp_all

lemma map_column_set_ptr [simp]:
  "map item_itemTypeId (map (\<lambda>r. if P r then r\<lparr>item_currentLoanId := v\<rparr> else r) xs) = map item_itemTypeId xs"
  by (induction xs) simp_all

lemma map_itemId_close [simp]:
  "map loan_itemId (map (\<lambda>l. if Q l then l\<lparr>loan_returnedAt := t\<rparr> else l) xs) = map loan_itemId xs"
  by (induction xs) simp_all

lemma set_ptr_column:
  "set (map item_currentLoanId (map (\<lambda>r. if P r then r\<lparr>item_currentLoanId := v\<rparr> else r) xs))
     \<subseteq> insert v (set (map item_currentLoanId xs))"
  by (induction xs) auto

lemma wf_checked_out:
  assumes w: "wf d" and ex: "\<exists>r \<in> set (items d). item_id r = iid \<and> item_currentLoanId r = None"
    and seq: "loan_id_seq d \<le> 2147483647"
  shows "wf (checked_out clk iid p d)"
proof -
  let ?d' = "checked_out clk iid p d"
  from w have pk: "pk_ok d" and fk: "fk_ok d" by (simp_all add: wf_def)
  have c1: "map item_id (items ?d') = map item_id (items d)"
    and c2: "map loan_id (loans ?d') = map loan_id (loans d) @ [loan_id_seq d]"
    and c3: "map loan_itemId (loans ?d') = map loan_itemId (loans d) @ [iid]"
    and c4: "map item_itemTypeId (items ?d') = map item_itemTypeId (items d)"
    and c5: "item_types ?d' = item_types d"
    and c6: "item_id_seq ?d' = item_id_seq d" "loan_id_seq ?d' = loan_id_seq d + 1"
    by (simp_all add: checked_out_def)
  have c7: "set (map item_currentLoanId (items ?d'))
      \<subseteq> insert (Some (loan_id_seq d)) (set (map item_currentLoanId (items d)))"
    unfolding checked_out_def using set_ptr_column by simp
  have "pk_ok ?d'"
    using pk seq unfolding pk_ok_def c1 c2 c6 by (force simp: int4_def)
  moreover have "fk_ok ?d'"
    using fk ex c7 unfolding fk_ok_def c1 c2 c3 c4 c5 by (auto 4 3)
  ultimately show ?thesis by (simp add: wf_def)
qed

lemma ptr_checked_out:
  assumes p: "ptr_ok d" and ex: "\<exists>r \<in> set (items d). item_id r = iid \<and> item_currentLoanId r = None"
  shows "ptr_ok (checked_out clk iid p' d)"
proof -
  from p ex have none: "open_loans d iid = []"
    by (auto simp: ptr_ok_def)
  have ol: "\<And>i. open_loans (checked_out clk iid p' d) i =
      open_loans d i @ (if i = iid then [\<lparr>loan_id = loan_id_seq d, loan_itemId = iid, loan_patronName = p',
                             loan_checkoutDate = today clk, loan_returnedAt = None\<rparr>] else [])"
    by (simp add: open_loans_def checked_out_def)
  have "\<And>r. r \<in> set (items d) \<Longrightarrow> item_id r = iid \<Longrightarrow> item_currentLoanId r = None"
  proof -
    fix r assume "r \<in> set (items d)" "item_id r = iid"
    with p none show "item_currentLoanId r = None"
      by (cases "item_currentLoanId r") (auto simp: ptr_ok_def)
  qed
  then show ?thesis
    using p none unfolding ptr_ok_def ol
    by (auto simp: checked_out_def)
qed

lemma return_tx_result:
  "(\<exists>e. fst (return_tx clk iid lid d) = Inl e \<and> grown d (snd (return_tx clk iid lid d)))
   \<or> (return_tx clk iid lid d = (Inr (), returned clk iid lid d)
       \<and> lid \<in> set (map loan_id (loans d))
       \<and> (\<exists>r \<in> set (items d). item_id r = iid \<and> item_currentLoanId r = Some lid))"
proof (cases "int4 lid \<and> lid \<in> set (map loan_id (loans d))")
  case False
  then have "\<exists>e. return_tx clk iid lid d = (Inl e, rollback d d)"
    by (auto simp: return_tx_def loan_update_def)
  then show ?thesis by (auto simp: grown_def rows_def rollback_def)
next
  case True
  define d1 where "d1 = d\<lparr>loans := map (\<lambda>l. if loan_id l = lid then l\<lparr>loan_returnedAt := Some (now clk)\<rparr> else l) (loans d)\<rparr>"
  have g: "grown d (rollback d d1)"
    by (simp add: d1_def grown_def rows_def rollback_def)
  have tx: "return_tx clk iid lid d =
      (case item_updateMany iid (Some lid) None d1 of
         (Inl e, d2) \<Rightarrow> (Inl e, rollback d d2)
       | (Inr count, d2) \<Rightarrow>
           if count = 0
           then (Inl (Error ''Failed to return item. It may have been returned by another process.''),
                 rollback d d2)
           else (Inr (), d2))"
    using True by (simp add: return_tx_def loan_update_def d1_def)
  consider (range) "\<not> int4 iid"
    | (none) "int4 iid"
        "filter (\<lambda>r. item_id r = iid \<and> item_currentLoanId r = Some lid) (items d) = []"
    | (some) "int4 iid"
        "filter (\<lambda>r. item_id r = iid \<and> item_currentLoanId r = Some lid) (items d) \<noteq> []"
    by blast
  then show ?thesis
  proof cases
    case range
    then have "item_updateMany iid (Some lid) None d1 = (Inl (PrismaClientKnownRequestError ''P2020''), d1)"
      by (simp add: item_updateMany_def Let_def)
    then show ?thesis using tx g by simp
  next
    case none
    then have "item_updateMany iid (Some lid) None d1 = (Inr 0, d1)"
      by (simp add: item_updateMany_def Let_def d1_def)
    then show ?thesis using tx g by simp
  next
    case some
    then have ex: "\<exists>r \<in> set (items d). item_id r = iid \<and> item_currentLoanId r = Some lid"
      by (simp add: filter_empty_conv)
    have "item_updateMany iid (Some lid) None d1 =
        (Inr (length (filter (\<lambda>r. item_id r = iid \<and> item_currentLoanId r = Some lid) (items d))),
         returned clk iid lid d)"
      using some by (simp add: item_updateMany_def Let_def d1_def returned_def)
    then show ?thesis using tx ex some True by simp
  qed
qed

lemma wf_returned:
  assumes w: "wf d"
  shows "wf (returned clk iid lid d)"
proof -
  let ?d' = "returned clk iid lid d"
  from w have pk: "pk_ok d" and fk: "fk_ok d" by (simp_all add: wf_def)
  have c1: "map item_id (items ?d') = map item_id (items d)"
    and c2: "map loan_id (loans ?d') = map loan_id (loans d)"
    and c3: "map loan_itemId (loans ?d') = map loan_itemId (loans d)"
    and c4: "map item_itemTypeId (items ?d') = map item_itemTypeId (items d)"
    and c5: "item_types ?d' = item_types d"
    and c6: "item_id_seq ?d' = item_id_seq d" "loan_id_seq ?d' = loan_id_seq d"
    by (simp_all add: returned_def)
  have c7: "set (map item_currentLoanId (items ?d'))
      \<subseteq> insert None (set (map item_currentLoanId (items d)))"
    unfolding returned_def using set_ptr_column by simp
  have "pk_ok ?d'"
    using pk unfolding pk_ok_def c1 c2 c6 by simp
  moreover have "fk_ok ?d'"
    using fk c7 unfolding fk_ok_def c1 c2 c3 c4 c5 by (auto 4 3)
  ultimately show ?thesis by (simp add: wf_def)
qed

lemma filter_open_close:
  "filter (\<lambda>l. loan_itemId l = i \<and> loan_returnedAt l = None)
     (map (\<lambda>l. if loan_id l = lid then l\<lparr>loan_returnedAt := Some t\<rparr> else l) xs)
   = filter (\<lambda>l. loan_id l \<noteq> lid) (filter (\<lambda>l. loan_itemId l = i \<and> loan_returnedAt l = None) xs)"
  by (induction xs) auto

lemma same_loan:
  assumes "distinct (map loan_id (loans d))" "l1 \<in> set (loans d)" "l2 \<in> set (loans d)"
    "loan_id l1 = loan_id l2"
  shows "l1 = l2"
  using assms by (meson distinct_map inj_onD)

lemma open_loans_ids:
  assumes pk: "pk_ok d" and a: "lid \<in> set (map loan_id (open_loans d i))"
    and b: "lid \<in> set (map loan_id (open_loans d j))"
  shows "i = j"
proof -
  from a obtain l1 where l1: "l1 \<in> set (loans d)" "loan_id l1 = lid" "loan_itemId l1 = i"
    by (auto simp: open_loans_def)
  from b obtain l2 where l2: "l2 \<in> set (loans d)" "loan_id l2 = lid" "loan_itemId l2 = j"
    by (auto simp: open_loans_def)
  from pk have "distinct (map loan_id (loans d))" by (simp add: pk_ok_def)
  with l1 l2 have "l1 = l2" using same_loan by metis
  with l1 l2 show ?thesis by simp
qed

lemma ptr_returned:
  assumes p: "ptr_ok d" and pk: "pk_ok d"
    and ex: "\<exists>r \<in> set (items d). item_id r = iid \<and> item_currentLoanId r = Some lid"
  shows "ptr_ok (returned clk iid lid d)"
proof -
  have ol: "\<And>i. open_loans (returned clk iid lid d) i = filter (\<lambda>l. loan_id l \<noteq> lid) (open_loans d i)"
    by (simp add: open_loans_def returned_def filter_open_close)
  from p ex have one: "map loan_id (open_loans d iid) = [lid]"
    by (auto simp: ptr_ok_def)
  have ptr: "\<And>x. x \<in> set (items d) \<Longrightarrow>
      map loan_id (open_loans d (item_id x)) = (case item_currentLoanId x of None \<Rightarrow> [] | Some l \<Rightarrow> [l])"
    using p by (simp add: ptr_ok_def)
  have "\<And>x. x \<in> set (items d) \<Longrightarrow>
      map loan_id (filter (\<lambda>l. loan_id l \<noteq> lid) (open_loans d (item_id x))) =
        (case (if item_id x = iid \<and> item_currentLoanId x = Some lid then None else item_currentLoanId x)
         of None \<Rightarrow> [] | Some l \<Rightarrow> [l])"
  proof -
    fix x assume x: "x \<in> set (items d)"
    show "map loan_id (filter (\<lambda>l. loan_id l \<noteq> lid) (open_loans d (item_id x))) =
        (case (if item_id x = iid \<and> item_currentLoanId x = Some lid then None else item_currentLoanId x)
         of None \<Rightarrow> [] | Some l \<Rightarrow> [l])"
    proof (cases "item_id x = iid")
      case True
      with ptr[OF x] one have px: "item_currentLoanId x = Some lid"
        by (cases "item_currentLoanId x") auto
      have "filter (\<lambda>l. loan_id l \<noteq> lid) (open_loans d iid) = []"
        using one by (auto simp: filter_empty_conv)
      then show ?thesis using True px by simp
    next
      case False
      have "\<And>l. l \<in> set (open_loans d (item_id x)) \<Longrightarrow> loan_id l \<noteq> lid"
      proof
        fix l assume "l \<in> set (open_loans d (item_id x))" "loan_id l = lid"
        then have "lid \<in> set (map loan_id (open_loans d (item_id x)))" by auto
        moreover have "lid \<in> set (map loan_id (open_loans d iid))" using one by simp
        ultimately show False using open_loans_ids[OF pk] False by blast
      qed
      then have "filter (\<lambda>l. loan_id l \<noteq> lid) (open_loans d (item_id x)) = open_loans d (item_id x)"
        by (simp add: filter_id_conv)
      then show ?thesis using False ptr[OF x] by simp
    qed
  qed
  then show ?thesis
    unfolding ptr_ok_def ol by (auto simp: returned_def)
qed


lemma item_id_int4: "pk_ok d \<Longrightarrow> i \<in> set (map item_id (items d)) \<Longrightarrow> int4 i"
  by (auto simp: pk_ok_def)

lemma loan_id_int4: "pk_ok d \<Longrightarrow> i \<in> set (map loan_id (loans d)) \<Longrightarrow> int4 i"
  by (auto simp: pk_ok_def)

lemma item_delete_deleted:
  assumes p: "ptr_ok d" and pk: "pk_ok d" and ex: "iid \<in> set (map item_id (items d))"
  shows "item_delete iid d = (Inr (), deleted iid d)"
proof -
  let ?gone = "map loan_id (filter (\<lambda>l. loan_itemId l = iid) (loans d))"
  let ?set_null = "\<lambda>r. case item_currentLoanId r of
                               None \<Rightarrow> r
                             | Some l \<Rightarrow> if l \<in> set ?gone then r\<lparr>item_currentLoanId := None\<rparr> else r"
  have keep: "\<And>x. x \<in> set (filter (\<lambda>r. item_id r \<noteq> iid) (items d)) \<Longrightarrow> ?set_null x = x"
  proof -
    fix x assume "x \<in> set (filter (\<lambda>r. item_id r \<noteq> iid) (items d))"
    then have x: "x \<in> set (items d)" "item_id x \<noteq> iid" by simp_all
    show "?set_null x = x"
    proof (cases "item_currentLoanId x")
      case None
      then show ?thesis by simp
    next
      case (Some l)
      with p x have "l \<in> set (map loan_id (open_loans d (item_id x)))"
        by (auto simp: ptr_ok_def)
      then obtain l1 where l1: "l1 \<in> set (loans d)" "loan_id l1 = l" "loan_itemId l1 = item_id x"
        by (auto simp: open_loans_def)
      have "l \<notin> set ?gone"
      proof
        assume "l \<in> set ?gone"
        then obtain l2 where l2: "l2 \<in> set (loans d)" "loan_id l2 = l" "loan_itemId l2 = iid"
          by auto
        from pk have "distinct (map loan_id (loans d))" by (simp add: pk_ok_def)
        with l1 l2 have "l1 = l2" using same_loan by metis
        with l1 l2 x show False by simp
      qed
      with Some show ?thesis by simp
    qed
  qed
  have "map ?set_null (filter (\<lambda>r. item_id r \<noteq> iid) (items d)) = filter (\<lambda>r. item_id r \<noteq> iid) (items d)"
    by (rule map_idI) (rule keep)
  then show ?thesis
    using ex item_id_int4[OF pk ex] by (simp add: item_delete_def deleted_def Let_def)
qed

lemma wf_deleted:
  assumes w: "wf d" and po: "ptr_ok d"
  shows "wf (deleted iid d)"
proof -
  let ?d' = "deleted iid d"
  from w have pk: "pk_ok d" and fk: "fk_ok d" by (simp_all add: wf_def)
  have c1: "map item_id (items ?d') = filter (\<lambda>i. i \<noteq> iid) (map item_id (items d))"
    and c3: "map loan_itemId (loans ?d') = filter (\<lambda>i. i \<noteq> iid) (map loan_itemId (loans d))"
    and c5: "item_types ?d' = item_types d"
    and c6: "item_id_seq ?d' = item_id_seq d" "loan_id_seq ?d' = loan_id_seq d"
    by (simp_all add: deleted_def filter_map comp_def)
  have c2: "distinct (map loan_id (loans ?d'))" "set (map loan_id (loans ?d')) \<subseteq> set (map loan_id (loans d))"
    using pk by (auto simp: deleted_def pk_ok_def distinct_map_filter)
  have c4: "set (map item_itemTypeId (items ?d')) \<subseteq> set (map item_itemTypeId (items d))"
    by (auto simp: deleted_def)
  have "pk_ok ?d'"
    using pk c2 unfolding pk_ok_def c1 c6 by auto
  moreover have "fk_ok ?d'"
    unfolding fk_ok_def
  proof (intro conjI ballI)
    fix i assume "i \<in> set (map loan_itemId (loans ?d'))"
    then show "i \<in> set (map item_id (items ?d'))"
      using fk unfolding fk_ok_def c1 c3 by auto
  next
    fix t assume "t \<in> set (map item_itemTypeId (items ?d'))"
    then show "t \<in> set (map it_id (item_types ?d'))"
      using fk c4 unfolding fk_ok_def c5 by blast
  next
    fix p l assume p: "p \<in> set (map item_currentLoanId (items ?d'))" and l: "l \<in> set_option p"
    from p l obtain x where x: "x \<in> set (items d)" "item_id x \<noteq> iid" "item_currentLoanId x = Some l"
      by (auto simp: deleted_def)
    from po x have "l \<in> set (map loan_id (open_loans d (item_id x)))"
      by (auto simp: ptr_ok_def)
    then obtain l1 where "l1 \<in> set (loans d)" "loan_id l1 = l" "loan_itemId l1 = item_id x"
      by (auto simp: open_loans_def)
    with x show "l \<in> set (map loan_id (loans ?d'))"
      by (auto simp: deleted_def)
  qed
  ultimately show ?thesis by (simp add: wf_def)
qed

lemma ptr_deleted:
  assumes po: "ptr_ok d"
  shows "ptr_ok (deleted iid d)"
proof -
  have "\<And>i. i \<noteq> iid \<Longrightarrow> open_loans (deleted iid d) i = open_loans d i"
    by (auto simp: open_loans_def deleted_def intro: filter_cong)
  then show ?thesis
    using po by (simp add: ptr_ok_def deleted_def)
qed

lemma run_snd: "snd (run r) = snd r"
  by (cases r; cases "fst r") (auto simp: run_def)

lemma run_fst: "fst (run r) = (case fst r of Inl e \<Rightarrow> Throw e | Inr x \<Rightarrow> Break)"
  by (cases r; cases "fst r") (auto simp: run_def)

lemma state_ok_grown: "grown d d' \<Longrightarrow> state_ok d \<Longrightarrow> state_ok d'"
  by (simp add: state_ok_def grown_wf grown_ptr)

lemma wf_itemType_create: "wf d \<Longrightarrow> wf (snd (itemType_create c n d))"
  by (auto simp: wf_def pk_ok_def fk_ok_def itemType_create_def Let_def)

lemma ptr_itemType_create: "ptr_ok d \<Longrightarrow> ptr_ok (snd (itemType_create c n d))"
  by (auto simp: ptr_ok_def open_loans_def itemType_create_def Let_def)

lemma wf_category_create: "wf d \<Longrightarrow> wf (snd (category_create c n p d))"
  by (auto simp: wf_def pk_ok_def fk_ok_def category_create_def Let_def)

lemma ptr_category_create: "ptr_ok d \<Longrightarrow> ptr_ok (snd (category_create c n p d))"
  by (auto simp: ptr_ok_def open_loans_def category_create_def Let_def)

lemma wf_item_connect: "wf d \<Longrightarrow> wf (snd (item_connect i c d))"
  by (auto simp: wf_def pk_ok_def fk_ok_def item_connect_def Let_def)

lemma ptr_item_connect: "ptr_ok d \<Longrightarrow> ptr_ok (snd (item_connect i c d))"
  by (auto simp: ptr_ok_def open_loans_def item_connect_def Let_def)

lemma wf_item_disconnect: "wf d \<Longrightarrow> wf (snd (item_disconnect i c d))"
  by (auto simp: wf_def pk_ok_def fk_ok_def item_disconnect_def Let_def)

lemma ptr_item_disconnect: "ptr_ok d \<Longrightarrow> ptr_ok (snd (item_disconnect i c d))"
  by (auto simp: ptr_ok_def open_loans_def item_disconnect_def Let_def)

lemma wf_item_create: "wf d \<Longrightarrow> wf (snd (item_create t ty rb d))"
proof -
  assume w: "wf d"
  then have pk: "pk_ok d" and fk: "fk_ok d" by (simp_all add: wf_def)
  let ?d1 = "d\<lparr>item_id_seq := item_id_seq d + 1\<rparr>"
  have g: "grown d ?d1" by (simp add: grown_def rows_def)
  let ?nul = "has_nul t \<or> (case rb of None \<Rightarrow> False | Some s \<Rightarrow> has_nul s)"
  consider (early) "\<not> int4 ty \<or> ?nul \<or> 2147483647 < item_id_seq d"
    | (late) "int4 ty" "item_id_seq d \<le> 2147483647" "\<not> ?nul"
        "item_id_seq d \<in> set (map item_id (items d)) \<or> ty \<notin> set (map it_id (item_types d))"
    | (made) "int4 ty" "item_id_seq d \<le> 2147483647"
        "\<not> (item_id_seq d \<in> set (map item_id (items d)) \<or> ty \<notin> set (map it_id (item_types d)))"
        "\<not> ?nul"
    by fastforce
  then show ?thesis
  proof cases
    case early
    then have "snd (item_create t ty rb d) = d"
      by (auto simp: item_create_def Let_def)
    then show ?thesis using w by simp
  next
    case late
    then have "snd (item_create t ty rb d) = ?d1"
      by (auto simp: item_create_def Let_def)
    then show ?thesis using grown_wf[OF g w] by simp
  next
    case made
    note False = made(3)
    let ?row = "\<lparr>item_id = item_id_seq d, item_title = t, item_itemTypeId = ty, item_requestedBy = rb,
                 item_currentLoanId = None\<rparr>"
    let ?d2 = "?d1\<lparr>items := items d @ [?row]\<rparr>"
    from made have e: "snd (item_create t ty rb d) = ?d2"
      by (simp add: item_create_def Let_def)
    have "pk_ok ?d2" using pk False made(2) unfolding pk_ok_def by (force simp: int4_def)
    moreover have "fk_ok ?d2" using fk False unfolding fk_ok_def by auto
    ultimately show ?thesis by (simp add: e wf_def)
  qed
qed

lemma ok_createItemType: "state_ok d \<Longrightarrow> state_ok (snd (createItemType pl d))"
  by (simp add: createItemType_def run_snd state_ok_def wf_itemType_create ptr_itemType_create
      split: text_check.splits del: text_field.simps)

lemma ok_createCategory: "state_ok d \<Longrightarrow> state_ok (snd (createCategory pl d))"
  by (simp add: createCategory_def run_snd state_ok_def wf_category_create ptr_category_create
      split: text_check.splits sum.splits del: text_field.simps)

lemma ok_createItem: "state_ok d \<Longrightarrow> state_ok (snd (createItem pl d))"
  by (simp add: createItem_def run_snd state_ok_def wf_item_create ptr_item_create
      split: text_check.splits sum.splits option.splits del: text_field.simps)

lemma ok_linkCategory: "state_ok d \<Longrightarrow> state_ok (snd (linkCategory pl d))"
  by (simp add: linkCategory_def run_snd state_ok_def wf_item_connect ptr_item_connect
      split: option.splits)

lemma ok_unlinkCategory: "state_ok d \<Longrightarrow> state_ok (snd (unlinkCategory pl d))"
  by (simp add: unlinkCategory_def run_snd state_ok_def wf_item_disconnect ptr_item_disconnect
      split: option.splits)

lemma ok_checkout_tx: "state_ok d \<Longrightarrow> state_ok (snd (checkout_tx clk iid p d))"
proof -
  assume s: "state_ok d"
  from checkout_tx_result[of clk iid p d] show ?thesis
  proof (elim disjE exE conjE)
    fix e assume "grown d (snd (checkout_tx clk iid p d))"
    then show ?thesis using s by (rule state_ok_grown)
  next
    assume e: "checkout_tx clk iid p d = (Inr (), checked_out clk iid p d)"
      and ex: "\<exists>r \<in> set (items d). item_id r = iid \<and> item_currentLoanId r = None"
      and sq: "loan_id_seq d \<le> 2147483647"
    from s ex sq show ?thesis
      by (simp add: e state_ok_def wf_checked_out ptr_checked_out)
  qed
qed

lemma ok_checkout: "state_ok d \<Longrightarrow> state_ok (snd (checkout clk pl d))"
  by (simp add: checkout_def run_snd ok_checkout_tx
      split: text_check.splits option.splits del: text_field.simps)

lemma ok_return_tx: "state_ok d \<Longrightarrow> state_ok (snd (return_tx clk iid lid d))"
proof -
  assume s: "state_ok d"
  from return_tx_result[of clk iid lid d] show ?thesis
  proof (elim disjE exE conjE)
    fix e assume "grown d (snd (return_tx clk iid lid d))"
    then show ?thesis using s by (rule state_ok_grown)
  next
    assume e: "return_tx clk iid lid d = (Inr (), returned clk iid lid d)"
      and ex: "\<exists>r \<in> set (items d). item_id r = iid \<and> item_currentLoanId r = Some lid"
    from s have "pk_ok d" by (simp add: state_ok_def wf_def)
    with s ex show ?thesis
      by (simp add: e state_ok_def wf_returned ptr_returned)
  qed
qed

lemma ok_return_item: "state_ok d \<Longrightarrow> state_ok (snd (return_item clk pl d))"
  by (simp add: return_item_def run_snd ok_return_tx split: option.splits sum.splits)

lemma ok_item_delete: "state_ok d \<Longrightarrow> state_ok (snd (item_delete iid d))"
proof (cases "iid \<in> set (map item_id (items d))")
  case False
  then show "state_ok d \<Longrightarrow> ?thesis" by (simp add: item_delete_def)
next
  case True
  assume s: "state_ok d"
  then have "item_delete iid d = (Inr (), deleted iid d)"
    using True item_delete_deleted by (simp add: state_ok_def wf_def)
  then show ?thesis using s by (simp add: state_ok_def wf_deleted ptr_deleted)
qed

lemma ok_deleteItem: "state_ok d \<Longrightarrow> state_ok (snd (deleteItem pl d))"
  by (simp add: deleteItem_def run_snd ok_item_delete split: option.splits)

lemma ok_switch: "state_ok d \<Longrightarrow> state_ok (snd (switch clk a pl d))"
  by (simp add: switch_def ok_createItemType ok_createCategory ok_createItem ok_linkCategory
      ok_unlinkCategory ok_checkout ok_return_item ok_deleteItem)

lemma handler_snd:
  "snd (handler env clk req d) = d
   \<or> snd (handler env clk req d)
       = snd (switch clk (get_prop (body req) ''action'') (get_prop (body req) ''payload'') d)"
  by (simp add: handler_def Let_def split: option.splits prod.splits step.splits)

lemma ok_handler: "state_ok d \<Longrightarrow> state_ok (snd (handler env clk req d))"
  using handler_snd[of env clk req d] ok_switch by metis

section \<open>The snapshot of a storage that meets the constraints\<close>

lemma those_map_Some:
  "(\<And>x. x \<in> set xs \<Longrightarrow> f x = Some (g x)) \<Longrightarrow> those (map f xs) = Some (map g xs)"
  by (induction xs) simp_all

lemma find_item_type:
  assumes "fk_ok d" "r \<in> set (items d)"
  shows "\<exists>t. find (\<lambda>t. it_id t = item_itemTypeId r) (item_types d) = Some t"
proof -
  from assms have "item_itemTypeId r \<in> set (map it_id (item_types d))"
    by (simp add: fk_ok_def)
  then have "find (\<lambda>t. it_id t = item_itemTypeId r) (item_types d) \<noteq> None"
    by (auto simp: find_None_iff)
  then show ?thesis by auto
qed

lemma item_select_Some:
  assumes "fk_ok d" "r \<in> set (items d)"
  shows "\<exists>v. item_select d r = Some v"
  using find_item_type[OF assms] by (auto simp: item_select_def)

lemma item_findMany_ok:
  assumes "fk_ok d"
  shows "item_findMany d = Inr (map (\<lambda>r. the (item_select d r)) (sort_key item_id (items d)))"
proof -
  have "those (map (item_select d) (sort_key item_id (items d)))
      = Some (map (\<lambda>r. the (item_select d r)) (sort_key item_id (items d)))"
  proof (rule those_map_Some)
    fix x assume "x \<in> set (sort_key item_id (items d))"
    then have "x \<in> set (items d)" by simp
    from item_select_Some[OF assms this] show "item_select d x = Some (the (item_select d x))"
      by auto
  qed
  then show ?thesis by (simp add: item_findMany_def)
qed

lemma getSnapshot_ok:
  assumes "fk_ok d"
  shows "getSnapshot d =
    Inr \<lparr>itemTypes = item_types d, categories_of = categories d,
         items_of = map (\<lambda>r. iso_loan (the (item_select d r))) (sort_key item_id (items d))\<rparr>"
  by (simp add: getSnapshot_def item_findMany_ok[OF assms] comp_def)

lemma respond_snapshot_ok:
  assumes "fk_ok d"
  shows "\<exists>s. getSnapshot d = Inr s \<and> respond_snapshot d = success s"
  by (simp add: respond_snapshot_def getSnapshot_ok[OF assms])

lemma digit_value_digit: "digit_value (digit n) = Some (n mod 10)"
proof -
  have "n mod 10 < 10" by simp
  then have "n mod 10 = 0 \<or> n mod 10 = 1 \<or> n mod 10 = 2 \<or> n mod 10 = 3 \<or> n mod 10 = 4
      \<or> n mod 10 = 5 \<or> n mod 10 = 6 \<or> n mod 10 = 7 \<or> n mod 10 = 8 \<or> n mod 10 = 9"
    by arith
  then show ?thesis
    by (elim disjE) (simp_all add: digit_def digit_value_def)
qed

lemma last_digit: "10 * (n div 10) + n mod 10 = (n::nat)"
  by simp

lemma next_digit: "10 * (n div (k * 10)) + n div k mod 10 = (n::nat) div k"
proof -
  have "n div (k * 10) = n div k div 10" by (rule div_mult2_eq)
  then show ?thesis by simp
qed

lemma number_value_pad2: "n < 100 \<Longrightarrow> number_value (pad2 n) = Some n"
  by (simp add: number_value_def pad2_def digit_value_digit)

lemma number_value_pad4:
  assumes "n < 10000"
  shows "number_value (pad4 n) = Some n"
proof -
  have a: "n div 1000 mod 10 = n div 1000" using assms by simp
  have b: "10 * (n div 1000) + n div 100 mod 10 = n div 100"
    using next_digit[of n 100] by simp
  have c: "10 * (n div 100) + n div 10 mod 10 = n div 10"
    using next_digit[of n 10] by simp
  have "number_value (pad4 n)
      = Some (10 * (10 * (10 * (n div 1000 mod 10) + n div 100 mod 10) + n div 10 mod 10) + n mod 10)"
    by (simp add: number_value_def pad4_def digit_value_digit)
  also have "\<dots> = Some n"
    by (simp only: a b c last_digit)
  finally show ?thesis .
qed

lemma date_range:
  "month dt \<le> 12 \<and> day dt \<le> 31 \<and> year dt \<le> 9999"
proof -
  have "calendar_day (Rep_date dt)" using Rep_date[of dt] by simp
  then show ?thesis
    by (cases "Rep_date dt")
       (auto simp: calendar_day_def year_def month_def day_def days_in_month_def split: if_splits)
qed

lemma read_iso_toISOString: "read_iso (toISOString dt) = Some (year dt, month dt, day dt)"
proof -
  from date_range[of dt] have m: "month dt < 100" and d: "day dt < 100" and y: "year dt < 10000"
    by simp_all
  have l2: "\<And>n. length (pad2 n) = 2" and l4: "\<And>n. length (pad4 n) = 4"
    by (simp_all add: pad2_def pad4_def)
  show ?thesis
    by (simp add: read_iso_def toISOString_def l2 l4
        number_value_pad4[OF y] number_value_pad2[OF m] number_value_pad2[OF d])
qed

lemma find_loan:
  assumes "pk_ok d" "l \<in> set (loans d)"
  shows "find (\<lambda>l'. loan_id l' = loan_id l) (loans d) = Some l"
proof -
  have "\<exists>l'. find (\<lambda>l'. loan_id l' = loan_id l) (loans d) = Some l'"
    using assms(2) by (cases "find (\<lambda>l'. loan_id l' = loan_id l) (loans d)") (auto simp: find_None_iff)
  then obtain l' where f: "find (\<lambda>l'. loan_id l' = loan_id l) (loans d) = Some l'" by blast
  then have "l' \<in> set (loans d)" "loan_id l' = loan_id l"
    by (auto simp: find_Some_iff)
  moreover from assms(1) have "distinct (map loan_id (loans d))" by (simp add: pk_ok_def)
  ultimately have "l' = l" using assms(2) same_loan by metis
  with f show ?thesis by simp
qed

lemma shows_loan_view:
  assumes w: "wf d" and r: "r \<in> set (items d)"
  shows "shows_loan d r (iso_loan (the (item_select d r)))"
proof -
  from w have pk: "pk_ok d" and fk: "fk_ok d" by (simp_all add: wf_def)
  from find_item_type[OF fk r] obtain t
    where t: "find (\<lambda>t. it_id t = item_itemTypeId r) (item_types d) = Some t" by blast
  then have ty: "it_id t = item_itemTypeId r" by (auto simp: find_Some_iff)
  show ?thesis
  proof (cases "item_currentLoanId r")
    case None
    then show ?thesis by (simp add: shows_loan_def item_select_def t ty iso_loan_def)
  next
    case (Some lid)
    with fk r have "lid \<in> set (map loan_id (loans d))"
      by (force simp: fk_ok_def)
    then obtain l where l: "l \<in> set (loans d)" "loan_id l = lid" by auto
    from find_loan[OF pk l(1)] l(2) have f: "find (\<lambda>l'. loan_id l' = lid) (loans d) = Some l" by simp
    have "\<And>l'. l' \<in> set (loans d) \<Longrightarrow> lid = loan_id l' \<Longrightarrow> l' = l"
      using find_loan[OF pk] f by fastforce
    then show ?thesis
      using Some ty
      by (auto simp: shows_loan_def shows_the_loan_def item_select_def t iso_loan_def f read_iso_toISOString)
  qed
qed


section \<open>Calls that reach the switch\<close>

lemma get_prop_truthy: "get_prop v k = Some x \<Longrightarrow> truthy v"
  by (cases "(v, k)" rule: get_prop.cases) simp_all

lemma handler_calls:
  assumes "calls env req a pl" and "truthy pl" and "a \<noteq> []"
  shows "handler env clk req d = finish (switch clk (Some (JStr a)) pl d)"
proof -
  from assms(1) obtain tok where tok: "env = Some tok" "tok \<noteq> []" "\<not> unauthorized tok (authorization req)"
    by (cases env) (auto simp: calls_def)
  from assms(1) have m: "http_method req = ''POST''"
    and a: "get_prop (body req) ''action'' = Some (JStr a)"
    and p: "get_prop (body req) ''payload'' = pl"
    by (simp_all add: calls_def)
  from a have b: "body req \<noteq> None" "body req \<noteq> Some JNull"
    by (cases "body req"; force)+
  show ?thesis
    using tok m a p b assms(2,3)
    by (auto simp: handler_def finish_def Let_def)
qed

lemma same_item:
  assumes "pk_ok d" "x \<in> set (items d)" "y \<in> set (items d)" "item_id x = item_id y"
  shows "x = y"
proof -
  from assms(1) have "distinct (map item_id (items d))" by (simp add: pk_ok_def)
  with assms(2-4) show ?thesis by (meson distinct_map inj_onD)
qed

lemma item_int4: "pk_ok d \<Longrightarrow> r \<in> set (items d) \<Longrightarrow> int4 (item_id r)"
  by (simp add: pk_ok_def)

lemma fresh_loan_id: "pk_ok d \<Longrightarrow> loan_id_seq d \<notin> set (map loan_id (loans d))"
  by (auto simp: pk_ok_def)

lemma filter_one_item:
  assumes "pk_ok d" "r \<in> set (items d)" "P r"
  shows "length (filter (\<lambda>x. item_id x = item_id r \<and> P x) (items d)) = 1"
proof -
  have "filter (\<lambda>x. item_id x = item_id r \<and> P x) (items d) = filter (\<lambda>x. x = r) (items d)"
    using same_item[OF assms(1) _ assms(2)] assms(3) by (intro filter_cong) auto
  moreover from assms(1) have "distinct (items d)"
    by (auto simp: pk_ok_def distinct_map)
  ultimately show ?thesis using assms(2)
    by (simp add: distinct_length_filter)
qed

lemma checkout_tx_available:
  assumes w: "wf d" and r: "r \<in> set (items d)" and n: "item_currentLoanId r = None"
    and sq: "loan_id_seq d \<le> 2147483647" and np: "\<not> has_nul p"
  shows "checkout_tx clk (item_id r) p d = (Inr (), checked_out clk (item_id r) p d)"
proof -
  from w have pk: "pk_ok d" and fk: "fk_ok d" by (simp_all add: wf_def)
  note i4 = item_int4[OF pk r]
  from checkout_tx_result[of clk "item_id r" p d] show ?thesis
  proof (elim disjE exE conjE)
    fix e assume e: "fst (checkout_tx clk (item_id r) p d) = Inl e"
    define ln where "ln = \<lparr>loan_id = loan_id_seq d, loan_itemId = item_id r, loan_patronName = p,
                          loan_checkoutDate = today clk, loan_returnedAt = None\<rparr>"
    define d2 where "d2 = d\<lparr>loan_id_seq := loan_id_seq d + 1, loans := loans d @ [ln]\<rparr>"
    have lc: "loan_create (item_id r) p (today clk) d = (Inr ln, d2)"
      using fresh_loan_id[OF pk] r i4 sq np by (simp add: loan_create_def Let_def d2_def ln_def)
    have one: "length (filter (\<lambda>x. item_id x = item_id r \<and> item_currentLoanId x = None) (items d)) = 1"
      using filter_one_item[OF pk r, of "\<lambda>x. item_currentLoanId x = None"] n by simp
    have nodup: "\<not> (\<exists>x \<in> set (items d). item_currentLoanId x = Some (loan_id_seq d))"
      using fk fresh_loan_id[OF pk] by (force simp: fk_ok_def)
    from one have ne: "filter (\<lambda>x. item_id x = item_id r \<and> item_currentLoanId x = None) (items d) \<noteq> []"
      by auto
    have "\<exists>d3. item_updateMany (item_id r) None (Some (loan_id_seq d)) d2 = (Inr 1, d3)"
      using one ne nodup i4 by (simp add: item_updateMany_def Let_def d2_def ln_def)
    then obtain d3 where "item_updateMany (item_id r) None (Some (loan_id_seq d)) d2 = (Inr 1, d3)"
      by blast
    then have "fst (checkout_tx clk (item_id r) p d) = Inr ()"
      by (simp add: checkout_tx_def lc ln_def)
    with e show ?thesis by simp
  qed simp
qed

lemma checkout_tx_on_loan:
  assumes w: "wf d" and r: "r \<in> set (items d)" and n: "item_currentLoanId r \<noteq> None"
    and sq: "loan_id_seq d \<le> 2147483647" and np: "\<not> has_nul p"
  shows "checkout_tx clk (item_id r) p d
     = (Inl (Error ''Item already loaned or does not exist''), d\<lparr>loan_id_seq := loan_id_seq d + 1\<rparr>)"
proof -
  from w have pk: "pk_ok d" by (simp add: wf_def)
  note i4 = item_int4[OF pk r]
  define ln where "ln = \<lparr>loan_id = loan_id_seq d, loan_itemId = item_id r, loan_patronName = p,
                          loan_checkoutDate = today clk, loan_returnedAt = None\<rparr>"
  define d2 where "d2 = d\<lparr>loan_id_seq := loan_id_seq d + 1, loans := loans d @ [ln]\<rparr>"
  have lc: "loan_create (item_id r) p (today clk) d = (Inr ln, d2)"
    using fresh_loan_id[OF pk] r i4 sq np by (simp add: loan_create_def Let_def d2_def ln_def)
  have "filter (\<lambda>x. item_id x = item_id r \<and> item_currentLoanId x = None) (items d) = []"
    using same_item[OF pk _ r] n by (auto simp: filter_empty_conv)
  then have "item_updateMany (item_id r) None (Some (loan_id_seq d)) d2 = (Inr 0, d2)"
    using i4 by (simp add: item_updateMany_def Let_def d2_def)
  then show ?thesis
    by (simp add: checkout_tx_def lc ln_def rollback_def d2_def)
qed

lemma not_blank: "\<not> blank p \<Longrightarrow> p \<noteq> []"
  by auto

lemma is_number_as_int: "as_int v = Some i \<Longrightarrow> is_number v"
  by (cases v rule: as_int.cases) simp_all

lemma as_int_truthy: "as_int (get_prop v k) = Some i \<Longrightarrow> truthy v"
  by (cases "(v, k)" rule: get_prop.cases) simp_all

lemma as_int_Whole: "int4 i \<Longrightarrow> as_int (Some (JNum (Whole i))) = Some i"
  by (simp add: int4_def)

lemma checkout_valid:
  assumes "as_int (get_prop pl ''itemId'') = Some i"
    and "get_prop pl ''patronName'' = Some (JStr p)" and "\<not> blank p"
  shows "checkout clk pl d = run (checkout_tx clk i p d)"
  using assms not_blank[OF assms(3)] is_number_as_int[OF assms(1)] by (simp add: checkout_def)

lemma switch_checkout: "switch clk (Some (JStr ''checkout'')) pl d = checkout clk pl d"
  by (simp add: switch_def)

lemma items_checked_out:
  assumes pk: "pk_ok d" and r: "r \<in> set (items d)" and n: "item_currentLoanId r = None"
  shows "items (checked_out clk (item_id r) p d)
    = map (\<lambda>x. if item_id x = item_id r then x\<lparr>item_currentLoanId := Some (loan_id_seq d)\<rparr> else x) (items d)"
proof -
  have "\<And>x. x \<in> set (items d) \<Longrightarrow> item_id x = item_id r \<Longrightarrow> item_currentLoanId x = None"
    using same_item[OF pk _ r] n by blast
  then show ?thesis
    by (auto simp: checked_out_def)
qed

lemmas eval_defs =
  handler_def unauthorized_def switch_def checkout_def return_item_def deleteItem_def
  createItemType_def createCategory_def createItem_def linkCategory_def unlinkCategory_def
  checkout_tx_def return_tx_def loan_create_def item_updateMany_def loan_update_def
  item_findUnique_def item_delete_def item_create_def itemType_create_def category_create_def
  item_connect_def item_disconnect_def rollback_def run_def caught_def failure_def success_def
  respond_snapshot_def getSnapshot_def item_findMany_def item_select_def iso_loan_def
  toISOString_def digit_def has_nul_def is_space1_def is_space2_def is_space3_def int4_def calls_def post_def get_def Let_def

lemma rows_seq [simp]: "rows (d\<lparr>loan_id_seq := n\<rparr>) = rows d"
  by (simp add: rows_def)

lemma handler_calls_falsy:
  assumes "calls env req a pl" and "\<not> truthy pl"
  shows "handler env clk req d = (failure 400 (Text ''Action and payload are required.''), d)"
proof -
  from assms(1) obtain tok where tok: "env = Some tok" "tok \<noteq> []" "\<not> unauthorized tok (authorization req)"
    by (cases env) (auto simp: calls_def)
  from assms(1) have m: "http_method req = ''POST''"
    and a: "get_prop (body req) ''action'' = Some (JStr a)"
    and p: "get_prop (body req) ''payload'' = pl"
    by (simp_all add: calls_def)
  from a have b: "body req \<noteq> None" "body req \<noteq> Some JNull"
    by (cases "body req"; force)+
  show ?thesis
    using tok m a p b assms(2)
    by (auto simp: handler_def Let_def)
qed

lemma not_ok_failure [simp]: "\<not> ok (failure st m)"
  by (simp add: failure_def)

lemma not_ok_caught [simp]: "\<not> ok (caught e)"
  by (simp add: caught_def)

lemma finish_Respond: "finish (Respond r, d) = (r, d)"
  by (simp add: finish_def)

lemma finish_Throw: "finish (Throw e, d) = (caught e, d)"
  by (simp add: finish_def)

lemma finish_Break: "finish (Break, d) = (respond_snapshot d, d)"
  by (simp add: finish_def)

lemma find_item:
  assumes "pk_ok d" "r \<in> set (items d)"
  shows "item_findUnique (item_id r) d = Inr (Some r)"
proof -
  have "\<exists>x. find (\<lambda>x. item_id x = item_id r) (items d) = Some x"
    using assms(2) by (cases "find (\<lambda>x. item_id x = item_id r) (items d)") (auto simp: find_None_iff)
  then obtain x where f: "find (\<lambda>x. item_id x = item_id r) (items d) = Some x" by blast
  then have "x \<in> set (items d)" "item_id x = item_id r"
    by (auto simp: find_Some_iff)
  then have "x = r" using same_item[OF assms(1) _ assms(2)] by blast
  with f item_int4[OF assms] show ?thesis by (simp add: item_findUnique_def)
qed

lemma item_findUnique_Some:
  "item_findUnique i d = Inr (Some r) \<Longrightarrow> r \<in> set (items d) \<and> item_id r = i"
  by (auto simp: item_findUnique_def find_Some_iff split: if_splits)

lemma return_tx_commit:
  assumes "lid \<in> set (map loan_id (loans d))"
    and "r \<in> set (items d)" and "item_currentLoanId r = Some lid"
    and "int4 lid" and "int4 (item_id r)"
  shows "return_tx clk (item_id r) lid d = (Inr (), returned clk (item_id r) lid d)"
proof -
  define d1 where "d1 = d\<lparr>loans := map (\<lambda>l. if loan_id l = lid then l\<lparr>loan_returnedAt := Some (now clk)\<rparr> else l) (loans d)\<rparr>"
  have ne: "filter (\<lambda>x. item_id x = item_id r \<and> item_currentLoanId x = Some lid) (items d) \<noteq> []"
    using assms(2,3) by (auto simp: filter_empty_conv)
  then have "item_updateMany (item_id r) (Some lid) None d1 =
        (Inr (length (filter (\<lambda>x. item_id x = item_id r \<and> item_currentLoanId x = Some lid) (items d))),
         returned clk (item_id r) lid d)"
    using assms(5) by (simp add: item_updateMany_def Let_def d1_def returned_def)
  then show ?thesis
    using assms(1,4) ne by (simp add: return_tx_def loan_update_def d1_def)
qed

lemma items_returned:
  assumes pk: "pk_ok d" and r: "r \<in> set (items d)" and n: "item_currentLoanId r = Some lid"
  shows "items (returned clk (item_id r) lid d)
    = map (\<lambda>x. if item_id x = item_id r then x\<lparr>item_currentLoanId := None\<rparr> else x) (items d)"
proof -
  have "\<And>x. x \<in> set (items d) \<Longrightarrow> item_id x = item_id r \<Longrightarrow> item_currentLoanId x = Some lid"
    using same_item[OF pk _ r] n by blast
  then show ?thesis
    by (auto simp: returned_def)
qed

lemma switch_return: "switch clk (Some (JStr ''return'')) pl d = return_item clk pl d"
  by (simp add: switch_def)

lemma return_item_commit:
  assumes w: "wf d" and r: "r \<in> set (items d)" and n: "item_currentLoanId r = Some lid"
    and i: "as_int (get_prop pl ''itemId'') = Some (item_id r)"
  shows "return_item clk pl d = (Break, returned clk (item_id r) lid d)"
proof -
  from w have pk: "pk_ok d" and fk: "fk_ok d" by (simp_all add: wf_def)
  from fk r n have l: "lid \<in> set (map loan_id (loans d))"
    by (force simp: fk_ok_def)
  with pk have "0 < lid" and l4: "int4 lid" by (auto simp: pk_ok_def)
  then show ?thesis
    using i n is_number_as_int[OF i]
    by (simp add: return_item_def find_item[OF pk r]
        return_tx_commit[OF l r n l4 item_int4[OF pk r]] run_def)
qed

lemma return_item_reject:
  assumes "\<not> (\<exists>r \<in> set (items d). as_int (get_prop pl ''itemId'') = Some (item_id r)
              \<and> item_currentLoanId r \<noteq> None)"
  shows "\<not> ok (fst (finish (return_item clk pl d))) \<and> snd (finish (return_item clk pl d)) = d"
proof (cases "as_int (get_prop pl ''itemId'')")
  case None
  then show ?thesis
    by (simp add: return_item_def finish_Respond finish_Throw)
next
  case (Some i)
  note i = Some is_number_as_int[OF Some]
  show ?thesis
  proof (cases "item_findUnique i d")
    case (Inl e)
    then show ?thesis using i by (simp add: return_item_def finish_Throw)
  next
    case (Inr f)
    show ?thesis
    proof (cases f)
      case None
      then show ?thesis using i Inr by (simp add: return_item_def finish_Throw)
    next
      case (Some r)
      from item_findUnique_Some[OF Inr[unfolded Some]] assms i(1) have "item_currentLoanId r = None"
        by auto
      then show ?thesis using i Inr Some by (simp add: return_item_def finish_Throw)
    qed
  qed
qed

lemma switch_deleteItem: "switch clk (Some (JStr ''deleteItem'')) pl d = deleteItem pl d"
  by (simp add: switch_def)

lemma handler_checkout_commit:
  assumes "wf d" and "r \<in> set (items d)" and "item_currentLoanId r = None"
    and "calls env req ''checkout'' pl"
    and "as_int (get_prop pl ''itemId'') = Some (item_id r)"
    and "get_prop pl ''patronName'' = Some (JStr p)" and "\<not> blank p"
    and sq: "loan_id_seq d \<le> 2147483647" and np: "\<not> has_nul p"
  shows "\<exists>s. handler env clk req d = (success s, checked_out clk (item_id r) p d)"
proof -
  let ?d' = "checked_out clk (item_id r) p d"
  have tx: "checkout_tx clk (item_id r) p d = (Inr (), ?d')"
    by (rule checkout_tx_available[OF assms(1-3) sq np])
  have "wf ?d'"
    using wf_checked_out[OF assms(1) _ sq] assms(2,3) by blast
  then have "fk_ok ?d'" by (simp add: wf_def)
  from respond_snapshot_ok[OF this] obtain s where s: "respond_snapshot ?d' = success s" by blast
  have "handler env clk req d = (success s, ?d')"
    using handler_calls[OF assms(4) as_int_truthy[OF assms(5)], of clk d]
    by (simp add: switch_checkout checkout_valid[OF assms(5-7)] tx run_def finish_def s)
  then show ?thesis by blast
qed

lemma handler_return_commit:
  assumes "wf d" and "r \<in> set (items d)" and "item_currentLoanId r = Some lid"
    and "calls env req ''return'' pl"
    and "as_int (get_prop pl ''itemId'') = Some (item_id r)"
  shows "\<exists>s. handler env clk req d = (success s, returned clk (item_id r) lid d)"
proof -
  let ?d' = "returned clk (item_id r) lid d"
  have "fk_ok ?d'" using wf_returned[OF assms(1)] by (simp add: wf_def)
  from respond_snapshot_ok[OF this] obtain s where s: "respond_snapshot ?d' = success s" by blast
  have "handler env clk req d = (success s, ?d')"
    using handler_calls[OF assms(4) as_int_truthy[OF assms(5)], of clk d]
    by (simp add: switch_return return_item_commit[OF assms(1-3,5)] finish_Break s)
  then show ?thesis by blast
qed

lemma returned_checked_out:
  assumes pk: "pk_ok d" and r: "r \<in> set (items d)" and n: "item_currentLoanId r = None"
  shows "returned clk2 (item_id r) (loan_id_seq d) (checked_out clk1 (item_id r) p d)
    = d\<lparr>loan_id_seq := loan_id_seq d + 1,
        loans := loans d @ [\<lparr>loan_id = loan_id_seq d, loan_itemId = item_id r, loan_patronName = p,
                              loan_checkoutDate = today clk1, loan_returnedAt = Some (now clk2)\<rparr>]\<rparr>"
proof -
  have l: "map (\<lambda>l. if loan_id l = loan_id_seq d then l\<lparr>loan_returnedAt := Some (now clk2)\<rparr> else l) (loans d)
      = loans d"
    using fresh_loan_id[OF pk] by (intro map_idI) force
  have "\<And>x. x \<in> set (items d) \<Longrightarrow> item_id x = item_id r \<Longrightarrow> item_currentLoanId x = None"
    using same_item[OF pk _ r] n by blast
  then have i: "map ((\<lambda>x. if item_id x = item_id r \<and> item_currentLoanId x = Some (loan_id_seq d)
                          then x\<lparr>item_currentLoanId := None\<rparr> else x)
         \<circ> (\<lambda>x. if item_id x = item_id r \<and> item_currentLoanId x = None
                          then x\<lparr>item_currentLoanId := Some (loan_id_seq d)\<rparr> else x)) (items d)
      = items d"
    by (intro map_idI) auto
  show ?thesis
    by (simp add: returned_def checked_out_def l i)
qed


section \<open>Missing records and unknown actions\<close>



lemma status_caught: "status (caught e) = (if e = PrismaClientKnownRequestError ''P2025'' then 404 else 400)"
  by (simp add: caught_def failure_def)

lemma text_field_Present:
  "v = Some (JStr t) \<Longrightarrow> \<not> blank t \<Longrightarrow> text_field v = Present t"
  by auto




lemma switch_unknown:
  assumes "a \<notin> set (map (\<lambda>n. Some (JStr n)) known_actions)"
  shows "switch clk a pl d = (Respond (failure 400 (Text ''Unknown action'')), d)"
  using assms by (simp add: switch_def known_actions_def)

lemma handler_unknown:
  assumes "http_method req \<noteq> ''GET''"
    and "get_prop (body req) ''action'' \<notin> set (map (\<lambda>n. Some (JStr n)) known_actions)"
  shows "\<not> ok (fst (handler env clk req d)) \<and> snd (handler env clk req d) = d"
  using assms(1) switch_unknown[OF assms(2)]
  by (simp add: handler_def Let_def split: option.splits)

section \<open>The bearer token\<close>

lemma split_on_ne: "split_on c s \<noteq> []"
  by (induction s) (auto split: list.splits)

lemma hd_split_on: "hd (split_on c s) = takeWhile (\<lambda>x. x \<noteq> c) s"
  by (induction s) (auto split: list.splits simp: split_on_ne)

lemma second_Bearer: "second (split_on CHR '' '' (''Bearer '' @ s)) = Some (takeWhile (\<lambda>x. x \<noteq> CHR '' '') s)"
proof -
  obtain w ws where w: "split_on CHR '' '' s = w # ws"
    using split_on_ne[of "CHR '' ''" s] by (cases "split_on CHR '' '' s") auto
  with hd_split_on[of "CHR '' ''" s] have "w = takeWhile (\<lambda>x. x \<noteq> CHR '' '') s" by simp
  with w show ?thesis by simp
qed

lemma authorized_presents:
  assumes "\<not> unauthorized tok (Some h)"
  shows "presents tok h"
proof -
  let ?P = "\<lambda>x. x \<noteq> CHR '' ''"
  from assms have b: "take 7 h = ''Bearer ''" and s: "second (split_on CHR '' '' h) = Some tok"
    by (simp_all add: unauthorized_def)
  have h: "h = ''Bearer '' @ drop 7 h"
    using append_take_drop_id[of 7 h] b by simp
  from s have "second (split_on CHR '' '' (''Bearer '' @ drop 7 h)) = Some tok"
    using h by simp
  then have t: "takeWhile (\<lambda>x. x \<noteq> CHR '' '') (drop 7 h) = tok"
    by (simp only: second_Bearer option.inject)
  have k: "take (length tok) (drop 7 h) = tok"
    using takeWhile_eq_take[of "\<lambda>x. x \<noteq> CHR '' ''" "drop 7 h"] t by simp
  moreover have "length ''Bearer '' = 7" by simp
  ultimately have "take (7 + length tok) (''Bearer '' @ drop 7 h) = ''Bearer '' @ tok"
    by (simp only: take_append take_all_iff) simp
  with h have p: "take (7 + length tok) h = ''Bearer '' @ tok" by simp
  have "drop 7 h = tok @ dropWhile ?P (drop 7 h)"
    using takeWhile_dropWhile_id[of ?P "drop 7 h"] t by simp
  then have "drop (length tok) (drop 7 h) = dropWhile ?P (drop 7 h)"
    by (metis append_eq_conv_conj)
  then have r: "drop (7 + length tok) h = dropWhile ?P (drop 7 h)"
    by (simp add: add.commute)
  have "dropWhile ?P (drop 7 h) = [] \<or> take 1 (dropWhile ?P (drop 7 h)) = '' ''"
  proof (cases "dropWhile ?P (drop 7 h)")
    case Nil
    then show ?thesis by simp
  next
    case (Cons x xs)
    with hd_dropWhile[of ?P "drop 7 h"] have "x = CHR '' ''" by auto
    with Cons show ?thesis by simp
  qed
  with p r show ?thesis by (simp add: presents_def)
qed

lemma presents_authorized:
  assumes "presents tok h" and "CHR '' '' \<notin> set tok"
  shows "\<not> unauthorized tok (Some h)"
proof -
  let ?P = "\<lambda>x. x \<noteq> CHR '' ''"
  let ?r = "drop (7 + length tok) h"
  from assms(1) have p: "take (7 + length tok) h = ''Bearer '' @ tok"
    and e: "?r = [] \<or> take 1 ?r = '' ''"
    by (simp_all add: presents_def)
  have h: "h = ''Bearer '' @ (tok @ ?r)"
    using append_take_drop_id[of "7 + length tok" h] p by simp
  from e have "takeWhile ?P ?r = []"
    by (cases ?r) auto
  moreover from assms(2) have "\<And>x. x \<in> set tok \<Longrightarrow> x \<noteq> CHR '' ''" by auto
  ultimately have "takeWhile ?P (tok @ ?r) = tok"
    using takeWhile_append2[of tok ?P ?r] by simp
  then have "second (split_on CHR '' '' (''Bearer '' @ (tok @ ?r))) = Some tok"
    by (simp only: second_Bearer)
  with h have s: "second (split_on CHR '' '' h) = Some tok" by simp
  have "take 7 h = ''Bearer ''" by (subst h) simp
  moreover have "h \<noteq> []" by (subst h) simp
  ultimately show ?thesis
    using s by (simp add: unauthorized_def)
qed

lemma handler_unauthorized:
  assumes "tok \<noteq> []" and "http_method req = ''POST''"
    and "\<forall>h \<in> set_option (authorization req). \<not> presents tok h"
  shows "handler (Some tok) clk req d = (failure 401 (Text ''Unauthorized: Invalid or missing token.''), d)"
proof -
  have "unauthorized tok (authorization req)"
  proof (cases "authorization req")
    case None
    then show ?thesis by (simp add: unauthorized_def)
  next
    case (Some h)
    with assms(3) authorized_presents[of tok h] show ?thesis by auto
  qed
  with assms(1,2) show ?thesis
    by (simp add: handler_def)
qed

lemma status_respond_snapshot: "status (respond_snapshot d) \<in> {200, 400, 404}"
  by (simp add: respond_snapshot_def success_def status_caught split: sum.splits)

lemma status_run: "fst (run x) \<noteq> Respond r"
  by (simp add: run_def split: prod.splits sum.splits)

lemma switch_Respond:
  assumes "switch clk a pl d = (Respond r, d')"
  shows "status r = 400"
proof -
  have f: "\<And>m. status (failure 400 m) = 400" by (simp add: failure_def)
  have r: "\<And>x r d'. run x = (Respond r, d') \<Longrightarrow> False"
    using status_run by (metis fst_conv)
  have c1: "createItemType pl d = (Respond r, d') \<Longrightarrow> status r = 400"
    by (auto simp: createItemType_def f simp del: text_field.simps split: text_check.splits dest: r)
  have c2: "createCategory pl d = (Respond r, d') \<Longrightarrow> status r = 400"
    by (auto simp: createCategory_def f simp del: text_field.simps split: text_check.splits sum.splits dest: r)
  have c3: "createItem pl d = (Respond r, d') \<Longrightarrow> status r = 400"
    by (auto simp: createItem_def f simp del: text_field.simps
        split: text_check.splits sum.splits option.splits if_splits dest: r)
  have c4: "linkCategory pl d = (Respond r, d') \<Longrightarrow> status r = 400"
    by (auto simp: linkCategory_def f split: option.splits if_splits dest: r)
  have c5: "unlinkCategory pl d = (Respond r, d') \<Longrightarrow> status r = 400"
    by (auto simp: unlinkCategory_def f split: option.splits if_splits dest: r)
  have c6: "checkout clk pl d = (Respond r, d') \<Longrightarrow> status r = 400"
    by (auto simp: checkout_def f simp del: text_field.simps
        split: text_check.splits option.splits if_splits dest: r)
  have c7: "return_item clk pl d = (Respond r, d') \<Longrightarrow> status r = 400"
    by (auto simp: return_item_def f split: option.splits sum.splits if_splits dest: r)
  have c8: "deleteItem pl d = (Respond r, d') \<Longrightarrow> status r = 400"
    by (auto simp: deleteItem_def f split: option.splits if_splits dest: r)
  from assms show ?thesis
    by (auto simp: switch_def f split: if_splits dest: c1 c2 c3 c4 c5 c6 c7 c8)
qed

lemma status_finish: "status (fst (finish (switch clk a pl d))) \<in> {200, 400, 404}"
proof (cases "switch clk a pl d")
  case (Pair st d')
  show ?thesis
  proof (cases st)
    case (Respond r)
    with Pair switch_Respond[of clk a pl d r d'] show ?thesis by (simp add: finish_def)
  next
    case (Throw e)
    with Pair show ?thesis by (simp add: finish_def status_caught)
  next
    case Break
    with Pair status_respond_snapshot[of d'] show ?thesis by (simp add: finish_def)
  qed
qed

lemma handler_authorized:
  assumes "tok \<noteq> []" and "http_method req = ''POST''"
    and "authorization req = Some h" and "presents tok h" and "CHR '' '' \<notin> set tok"
  shows "status (fst (handler (Some tok) clk req d)) \<in> {200, 400, 404}"
proof -
  have a: "\<not> unauthorized tok (authorization req)"
    using presents_authorized[OF assms(4,5)] assms(3) by simp
  have f: "\<And>m. status (failure 400 m) = 400" by (simp add: failure_def)
  have h: "handler (Some tok) clk req d
      = (if body req = None \<or> body req = Some JNull then (caught TypeError, d)
         else if \<not> truthy (get_prop (body req) ''action'') \<or> \<not> truthy (get_prop (body req) ''payload'')
         then (failure 400 (Text ''Action and payload are required.''), d)
         else finish (switch clk (get_prop (body req) ''action'') (get_prop (body req) ''payload'') d))"
    using assms(1,2) a by (simp add: handler_def finish_def Let_def)
  show ?thesis
    unfolding h using status_finish[of clk "get_prop (body req) ''action''" "get_prop (body req) ''payload''" d]
    by (simp add: status_caught f)
qed

section \<open>Calls that commit\<close>

lemma handler_commit:
  assumes "calls env req a pl" and "truthy pl" and "a \<noteq> []"
    and "switch clk (Some (JStr a)) pl d = (Break, d')" and "wf d'"
  shows "\<exists>s. getSnapshot d' = Inr s \<and> handler env clk req d = (success s, d')"
proof -
  from assms(5) have "fk_ok d'" by (simp add: wf_def)
  from respond_snapshot_ok[OF this] obtain s
    where s: "getSnapshot d' = Inr s" "respond_snapshot d' = success s" by blast
  have "handler env clk req d = (success s, d')"
    using handler_calls[OF assms(1-3), of clk d] by (simp add: assms(4) finish_Break s(2))
  with s(1) show ?thesis by blast
qed

lemma wf_item_types:
  "wf d \<Longrightarrow> wf (d\<lparr>item_type_id_seq := s, item_types := item_types d @ [row]\<rparr>)"
  by (simp add: wf_def pk_ok_def fk_ok_def)

lemma wf_categories:
  "wf d \<Longrightarrow> wf (d\<lparr>category_id_seq := s, categories := cs\<rparr>)"
  by (simp add: wf_def pk_ok_def fk_ok_def)

lemma wf_item_to_category:
  "wf d \<Longrightarrow> wf (d\<lparr>item_to_category := ls\<rparr>)"
  by (simp add: wf_def pk_ok_def fk_ok_def)

lemma handler_createItemType_commit:
  assumes "wf d" and "calls env req ''createItemType'' pl"
    and "get_prop pl ''code'' = Some (JStr c)" and "\<not> blank c"
    and "get_prop pl ''name'' = Some (JStr n)" and "\<not> blank n"
    and "c \<notin> set (map it_code (item_types d))"
    and "item_type_id_seq d \<notin> set (map it_id (item_types d))"
    and "item_type_id_seq d \<le> 2147483647"
    and "\<not> has_nul c" and "\<not> has_nul n"
  shows "status (fst (handler env clk req d)) = 200
    \<and> snd (handler env clk req d)
        = d\<lparr>item_type_id_seq := item_type_id_seq d + 1,
            item_types := item_types d @ [\<lparr>it_id = item_type_id_seq d, it_code = c, it_name = n\<rparr>]\<rparr>"
proof -
  let ?d' = "d\<lparr>item_type_id_seq := item_type_id_seq d + 1,
            item_types := item_types d @ [\<lparr>it_id = item_type_id_seq d, it_code = c, it_name = n\<rparr>]\<rparr>"
  have "createItemType pl d = (Break, ?d')"
    using assms(7-11)
    by (simp add: createItemType_def text_field_Present[OF assms(3,4)] text_field_Present[OF assms(5,6)]
        itemType_create_def run_def Let_def del: text_field.simps)
  then have sw: "switch clk (Some (JStr ''createItemType'')) pl d = (Break, ?d')"
    by (simp add: switch_def)
  from handler_commit[OF assms(2) get_prop_truthy[OF assms(3)] _ sw wf_item_types[OF assms(1)]]
  show ?thesis by (auto simp: success_def)
qed

lemma handler_createCategory_commit:
  assumes "wf d" and "calls env req ''createCategory'' pl"
    and "get_prop pl ''code'' = Some (JStr c)" and "\<not> blank c"
    and "get_prop pl ''name'' = Some (JStr n)" and "\<not> blank n"
    and "nullable_int (get_prop pl ''parentId'') = Inr p"
    and "\<forall>q \<in> set_option p. int4 q \<and> q \<in> set (map cat_id (categories d))"
    and "c \<notin> set (map cat_code (categories d))"
    and "category_id_seq d \<notin> set (map cat_id (categories d))"
    and "category_id_seq d \<le> 2147483647"
    and "\<not> has_nul c" and "\<not> has_nul n"
  shows "status (fst (handler env clk req d)) = 200
    \<and> snd (handler env clk req d)
        = d\<lparr>category_id_seq := category_id_seq d + 1,
            categories := categories d @ [\<lparr>cat_id = category_id_seq d, cat_code = c, cat_name = n,
                                           cat_parentId = p\<rparr>]\<rparr>"
proof -
  let ?d' = "d\<lparr>category_id_seq := category_id_seq d + 1,
            categories := categories d @ [\<lparr>cat_id = category_id_seq d, cat_code = c, cat_name = n,
                                           cat_parentId = p\<rparr>]\<rparr>"
  have "category_create c n p d
      = (Inr \<lparr>cat_id = category_id_seq d, cat_code = c, cat_name = n, cat_parentId = p\<rparr>, ?d')"
    using assms(8-13) by (cases p) (simp_all add: category_create_def Let_def)
  then have "createCategory pl d = (Break, ?d')"
    by (simp add: createCategory_def text_field_Present[OF assms(3,4)] text_field_Present[OF assms(5,6)]
        assms(7) run_def del: text_field.simps)
  then have sw: "switch clk (Some (JStr ''createCategory'')) pl d = (Break, ?d')"
    by (simp add: switch_def)
  from handler_commit[OF assms(2) get_prop_truthy[OF assms(3)] _ sw wf_categories[OF assms(1)]]
  show ?thesis by (auto simp: success_def)
qed

lemma handler_createItem_commit:
  assumes "wf d" and "calls env req ''createItem'' pl"
    and "get_prop pl ''title'' = Some (JStr t)" and "\<not> blank t"
    and "as_int (get_prop pl ''itemTypeId'') = Some ty"
    and "int4 ty" and "ty \<in> set (map it_id (item_types d))"
    and "requested_by (get_prop pl ''requestedBy'') = Inr rb"
    and "item_id_seq d \<le> 2147483647"
    and "\<not> has_nul t" and "\<forall>s \<in> set_option rb. \<not> has_nul s"
  shows "status (fst (handler env clk req d)) = 200
    \<and> snd (handler env clk req d)
        = d\<lparr>item_id_seq := item_id_seq d + 1,
            items := items d @ [\<lparr>item_id = item_id_seq d, item_title = t, item_itemTypeId = ty,
                                 item_requestedBy = rb, item_currentLoanId = None\<rparr>]\<rparr>"
proof -
  let ?row = "\<lparr>item_id = item_id_seq d, item_title = t, item_itemTypeId = ty,
                                 item_requestedBy = rb, item_currentLoanId = None\<rparr>"
  let ?d' = "d\<lparr>item_id_seq := item_id_seq d + 1, items := items d @ [?row]\<rparr>"
  from assms(1) have "item_id_seq d \<notin> set (map item_id (items d))"
    by (auto simp: wf_def pk_ok_def)
  then have ic: "item_create t ty rb d = (Inr ?row, ?d')"
    using assms(6,7,9-11) by (cases rb) (simp_all add: item_create_def Let_def)
  then have "createItem pl d = (Break, ?d')"
    using is_number_as_int[OF assms(5)]
    by (simp add: createItem_def text_field_Present[OF assms(3,4)] assms(5,8) run_def
        del: text_field.simps)
  then have sw: "switch clk (Some (JStr ''createItem'')) pl d = (Break, ?d')"
    by (simp add: switch_def)
  have "wf ?d'" using wf_item_create[OF assms(1), of t ty rb] by (simp add: ic)
  from handler_commit[OF assms(2) get_prop_truthy[OF assms(3)] _ sw this]
  show ?thesis by (auto simp: success_def)
qed

lemma handler_linkCategory_commit:
  assumes "wf d" and "calls env req ''linkCategory'' pl"
    and "as_int (get_prop pl ''itemId'') = Some i"
    and "as_int (get_prop pl ''categoryId'') = Some c"
    and "i \<in> set (map item_id (items d))"
    and "int4 c" and "c \<in> set (map cat_id (categories d))"
  shows "status (fst (handler env clk req d)) = 200
    \<and> snd (handler env clk req d)
        = (if (c, i) \<in> set (item_to_category d) then d
           else d\<lparr>item_to_category := item_to_category d @ [(c, i)]\<rparr>)"
proof -
  let ?d' = "if (c, i) \<in> set (item_to_category d) then d
           else d\<lparr>item_to_category := item_to_category d @ [(c, i)]\<rparr>"
  from assms(1) have pk: "pk_ok d" by (simp add: wf_def)
  have "item_connect i c d = (Inr (), ?d')"
    using assms(5-7) item_id_int4[OF pk assms(5)] by (simp add: item_connect_def)
  then have "linkCategory pl d = (Break, ?d')"
    using is_number_as_int[OF assms(3)] is_number_as_int[OF assms(4)]
    by (simp add: linkCategory_def assms(3,4) run_def)
  then have sw: "switch clk (Some (JStr ''linkCategory'')) pl d = (Break, ?d')"
    by (simp add: switch_def)
  have "wf ?d'" using assms(1) wf_item_to_category[OF assms(1)] by simp
  from handler_commit[OF assms(2) as_int_truthy[OF assms(3)] _ sw this]
  show ?thesis by (auto simp: success_def)
qed

lemma handler_unlinkCategory_commit:
  assumes "wf d" and "calls env req ''unlinkCategory'' pl"
    and "as_int (get_prop pl ''itemId'') = Some i"
    and "as_int (get_prop pl ''categoryId'') = Some c"
    and "i \<in> set (map item_id (items d))" and "int4 c"
  shows "status (fst (handler env clk req d)) = 200
    \<and> snd (handler env clk req d)
        = d\<lparr>item_to_category := filter (\<lambda>ab. ab \<noteq> (c, i)) (item_to_category d)\<rparr>"
proof -
  let ?d' = "d\<lparr>item_to_category := filter (\<lambda>ab. ab \<noteq> (c, i)) (item_to_category d)\<rparr>"
  from assms(1) have pk: "pk_ok d" by (simp add: wf_def)
  have "item_disconnect i c d = (Inr (), ?d')"
    using assms(5,6) item_id_int4[OF pk assms(5)] by (simp add: item_disconnect_def)
  then have "unlinkCategory pl d = (Break, ?d')"
    using is_number_as_int[OF assms(3)] is_number_as_int[OF assms(4)]
    by (simp add: unlinkCategory_def assms(3,4) run_def)
  then have sw: "switch clk (Some (JStr ''unlinkCategory'')) pl d = (Break, ?d')"
    by (simp add: switch_def)
  from handler_commit[OF assms(2) as_int_truthy[OF assms(3)] _ sw wf_item_to_category[OF assms(1)]]
  show ?thesis by (auto simp: success_def)
qed

lemma handler_deleteItem_commit:
  assumes "wf d" and "ptr_ok d" and "r \<in> set (items d)"
    and "calls env req ''deleteItem'' pl"
    and "as_int (get_prop pl ''id'') = Some (item_id r)"
  shows "\<exists>s. handler env clk req d = (success s, deleted (item_id r) d)"
proof -
  let ?d' = "deleted (item_id r) d"
  from assms(1) have pk: "pk_ok d" by (simp add: wf_def)
  have del: "item_delete (item_id r) d = (Inr (), ?d')"
    using item_delete_deleted[OF assms(2) pk] assms(3) by simp
  have "deleteItem pl d = (Break, ?d')"
    using is_number_as_int[OF assms(5)] by (simp add: deleteItem_def assms(5) del run_def)
  then have sw: "switch clk (Some (JStr ''deleteItem'')) pl d = (Break, ?d')"
    by (simp add: switch_def)
  from handler_commit[OF assms(4) as_int_truthy[OF assms(5)] _ sw wf_deleted[OF assms(1,2)]]
  show ?thesis by auto
qed

section \<open>The seed data\<close>

lemma ymd_parts:
  "calendar_day (y, m, d) \<Longrightarrow> year (ymd y m d) = y \<and> month (ymd y m d) = m \<and> day (ymd y m d) = d"
  by (simp add: year_def month_def day_def ymd_def Abs_date_inverse)

lemma seed_day: "year (ymd 2025 8 1) = 2025 \<and> month (ymd 2025 8 1) = 8 \<and> day (ymd 2025 8 1) = 1"
  by (rule ymd_parts) (simp add: calendar_day_def days_in_month_def)

lemma seed_iso: "toISOString (ymd 2025 8 1) = ''2025-08-01T00:00:00.000Z''"
  by (simp only: toISOString_def seed_day) (simp add: pad2_def pad4_def digit_def)

lemma wf_seed: "wf seed"
  by (simp add: wf_def pk_ok_def fk_ok_def int4_def seed_def)

lemma loan_invariant_seed: "loan_invariant seed"
  by (simp add: loan_invariant_def on_loan_def open_loans_def seed_def)

lemma getSnapshot_lists:
  assumes "wf d"
  shows "\<exists>s. getSnapshot d = Inr s
           \<and> itemTypes s = item_types d
           \<and> categories_of s = categories d
           \<and> length (items_of s) = length (items d)
           \<and> set (map iv_id (items_of s)) = set (map item_id (items d))
           \<and> sorted (map iv_id (items_of s))
           \<and> list_all2 (shows_loan d) (sort_key item_id (items d)) (items_of s)"
proof -
  let ?view = "\<lambda>r. iso_loan (the (item_select d r))"
  let ?s = "\<lparr>itemTypes = item_types d, categories_of = categories d,
         items_of = map ?view (sort_key item_id (items d))\<rparr>"
  from assms have fk: "fk_ok d" by (simp add: wf_def)
  have g: "getSnapshot d = Inr ?s" by (rule getSnapshot_ok[OF fk])
  have id: "\<And>r. r \<in> set (items d) \<Longrightarrow> iv_id (?view r) = item_id r"
    using shows_loan_view[OF assms] by (simp add: shows_loan_def)
  have m: "map iv_id (items_of ?s) = map item_id (sort_key item_id (items d))"
    by (simp add: id)
  have so: "sorted (map iv_id (items_of ?s))"
    by (simp only: m sorted_sort_key)
  have se: "set (map iv_id (items_of ?s)) = set (map item_id (items d))"
    by (simp only: m set_map set_sort)
  have la: "list_all2 (shows_loan d) (sort_key item_id (items d)) (items_of ?s)"
    using shows_loan_view[OF assms] by (simp add: list_all2_map2 list_all2_same)
  show ?thesis
  proof (intro exI[of _ "?s"] conjI)
    show "getSnapshot d = Inr ?s" by (rule g)
    show "itemTypes ?s = item_types d" by simp
    show "categories_of ?s = categories d" by simp
    show "length (items_of ?s) = length (items d)" by simp
    show "set (map iv_id (items_of ?s)) = set (map item_id (items d))" by (rule se)
    show "sorted (map iv_id (items_of ?s))" by (rule so)
    show "list_all2 (shows_loan d) (sort_key item_id (items d)) (items_of ?s)" by (rule la)
  qed
qed

lemma getSnapshot_seed:
  "getSnapshot seed =
     Inr \<lparr>itemTypes = item_types seed, categories_of = categories seed,
          items_of =
            [\<lparr>iv_id = 1, iv_title = ''The Hitchhiker's Guide to the Galaxy'', iv_requestedBy = None,
              iv_itemType = \<lparr>ref_id = 1, ref_name = ''Book''\<rparr>,
              iv_categories = [\<lparr>ref_id = 1, ref_name = ''Fiction''\<rparr>,
                               \<lparr>ref_id = 2, ref_name = ''Science Fiction''\<rparr>],
              iv_currentLoan = Some \<lparr>lv_id = 1, lv_patronName = ''Arthur Dent'',
                                      lv_checkoutDate = ''2025-08-01T00:00:00.000Z''\<rparr>\<rparr>,
             \<lparr>iv_id = 2, iv_title = ''Laptop Pro X'', iv_requestedBy = Some ''Ford Prefect'',
              iv_itemType = \<lparr>ref_id = 2, ref_name = ''Electronics''\<rparr>,
              iv_categories = [], iv_currentLoan = None\<rparr>,
             \<lparr>iv_id = 3, iv_title = ''Learning Prisma'', iv_requestedBy = None,
              iv_itemType = \<lparr>ref_id = 1, ref_name = ''Book''\<rparr>,
              iv_categories = [\<lparr>ref_id = 1, ref_name = ''Fiction''\<rparr>], iv_currentLoan = None\<rparr>]\<rparr>"
  by (simp add: getSnapshot_def item_findMany_def item_select_def iso_loan_def
      seed_iso[unfolded One_nat_def] List.map_filter_def seed_def)

section \<open>The claims\<close>

text \<open>C4.  Every request to the handler, and so every mutation of the dispatcher, takes a
  storage that meets the schema's constraints and the loan invariant (for every item:
  \<open>currentLoanId\<close> is non-null iff the item is on loan, when non-null it is the id of an
  open loan of that item, and the item has at most one open loan) to a storage that meets
  them again.\<close>

theorem handler_preserves_loan_invariant:
  assumes "wf d" and "loan_invariant d"
  shows "wf (snd (handler env clk req d)) \<and> loan_invariant (snd (handler env clk req d))"
proof -
  from assms have "state_ok d"
    by (simp add: state_ok_def loan_invariant_iff)
  then have "state_ok (snd (handler env clk req d))"
    by (rule ok_handler)
  then show ?thesis
    by (simp add: state_ok_def loan_invariant_iff)
qed

theorem handler_preserves_loan_invariant_witness:
  "wf seed \<and> loan_invariant seed
   \<and> loan_invariant (snd (handler (Some ''tok'') noon
        (post ''tok'' ''checkout'' [(''itemId'', JNum (Whole 2)), (''patronName'', JStr ''Bob'')]) seed))"
  using wf_seed loan_invariant_seed handler_preserves_loan_invariant [OF wf_seed loan_invariant_seed]
  by simp

text \<open>C8.  In a storage that meets the schema's constraints and the loan invariant, delete-item
  for an existing item succeeds and removes the item and every loan row whose \<open>itemId\<close> is its
  id; afterwards every loan row references an item that exists; the rows of the other items
  and all categories and item types are as before.\<close>

theorem delete_item_cascades:
  assumes "wf d" and "loan_invariant d" and "r \<in> set (items d)"
    and "calls env req ''deleteItem'' pl"
    and "get_prop pl ''id'' = Some (JNum (Whole (item_id r)))"
  shows "status (fst (handler env clk req d)) = 200
    \<and> items (snd (handler env clk req d)) = filter (\<lambda>x. item_id x \<noteq> item_id r) (items d)
    \<and> loans (snd (handler env clk req d)) = filter (\<lambda>l. loan_itemId l \<noteq> item_id r) (loans d)
    \<and> (\<forall>i \<in> set (map loan_itemId (loans (snd (handler env clk req d)))).
          i \<in> set (map item_id (items (snd (handler env clk req d)))))
    \<and> categories (snd (handler env clk req d)) = categories d
    \<and> item_types (snd (handler env clk req d)) = item_types d"
proof -
  let ?d' = "deleted (item_id r) d"
  from assms(1) have pk: "pk_ok d" by (simp add: wf_def)
  from assms(2) have po: "ptr_ok d" by (simp add: loan_invariant_iff)
  have i: "as_int (get_prop pl ''id'') = Some (item_id r)"
    using as_int_Whole[OF item_int4[OF pk assms(3)]] by (simp add: assms(5))
  from handler_deleteItem_commit[OF assms(1) po assms(3,4) i, of clk] obtain s
    where h: "handler env clk req d = (success s, ?d')" by blast
  have "fk_ok ?d'" using wf_deleted[OF assms(1) po] by (simp add: wf_def)
  then have "\<forall>i \<in> set (map loan_itemId (loans ?d')). i \<in> set (map item_id (items ?d'))"
    by (simp add: fk_ok_def)
  then show ?thesis
    unfolding h by (simp add: success_def deleted_def)
qed

theorem delete_item_cascades_witness:
  "wf seed \<and> loan_invariant seed
   \<and> \<lparr>item_id = 1, item_title = ''The Hitchhiker's Guide to the Galaxy'', item_itemTypeId = 1,
       item_requestedBy = None, item_currentLoanId = Some 1\<rparr> \<in> set (items seed)
   \<and> calls (Some ''tok'') (post ''tok'' ''deleteItem'' [(''id'', JNum (Whole 1))])
        ''deleteItem'' (Some (JObj [(''id'', JNum (Whole 1))]))
   \<and> status (fst (handler (Some ''tok'') noon (post ''tok'' ''deleteItem'' [(''id'', JNum (Whole 1))]) seed)) = 200
   \<and> map item_id (items (snd (handler (Some ''tok'') noon
        (post ''tok'' ''deleteItem'' [(''id'', JNum (Whole 1))]) seed))) = [2, 3]
   \<and> loans (snd (handler (Some ''tok'') noon
        (post ''tok'' ''deleteItem'' [(''id'', JNum (Whole 1))]) seed)) = []"
proof -
  let ?r = "\<lparr>item_id = 1, item_title = ''The Hitchhiker's Guide to the Galaxy'', item_itemTypeId = 1,
       item_requestedBy = None, item_currentLoanId = Some 1\<rparr>"
  let ?pl = "Some (JObj [(''id'', JNum (Whole 1))])"
  let ?req = "post ''tok'' ''deleteItem'' [(''id'', JNum (Whole 1))]"
  have r: "?r \<in> set (items seed)" by (simp add: seed_def)
  have c: "calls (Some ''tok'') ?req ''deleteItem'' ?pl"
    by (simp add: calls_def post_def unauthorized_def)
  have p: "get_prop ?pl ''id'' = Some (JNum (Whole (item_id ?r)))" by simp
  from delete_item_cascades [OF wf_seed loan_invariant_seed r c p, of noon] show ?thesis
    using wf_seed loan_invariant_seed r c by (simp add: seed_def)
qed

text \<open>C9.  The snapshot of a storage that meets the schema's constraints (primary and
  foreign keys, ids in the INTEGER range and below their sequences) lists all item types and
  all categories (with their \<open>parentId\<close>) as stored, and the items in ascending order of id,
  each with its id, title, requester and item type id; the entry of an item has a
  \<open>currentLoan\<close> exactly when the item's \<open>currentLoanId\<close> is non-null, and it then carries
  the id and the patron name of that loan and, for its checkout date, a string of the format
  \<open>YYYY-MM-DDT00:00:00.000Z\<close> that names the year, the month and the day of that date.\<close>

theorem snapshot_lists_storage:
  assumes "wf d"
  shows "\<exists>s. getSnapshot d = Inr s
           \<and> itemTypes s = item_types d
           \<and> categories_of s = categories d
           \<and> length (items_of s) = length (items d)
           \<and> set (map iv_id (items_of s)) = set (map item_id (items d))
           \<and> sorted (map iv_id (items_of s))
           \<and> list_all2 (shows_loan d) (sort_key item_id (items d)) (items_of s)"
  using assms by (rule getSnapshot_lists)

theorem snapshot_lists_storage_witness:
  "wf seed
   \<and> (\<exists>s. getSnapshot seed = Inr s
         \<and> itemTypes s = item_types seed
         \<and> categories_of s = categories seed
         \<and> map iv_id (items_of s) = [1, 2, 3]
         \<and> map iv_currentLoan (items_of s)
            = [Some \<lparr>lv_id = 1, lv_patronName = ''Arthur Dent'',
                      lv_checkoutDate = ''2025-08-01T00:00:00.000Z''\<rparr>, None, None]
         \<and> list_all2 (shows_loan seed) (sort_key item_id (items seed)) (items_of s))"
proof -
  from snapshot_lists_storage [OF wf_seed] obtain s
    where s: "getSnapshot seed = Inr s"
      "list_all2 (shows_loan seed) (sort_key item_id (items seed)) (items_of s)"
    by blast
  from s(1) have "map iv_id (items_of s) = [1, 2, 3]"
    and "map iv_currentLoan (items_of s)
            = [Some \<lparr>lv_id = 1, lv_patronName = ''Arthur Dent'',
                      lv_checkoutDate = ''2025-08-01T00:00:00.000Z''\<rparr>, None, None]"
    and "itemTypes s = item_types seed" and "categories_of s = categories seed"
    by (auto simp: getSnapshot_seed)
  with s wf_seed show ?thesis
    by (intro conjI exI[of _ s]) simp_all
qed

text \<open>C10.  With the server's token configured and a storage that meets the schema's
  constraints, every GET request is answered with status 200 and the snapshot of the storage
  (all item types, all categories, all items in ascending order of id with their current
  loans), whatever its authorization header is: the response is the same for every header
  and for none, and the storage is left as it was.  A POST request is gated by the token: one
  with no authorization header, or with a header that does not present the token (\<open>Bearer\<close>,
  a space and the token, then the end or a space), is answered 401 and leaves the storage as
  it was, whatever it asks for; one whose header presents the token (a token without a
  space) is not refused for its token: it is answered 200, 400 or 404.\<close>

theorem get_ignores_authorization:
  assumes "tok \<noteq> []" and "wf d"
  shows "\<exists>s. getSnapshot d = Inr s
           \<and> itemTypes s = item_types d
           \<and> categories_of s = categories d
           \<and> sorted (map iv_id (items_of s))
           \<and> list_all2 (shows_loan d) (sort_key item_id (items d)) (items_of s)
           \<and> (\<forall>req. http_method req = ''GET'' \<longrightarrow>
                 handler (Some tok) clk req d
                   = (\<lparr>status = 200, ok = True, message = None, snapshot_of = Some s\<rparr>, d))
           \<and> (\<forall>req. http_method req = ''POST''
                   \<and> (\<forall>h \<in> set_option (authorization req). \<not> presents tok h) \<longrightarrow>
                 handler (Some tok) clk req d
                   = (\<lparr>status = 401, ok = False,
                       message = Some (Text ''Unauthorized: Invalid or missing token.''),
                       snapshot_of = None\<rparr>, d))
           \<and> (\<forall>req h. http_method req = ''POST'' \<and> authorization req = Some h
                   \<and> presents tok h \<and> CHR '' '' \<notin> set tok \<longrightarrow>
                 status (fst (handler (Some tok) clk req d)) \<in> {200, 400, 404})"
proof -
  from getSnapshot_lists[OF assms(2)] obtain s
    where s: "getSnapshot d = Inr s" "itemTypes s = item_types d" "categories_of s = categories d"
      "sorted (map iv_id (items_of s))"
      "list_all2 (shows_loan d) (sort_key item_id (items d)) (items_of s)"
    by blast
  have g: "\<forall>req. http_method req = ''GET'' \<longrightarrow>
                 handler (Some tok) clk req d
                   = (\<lparr>status = 200, ok = True, message = None, snapshot_of = Some s\<rparr>, d)"
    using assms(1) s(1) by (simp add: handler_def respond_snapshot_def success_def)
  have u: "\<forall>req. http_method req = ''POST''
                   \<and> (\<forall>h \<in> set_option (authorization req). \<not> presents tok h) \<longrightarrow>
                 handler (Some tok) clk req d
                   = (\<lparr>status = 401, ok = False,
                       message = Some (Text ''Unauthorized: Invalid or missing token.''),
                       snapshot_of = None\<rparr>, d)"
    using handler_unauthorized[OF assms(1), of _ clk d] by (simp add: failure_def)
  have a: "\<forall>req h. http_method req = ''POST'' \<and> authorization req = Some h
                   \<and> presents tok h \<and> CHR '' '' \<notin> set tok \<longrightarrow>
                 status (fst (handler (Some tok) clk req d)) \<in> {200, 400, 404}"
    using handler_authorized[OF assms(1), of _ _ clk d] by blast
  show ?thesis
    by (rule exI[of _ s]) (rule conjI[OF s(1) conjI[OF s(2) conjI[OF s(3) conjI[OF s(4) conjI[OF s(5)
        conjI[OF g conjI[OF u a]]]]]]])
qed

theorem get_ignores_authorization_witness:
  "''tok'' \<noteq> [] \<and> wf seed
   \<and> handler (Some ''tok'') noon (get (Some ''Bearer wrong'')) seed = handler (Some ''tok'') noon (get None) seed
   \<and> status (fst (handler (Some ''tok'') noon (get None) seed)) = 200
   \<and> map_option (map iv_id \<circ> items_of) (snapshot_of (fst (handler (Some ''tok'') noon (get None) seed)))
      = Some [1, 2, 3]
   \<and> \<not> presents ''tok'' ''Bearer wrong''
   \<and> handler (Some ''tok'') noon
        ((post ''tok'' ''deleteItem'' [(''id'', JNum (Whole 1))])\<lparr>authorization := Some ''Bearer wrong''\<rparr>) seed
      = (failure 401 (Text ''Unauthorized: Invalid or missing token.''), seed)
   \<and> handler (Some ''tok'') noon
        ((post ''tok'' ''deleteItem'' [(''id'', JNum (Whole 1))])\<lparr>authorization := None\<rparr>) seed
      = (failure 401 (Text ''Unauthorized: Invalid or missing token.''), seed)
   \<and> status (fst (handler (Some ''tok'') noon (post ''tok'' ''deleteItem'' [(''id'', JNum (Whole 1))]) seed)) = 200"
proof -
  let ?p = "post ''tok'' ''deleteItem'' [(''id'', JNum (Whole 1))]"
  have t: "''tok'' \<noteq> []" by simp
  from get_ignores_authorization [OF t wf_seed, of noon] obtain s
    where s: "getSnapshot seed = Inr s"
      and g: "\<And>req. http_method req = ''GET'' \<Longrightarrow>
                 handler (Some ''tok'') noon req seed
                   = (\<lparr>status = 200, ok = True, message = None, snapshot_of = Some s\<rparr>, seed)"
      and u: "\<And>req. http_method req = ''POST'' \<Longrightarrow>
                   (\<forall>h \<in> set_option (authorization req). \<not> presents ''tok'' h) \<Longrightarrow>
                 handler (Some ''tok'') noon req seed
                   = (\<lparr>status = 401, ok = False,
                       message = Some (Text ''Unauthorized: Invalid or missing token.''),
                       snapshot_of = None\<rparr>, seed)"
    by blast
  have g1: "handler (Some ''tok'') noon (get (Some ''Bearer wrong'')) seed
      = (\<lparr>status = 200, ok = True, message = None, snapshot_of = Some s\<rparr>, seed)"
    and g2: "handler (Some ''tok'') noon (get None) seed
      = (\<lparr>status = 200, ok = True, message = None, snapshot_of = Some s\<rparr>, seed)"
    by (rule g, simp add: get_def)+
  from s have ids: "map iv_id (items_of s) = [1, 2, 3]"
    by (auto simp: getSnapshot_seed)
  have u1: "handler (Some ''tok'') noon (?p\<lparr>authorization := Some ''Bearer wrong''\<rparr>) seed
      = (failure 401 (Text ''Unauthorized: Invalid or missing token.''), seed)"
    and u2: "handler (Some ''tok'') noon (?p\<lparr>authorization := None\<rparr>) seed
      = (failure 401 (Text ''Unauthorized: Invalid or missing token.''), seed)"
    unfolding failure_def by (rule u, simp add: post_def, simp add: post_def presents_def)+
  have d: "status (fst (handler (Some ''tok'') noon ?p seed)) = 200"
    by (simp add: eval_defs List.map_filter_def seed_def)
  have np: "\<not> presents ''tok'' ''Bearer wrong''" by (simp add: presents_def)
  show ?thesis
    using t wf_seed g1 g2 ids np u1 u2 d by simp
qed

text \<open>C1 (amended).  Take a storage that meets the schema's constraints (primary and foreign
  keys, ids in the INTEGER range and below their sequences) and whose loan sequence has not
  ended, and an item in it whose \<open>currentLoanId\<close> is null.  A checkout call whose \<open>itemId\<close>
  the database client reads as the id of that item, and whose patron name is a string with
  a character that \<open>trim\<close> does not strip and without the character U+0000, succeeds with
  status 200: exactly one loan row is
  added, for that item, with a new id and no \<open>returnedAt\<close>, the item's \<open>currentLoanId\<close>
  becomes that id, and nothing else changes.\<close>

theorem checkout_available_item:
  assumes "wf d" and "r \<in> set (items d)" and "item_currentLoanId r = None"
    and "loan_id_seq d \<le> 2147483647"
    and "calls env req ''checkout'' pl"
    and "as_int (get_prop pl ''itemId'') = Some (item_id r)"
    and "get_prop pl ''patronName'' = Some (JStr p)" and "\<not> blank p" and "\<not> has_nul p"
  shows "status (fst (handler env clk req d)) = 200 \<and> ok (fst (handler env clk req d))
    \<and> loan_id_seq d \<notin> set (map loan_id (loans d))
    \<and> loans (snd (handler env clk req d))
        = loans d @ [\<lparr>loan_id = loan_id_seq d, loan_itemId = item_id r, loan_patronName = p,
                      loan_checkoutDate = today clk, loan_returnedAt = None\<rparr>]
    \<and> items (snd (handler env clk req d))
        = map (\<lambda>x. if item_id x = item_id r
                    then x\<lparr>item_currentLoanId := Some (loan_id_seq d)\<rparr> else x) (items d)
    \<and> item_types (snd (handler env clk req d)) = item_types d
    \<and> categories (snd (handler env clk req d)) = categories d
    \<and> item_to_category (snd (handler env clk req d)) = item_to_category d"
proof -
  let ?d' = "checked_out clk (item_id r) p d"
  from assms(1) have pk: "pk_ok d" by (simp add: wf_def)
  from handler_checkout_commit[OF assms(1-3,5-8,4,9), of clk] obtain s
    where h: "handler env clk req d = (success s, ?d')" by blast
  show ?thesis
    unfolding h using fresh_loan_id[OF pk] items_checked_out[OF pk assms(2,3), of clk p]
    by (simp add: success_def checked_out_def)
qed

theorem checkout_available_item_witness:
  "wf seed
   \<and> \<lparr>item_id = 3, item_title = ''Learning Prisma'', item_itemTypeId = 1,
       item_requestedBy = None, item_currentLoanId = None\<rparr> \<in> set (items seed)
   \<and> loan_id_seq seed \<le> 2147483647
   \<and> calls (Some ''tok'') (post ''tok'' ''checkout'' [(''itemId'', JNum (Whole 3)), (''patronName'', JStr ''Bob'')])
        ''checkout'' (Some (JObj [(''itemId'', JNum (Whole 3)), (''patronName'', JStr ''Bob'')]))
   \<and> \<not> blank ''Bob'' \<and> \<not> has_nul ''Bob''
   \<and> status (fst (handler (Some ''tok'') noon
        (post ''tok'' ''checkout'' [(''itemId'', JNum (Whole 3)), (''patronName'', JStr ''Bob'')]) seed)) = 200
   \<and> loans (snd (handler (Some ''tok'') noon
        (post ''tok'' ''checkout'' [(''itemId'', JNum (Whole 3)), (''patronName'', JStr ''Bob'')]) seed))
      = loans seed @ [\<lparr>loan_id = 2, loan_itemId = 3, loan_patronName = ''Bob'',
                        loan_checkoutDate = today noon, loan_returnedAt = None\<rparr>]"
proof -
  let ?r = "\<lparr>item_id = 3, item_title = ''Learning Prisma'', item_itemTypeId = 1,
       item_requestedBy = None, item_currentLoanId = None\<rparr>"
  let ?pl = "Some (JObj [(''itemId'', JNum (Whole 3)), (''patronName'', JStr ''Bob'')])"
  let ?req = "post ''tok'' ''checkout'' [(''itemId'', JNum (Whole 3)), (''patronName'', JStr ''Bob'')]"
  have r: "?r \<in> set (items seed)" by (simp add: seed_def)
  have n: "item_currentLoanId ?r = None" by simp
  have q: "loan_id_seq seed \<le> 2147483647" by (simp add: seed_def)
  have c: "calls (Some ''tok'') ?req ''checkout'' ?pl"
    by (simp add: calls_def post_def unauthorized_def)
  have i: "as_int (get_prop ?pl ''itemId'') = Some (item_id ?r)" by simp
  have p: "get_prop ?pl ''patronName'' = Some (JStr ''Bob'')" by simp
  have b: "\<not> blank ''Bob''" by (simp add: is_space1_def is_space2_def is_space3_def)
  have z: "\<not> has_nul ''Bob''" by (simp add: has_nul_def)
  from checkout_available_item [OF wf_seed r n q c i p b z, of noon] show ?thesis
    using wf_seed r q c b z by (simp add: seed_def)
qed

text \<open>The claim as stated fails for a patron name that is not empty but blank: item 3 of
  the seed data is available, and a checkout for the patron \<open>" "\<close> is rejected with status
  400 and changes nothing.\<close>

theorem checkout_blank_patron_counterexample:
  "map item_id (items seed) = [1, 2, 3]
   \<and> map item_currentLoanId (items seed) = [Some 1, None, None]
   \<and> '' '' \<noteq> []
   \<and> handler (Some ''tok'') noon
        (post ''tok'' ''checkout'' [(''itemId'', JNum (Whole 3)), (''patronName'', JStr '' '')]) seed
      = (failure 400 (Text ''Patron name is required.''), seed)"
  by (simp add: eval_defs seed_def)

text \<open>C2 (amended).  In a storage that meets the schema's constraints, a checkout call whose
  \<open>itemId\<close> the database client reads as the id of an item whose \<open>currentLoanId\<close> is
  non-null fails and leaves the rows of every table as they were: the loan row made inside
  the transaction is gone and the item keeps its \<open>currentLoanId\<close>.  When the patron name is
  a string with a character that \<open>trim\<close> does not strip and without the character U+0000,
  and the loan sequence has not ended,
  the failure is the 400 response "Item already loaned or does not exist", and the storage
  afterwards differs from the one before in the loan sequence only, which has advanced by
  one.  When the patron name is a blank string, the failure is the 400 response "Patron name
  is required." and the storage is as before.\<close>

theorem checkout_item_on_loan:
  assumes "wf d" and "r \<in> set (items d)" and "item_currentLoanId r \<noteq> None"
    and "calls env req ''checkout'' pl"
    and "as_int (get_prop pl ''itemId'') = Some (item_id r)"
  shows "\<not> ok (fst (handler env clk req d))
    \<and> rows (snd (handler env clk req d)) = rows d
    \<and> (\<forall>p. get_prop pl ''patronName'' = Some (JStr p) \<and> \<not> blank p \<and> \<not> has_nul p
            \<and> loan_id_seq d \<le> 2147483647 \<longrightarrow>
          handler env clk req d
            = (failure 400 (Text ''Item already loaned or does not exist''),
               d\<lparr>loan_id_seq := loan_id_seq d + 1\<rparr>))
    \<and> (\<forall>p. get_prop pl ''patronName'' = Some (JStr p) \<and> blank p \<longrightarrow>
          handler env clk req d = (failure 400 (Text ''Patron name is required.''), d))"
proof -
  from assms(1) have pk: "pk_ok d" by (simp add: wf_def)
  note n = is_number_as_int[OF assms(5)]
  have h: "handler env clk req d = finish (checkout clk pl d)"
    using handler_calls[OF assms(4) as_int_truthy[OF assms(5)], of clk d]
    by (simp add: switch_checkout)
  have c3: "\<forall>p. get_prop pl ''patronName'' = Some (JStr p) \<and> \<not> blank p \<and> \<not> has_nul p
            \<and> loan_id_seq d \<le> 2147483647 \<longrightarrow>
          handler env clk req d
            = (failure 400 (Text ''Item already loaned or does not exist''),
               d\<lparr>loan_id_seq := loan_id_seq d + 1\<rparr>)"
  proof (intro allI impI, elim conjE)
    fix p assume p: "get_prop pl ''patronName'' = Some (JStr p)" and b: "\<not> blank p"
      and z: "\<not> has_nul p" and q: "loan_id_seq d \<le> 2147483647"
    show "handler env clk req d
            = (failure 400 (Text ''Item already loaned or does not exist''),
               d\<lparr>loan_id_seq := loan_id_seq d + 1\<rparr>)"
      by (simp add: h checkout_valid[OF assms(5) p b] checkout_tx_on_loan[OF assms(1-3) q z]
          run_def finish_def caught_def)
  qed
  have c4: "\<forall>p. get_prop pl ''patronName'' = Some (JStr p) \<and> blank p \<longrightarrow>
          handler env clk req d = (failure 400 (Text ''Patron name is required.''), d)"
    using n by (simp add: h checkout_def finish_def)
  have c12: "\<not> ok (fst (handler env clk req d)) \<and> rows (snd (handler env clk req d)) = rows d"
  proof (cases "text_field (get_prop pl ''patronName'')")
    case Missing
    then have "handler env clk req d = (failure 400 (Text ''Patron name is required.''), d)"
      using n by (simp add: h checkout_def finish_def del: text_field.simps)
    then show ?thesis by simp
  next
    case NoTrim
    then have "handler env clk req d = (caught TypeError, d)"
      using n by (simp add: h checkout_def finish_def del: text_field.simps)
    then show ?thesis by simp
  next
    case (Present p)
    then have c: "checkout clk pl d = run (checkout_tx clk (item_id r) p d)"
      using n by (simp add: checkout_def assms(5) del: text_field.simps)
    from checkout_tx_result[of clk "item_id r" p d] show ?thesis
    proof (elim disjE exE conjE)
      fix e assume e: "fst (checkout_tx clk (item_id r) p d) = Inl e"
        and g: "grown d (snd (checkout_tx clk (item_id r) p d))"
      from e have "handler env clk req d = (caught e, snd (checkout_tx clk (item_id r) p d))"
        by (cases "checkout_tx clk (item_id r) p d") (simp add: h c run_def finish_def)
      with g show ?thesis by (simp add: grown_def)
    next
      assume "\<exists>x \<in> set (items d). item_id x = item_id r \<and> item_currentLoanId x = None"
      then obtain x where x: "x \<in> set (items d)" "item_id x = item_id r" "item_currentLoanId x = None"
        by blast
      from same_item[OF pk x(1) assms(2) x(2)] x(3) assms(3) have False by simp
      then show ?thesis ..
    qed
  qed
  show ?thesis
    by (rule conjI[OF conjunct1[OF c12] conjI[OF conjunct2[OF c12] conjI[OF c3 c4]]])
qed

theorem checkout_item_on_loan_witness:
  "wf seed
   \<and> \<lparr>item_id = 1, item_title = ''The Hitchhiker's Guide to the Galaxy'', item_itemTypeId = 1,
       item_requestedBy = None, item_currentLoanId = Some 1\<rparr> \<in> set (items seed)
   \<and> calls (Some ''tok'') (post ''tok'' ''checkout'' [(''itemId'', JNum (Whole 1)), (''patronName'', JStr ''Alice'')])
        ''checkout'' (Some (JObj [(''itemId'', JNum (Whole 1)), (''patronName'', JStr ''Alice'')]))
   \<and> \<not> blank ''Alice'' \<and> \<not> has_nul ''Alice'' \<and> loan_id_seq seed \<le> 2147483647
   \<and> rows (snd (handler (Some ''tok'') noon
        (post ''tok'' ''checkout'' [(''itemId'', JNum (Whole 1)), (''patronName'', JStr ''Alice'')]) seed)) = rows seed
   \<and> handler (Some ''tok'') noon
        (post ''tok'' ''checkout'' [(''itemId'', JNum (Whole 1)), (''patronName'', JStr ''Alice'')]) seed
      = (failure 400 (Text ''Item already loaned or does not exist''), seed\<lparr>loan_id_seq := 3\<rparr>)"
proof -
  let ?r = "\<lparr>item_id = 1, item_title = ''The Hitchhiker's Guide to the Galaxy'', item_itemTypeId = 1,
       item_requestedBy = None, item_currentLoanId = Some 1\<rparr>"
  let ?pl = "Some (JObj [(''itemId'', JNum (Whole 1)), (''patronName'', JStr ''Alice'')])"
  let ?req = "post ''tok'' ''checkout'' [(''itemId'', JNum (Whole 1)), (''patronName'', JStr ''Alice'')]"
  have r: "?r \<in> set (items seed)" by (simp add: seed_def)
  have n: "item_currentLoanId ?r \<noteq> None" by simp
  have c: "calls (Some ''tok'') ?req ''checkout'' ?pl"
    by (simp add: calls_def post_def unauthorized_def)
  have i: "as_int (get_prop ?pl ''itemId'') = Some (item_id ?r)" by simp
  have b: "\<not> blank ''Alice''" by (simp add: is_space1_def is_space2_def is_space3_def)
  have z: "\<not> has_nul ''Alice''" by (simp add: has_nul_def)
  have q: "loan_id_seq seed \<le> 2147483647" "loan_id_seq seed + 1 = 3" by (simp_all add: seed_def)
  from checkout_item_on_loan [OF wf_seed r n c i, of noon] show ?thesis
    using wf_seed r c b z q by simp
qed

text \<open>The claim as stated fails for a blank patron name: item 1 of the seed data is on loan,
  and a checkout of it for the patron \<open>" "\<close> fails with "Patron name is required.", which is
  not the "already loaned" error.\<close>

theorem checkout_on_loan_blank_patron_counterexample:
  "map item_id (items seed) = [1, 2, 3]
   \<and> map item_currentLoanId (items seed) = [Some 1, None, None]
   \<and> handler (Some ''tok'') noon
        (post ''tok'' ''checkout'' [(''itemId'', JNum (Whole 1)), (''patronName'', JStr '' '')]) seed
      = (failure 400 (Text ''Patron name is required.''), seed)
   \<and> Text ''Patron name is required.'' \<noteq> Text ''Item already loaned or does not exist''"
  by (simp add: eval_defs seed_def)

text \<open>C3 (amended).  In a storage that meets the schema's constraints, a return call succeeds
  exactly when the database client reads its \<open>itemId\<close> as the id of an item whose
  \<open>currentLoanId\<close> is non-null: an integer is read as it is, and a number that is not an
  integer as its integer part.  A call that fails leaves the storage as it was; a call that
  succeeds sets \<open>returnedAt\<close> on the loan that the item's \<open>currentLoanId\<close> named, sets the
  item's \<open>currentLoanId\<close> to null, and changes no other row.\<close>

theorem return_iff_on_loan:
  assumes "wf d" and "calls env req ''return'' pl"
  shows "(ok (fst (handler env clk req d)) \<longleftrightarrow>
            (\<exists>r \<in> set (items d). as_int (get_prop pl ''itemId'') = Some (item_id r)
                \<and> item_currentLoanId r \<noteq> None))
    \<and> (\<not> ok (fst (handler env clk req d)) \<longrightarrow> snd (handler env clk req d) = d)
    \<and> (\<forall>r \<in> set (items d). \<forall>lid.
          as_int (get_prop pl ''itemId'') = Some (item_id r) \<and> item_currentLoanId r = Some lid \<longrightarrow>
          status (fst (handler env clk req d)) = 200
          \<and> snd (handler env clk req d)
              = d\<lparr>loans := map (\<lambda>l. if loan_id l = lid then l\<lparr>loan_returnedAt := Some (now clk)\<rparr> else l)
                             (loans d),
                  items := map (\<lambda>x. if item_id x = item_id r then x\<lparr>item_currentLoanId := None\<rparr> else x)
                             (items d)\<rparr>)"
proof (cases "\<exists>r \<in> set (items d). as_int (get_prop pl ''itemId'') = Some (item_id r)
                \<and> item_currentLoanId r \<noteq> None")
  case True
  then obtain r lid where r: "r \<in> set (items d)"
    and i: "as_int (get_prop pl ''itemId'') = Some (item_id r)"
    and n: "item_currentLoanId r = Some lid" by auto
  from assms(1) have pk: "pk_ok d" by (simp add: wf_def)
  let ?d' = "returned clk (item_id r) lid d"
  from handler_return_commit[OF assms(1) r n assms(2) i, of clk] obtain s
    where h: "handler env clk req d = (success s, ?d')" by blast
  have d': "?d' = d\<lparr>loans := map (\<lambda>l. if loan_id l = lid then l\<lparr>loan_returnedAt := Some (now clk)\<rparr> else l)
                             (loans d),
                  items := map (\<lambda>x. if item_id x = item_id r then x\<lparr>item_currentLoanId := None\<rparr> else x)
                             (items d)\<rparr>"
    using items_returned[OF pk r n, of clk] by (simp add: returned_def)
  have u: "\<And>r' lid'. r' \<in> set (items d) \<Longrightarrow> as_int (get_prop pl ''itemId'') = Some (item_id r')
      \<Longrightarrow> item_currentLoanId r' = Some lid' \<Longrightarrow> r' = r \<and> lid' = lid"
    using same_item[OF pk _ r] i n by auto
  show ?thesis
    using True u d' by (auto simp: h success_def)
next
  case False
  have "\<not> ok (fst (handler env clk req d)) \<and> snd (handler env clk req d) = d"
  proof (cases "truthy pl")
    case True
    show ?thesis
      using handler_calls[OF assms(2) True, of clk d] return_item_reject[OF False, of clk]
      by (simp add: switch_return)
  next
    case f: False
    show ?thesis
      by (simp add: handler_calls_falsy[OF assms(2) f])
  qed
  then show ?thesis using False by auto
qed

theorem return_iff_on_loan_witness:
  "wf seed
   \<and> calls (Some ''tok'') (post ''tok'' ''return'' [(''itemId'', JNum (Whole 1))])
        ''return'' (Some (JObj [(''itemId'', JNum (Whole 1))]))
   \<and> ok (fst (handler (Some ''tok'') noon (post ''tok'' ''return'' [(''itemId'', JNum (Whole 1))]) seed))
   \<and> map loan_returnedAt (loans (snd (handler (Some ''tok'') noon
        (post ''tok'' ''return'' [(''itemId'', JNum (Whole 1))]) seed))) = [Some (now noon)]
   \<and> map item_currentLoanId (items (snd (handler (Some ''tok'') noon
        (post ''tok'' ''return'' [(''itemId'', JNum (Whole 1))]) seed))) = [None, None, None]"
proof -
  let ?pl = "Some (JObj [(''itemId'', JNum (Whole 1))])"
  let ?req = "post ''tok'' ''return'' [(''itemId'', JNum (Whole 1))]"
  have c: "calls (Some ''tok'') ?req ''return'' ?pl"
    by (simp add: calls_def post_def unauthorized_def)
  from return_iff_on_loan [OF wf_seed c, of noon] show ?thesis
    using wf_seed c by (simp add: seed_def)
qed

text \<open>The claim as stated fails for an \<open>itemId\<close> that is not an integer.  The seed data has
  the items 1, 2 and 3, so no item has the id 1.5; a return call with the \<open>itemId\<close> 1.5 (a
  number that is not an integer and whose integer part is 1) succeeds all the same, and
  returns item 1.\<close>

theorem return_fractional_id_counterexample:
  "map item_id (items seed) = [1, 2, 3]
   \<and> status (fst (handler (Some ''tok'') noon
        (post ''tok'' ''return'' [(''itemId'', JNum (Fraction 1))]) seed)) = 200
   \<and> ok (fst (handler (Some ''tok'') noon
        (post ''tok'' ''return'' [(''itemId'', JNum (Fraction 1))]) seed))
   \<and> map loan_returnedAt (loans (snd (handler (Some ''tok'') noon
        (post ''tok'' ''return'' [(''itemId'', JNum (Fraction 1))]) seed))) = [Some (now noon)]
   \<and> map item_currentLoanId (items (snd (handler (Some ''tok'') noon
        (post ''tok'' ''return'' [(''itemId'', JNum (Fraction 1))]) seed))) = [None, None, None]"
  by (simp add: eval_defs List.map_filter_def seed_def)

text \<open>C5 (amended).  Take a storage that meets the schema's constraints (primary and foreign
  keys, ids in the INTEGER range and below their sequences) whose loan sequence has two
  values left, and an item in it that is available.  A checkout, a return and a checkout of
  that item, each a valid call (the id of the item as the database client reads it, a patron
  name that is not blank and has no character U+0000), all succeed and add exactly two loan rows for the item to
  the loan rows there were, with two different new ids: the first closed (its \<open>returnedAt\<close>
  is the time of the return), the second open, and the item's \<open>currentLoanId\<close> is the id of
  the second.  The loan rows that existed before stay as they were.\<close>

theorem checkout_return_checkout:
  assumes "wf d" and "r \<in> set (items d)" and "item_currentLoanId r = None"
    and "loan_id_seq d < 2147483647"
    and "calls env req1 ''checkout'' pl1"
    and "as_int (get_prop pl1 ''itemId'') = Some (item_id r)"
    and "get_prop pl1 ''patronName'' = Some (JStr p1)" and "\<not> blank p1"
    and "calls env req2 ''return'' pl2"
    and "as_int (get_prop pl2 ''itemId'') = Some (item_id r)"
    and "calls env req3 ''checkout'' pl3"
    and "as_int (get_prop pl3 ''itemId'') = Some (item_id r)"
    and "get_prop pl3 ''patronName'' = Some (JStr p3)" and "\<not> blank p3"
    and "\<not> has_nul p1" and "\<not> has_nul p3"
  shows "map status (fst (serve env [(clk1, req1), (clk2, req2), (clk3, req3)] d)) = [200, 200, 200]
    \<and> loans (snd (serve env [(clk1, req1), (clk2, req2), (clk3, req3)] d))
        = loans d @
          [\<lparr>loan_id = loan_id_seq d, loan_itemId = item_id r, loan_patronName = p1,
            loan_checkoutDate = today clk1, loan_returnedAt = Some (now clk2)\<rparr>,
           \<lparr>loan_id = loan_id_seq d + 1, loan_itemId = item_id r, loan_patronName = p3,
            loan_checkoutDate = today clk3, loan_returnedAt = None\<rparr>]
    \<and> loan_id_seq d \<notin> set (map loan_id (loans d))
    \<and> loan_id_seq d + 1 \<notin> set (map loan_id (loans d))
    \<and> items (snd (serve env [(clk1, req1), (clk2, req2), (clk3, req3)] d))
        = map (\<lambda>x. if item_id x = item_id r
                    then x\<lparr>item_currentLoanId := Some (loan_id_seq d + 1)\<rparr> else x) (items d)"
proof -
  let ?i = "item_id r"
  let ?d1 = "checked_out clk1 ?i p1 d"
  let ?r1 = "r\<lparr>item_currentLoanId := Some (loan_id_seq d)\<rparr>"
  let ?d2 = "d\<lparr>loan_id_seq := loan_id_seq d + 1,
        loans := loans d @ [\<lparr>loan_id = loan_id_seq d, loan_itemId = ?i, loan_patronName = p1,
                              loan_checkoutDate = today clk1, loan_returnedAt = Some (now clk2)\<rparr>]\<rparr>"
  let ?d3 = "checked_out clk3 ?i p3 ?d2"
  from assms(1) have pk: "pk_ok d" by (simp add: wf_def)
  from assms(4) have q1: "loan_id_seq d \<le> 2147483647" and q2: "loan_id_seq ?d2 \<le> 2147483647"
    by simp_all
  from handler_checkout_commit[OF assms(1-3,5-8) q1 assms(15)] obtain s1
    where h1: "handler env clk1 req1 d = (success s1, ?d1)" by blast
  have w1: "wf ?d1"
    using wf_checked_out[OF assms(1) _ q1] assms(2,3) by blast
  have r1: "?r1 \<in> set (items ?d1)"
    using assms(2) by (force simp: items_checked_out[OF pk assms(2,3)])
  have i1: "item_id ?r1 = ?i" and n1: "item_currentLoanId ?r1 = Some (loan_id_seq d)"
    by simp_all
  from handler_return_commit[OF w1 r1 n1 assms(9), of clk2] assms(10) obtain s2
    where "handler env clk2 req2 ?d1 = (success s2, returned clk2 ?i (loan_id_seq d) ?d1)"
    by auto
  then have h2: "handler env clk2 req2 ?d1 = (success s2, ?d2)"
    by (simp add: returned_checked_out[OF pk assms(2,3)])
  have w2: "wf ?d2"
    using wf_returned[OF w1, of clk2 ?i "loan_id_seq d"]
    by (simp add: returned_checked_out[OF pk assms(2,3)])
  then have pk2: "pk_ok ?d2" by (simp add: wf_def)
  have r2: "r \<in> set (items ?d2)" using assms(2) by simp
  from handler_checkout_commit[OF w2 r2 assms(3) assms(11-14) q2 assms(16), of clk3] obtain s3
    where h3: "handler env clk3 req3 ?d2 = (success s3, ?d3)" by blast
  have sv: "serve env [(clk1, req1), (clk2, req2), (clk3, req3)] d
      = ([success s1, success s2, success s3], ?d3)"
    by (simp add: h1 h2 h3)
  have fr: "loan_id_seq d \<notin> set (map loan_id (loans d))" "loan_id_seq d + 1 \<notin> set (map loan_id (loans d))"
    using pk by (auto simp: pk_ok_def)
  have it: "items ?d3 = map (\<lambda>x. if item_id x = ?i
                    then x\<lparr>item_currentLoanId := Some (loan_id_seq d + 1)\<rparr> else x) (items d)"
    using items_checked_out[OF pk2 r2 assms(3), of clk3 p3] by simp
  have lo: "loans ?d3 = loans d @
          [\<lparr>loan_id = loan_id_seq d, loan_itemId = ?i, loan_patronName = p1,
            loan_checkoutDate = today clk1, loan_returnedAt = Some (now clk2)\<rparr>,
           \<lparr>loan_id = loan_id_seq d + 1, loan_itemId = ?i, loan_patronName = p3,
            loan_checkoutDate = today clk3, loan_returnedAt = None\<rparr>]"
    by (simp add: checked_out_def)
  show ?thesis
    unfolding sv using fr it lo by (simp add: success_def)
qed

theorem checkout_return_checkout_witness:
  "wf seed
   \<and> \<lparr>item_id = 3, item_title = ''Learning Prisma'', item_itemTypeId = 1,
       item_requestedBy = None, item_currentLoanId = None\<rparr> \<in> set (items seed)
   \<and> loan_id_seq seed < 2147483647
   \<and> calls (Some ''tok'') (post ''tok'' ''checkout'' [(''itemId'', JNum (Whole 3)), (''patronName'', JStr ''Bob'')])
        ''checkout'' (Some (JObj [(''itemId'', JNum (Whole 3)), (''patronName'', JStr ''Bob'')]))
   \<and> calls (Some ''tok'') (post ''tok'' ''return'' [(''itemId'', JNum (Whole 3))])
        ''return'' (Some (JObj [(''itemId'', JNum (Whole 3))]))
   \<and> calls (Some ''tok'') (post ''tok'' ''checkout'' [(''itemId'', JNum (Whole 3)), (''patronName'', JStr ''Alice'')])
        ''checkout'' (Some (JObj [(''itemId'', JNum (Whole 3)), (''patronName'', JStr ''Alice'')]))
   \<and> \<not> blank ''Bob'' \<and> \<not> blank ''Alice'' \<and> \<not> has_nul ''Bob'' \<and> \<not> has_nul ''Alice''
   \<and> map status (fst (serve (Some ''tok'')
        [(noon, post ''tok'' ''checkout'' [(''itemId'', JNum (Whole 3)), (''patronName'', JStr ''Bob'')]),
         (noon, post ''tok'' ''return'' [(''itemId'', JNum (Whole 3))]),
         (noon, post ''tok'' ''checkout'' [(''itemId'', JNum (Whole 3)), (''patronName'', JStr ''Alice'')])]
        seed)) = [200, 200, 200]
   \<and> map loan_id (loans (snd (serve (Some ''tok'')
        [(noon, post ''tok'' ''checkout'' [(''itemId'', JNum (Whole 3)), (''patronName'', JStr ''Bob'')]),
         (noon, post ''tok'' ''return'' [(''itemId'', JNum (Whole 3))]),
         (noon, post ''tok'' ''checkout'' [(''itemId'', JNum (Whole 3)), (''patronName'', JStr ''Alice'')])]
        seed))) = [1, 2, 3]"
proof -
  let ?r = "\<lparr>item_id = 3, item_title = ''Learning Prisma'', item_itemTypeId = 1,
       item_requestedBy = None, item_currentLoanId = None\<rparr>"
  let ?pl1 = "Some (JObj [(''itemId'', JNum (Whole 3)), (''patronName'', JStr ''Bob'')])"
  let ?pl2 = "Some (JObj [(''itemId'', JNum (Whole 3))])"
  let ?pl3 = "Some (JObj [(''itemId'', JNum (Whole 3)), (''patronName'', JStr ''Alice'')])"
  let ?req1 = "post ''tok'' ''checkout'' [(''itemId'', JNum (Whole 3)), (''patronName'', JStr ''Bob'')]"
  let ?req2 = "post ''tok'' ''return'' [(''itemId'', JNum (Whole 3))]"
  let ?req3 = "post ''tok'' ''checkout'' [(''itemId'', JNum (Whole 3)), (''patronName'', JStr ''Alice'')]"
  have r: "?r \<in> set (items seed)" by (simp add: seed_def)
  have n: "item_currentLoanId ?r = None" by simp
  have q: "loan_id_seq seed < 2147483647" by (simp add: seed_def)
  have c1: "calls (Some ''tok'') ?req1 ''checkout'' ?pl1"
    and c2: "calls (Some ''tok'') ?req2 ''return'' ?pl2"
    and c3: "calls (Some ''tok'') ?req3 ''checkout'' ?pl3"
    by (simp_all add: calls_def post_def unauthorized_def)
  have i1: "as_int (get_prop ?pl1 ''itemId'') = Some (item_id ?r)"
    and i2: "as_int (get_prop ?pl2 ''itemId'') = Some (item_id ?r)"
    and i3: "as_int (get_prop ?pl3 ''itemId'') = Some (item_id ?r)"
    by simp_all
  have p1: "get_prop ?pl1 ''patronName'' = Some (JStr ''Bob'')"
    and p3: "get_prop ?pl3 ''patronName'' = Some (JStr ''Alice'')"
    by simp_all
  have b1: "\<not> blank ''Bob''" and b3: "\<not> blank ''Alice''"
    by (simp_all add: is_space1_def is_space2_def is_space3_def)
  have z1: "\<not> has_nul ''Bob''" and z3: "\<not> has_nul ''Alice''"
    by (simp_all add: has_nul_def)
  from checkout_return_checkout [OF wf_seed r n q c1 i1 p1 b1 c2 i2 c3 i3 p3 b3 z1 z3, of noon noon noon]
  show ?thesis
    using wf_seed r q c1 c2 c3 b1 b3 z1 z3 by (simp add: seed_def)
qed

text \<open>The claim as stated fails for an item that was lent before: item 1 of \<open>history\<close> is
  available and has one closed loan; after checkout, return, checkout (all succeeding) the
  item has three loan rows, not two.\<close>

theorem checkout_return_checkout_counterexample:
  "map item_id (items history) = [1]
   \<and> map item_currentLoanId (items history) = [None]
   \<and> map loan_itemId (loans history) = [1]
   \<and> map status (fst (serve (Some ''tok'')
        [(noon, post ''tok'' ''checkout'' [(''itemId'', JNum (Whole 1)), (''patronName'', JStr ''Bob'')]),
         (noon, post ''tok'' ''return'' [(''itemId'', JNum (Whole 1))]),
         (noon, post ''tok'' ''checkout'' [(''itemId'', JNum (Whole 1)), (''patronName'', JStr ''Alice'')])]
        history)) = [200, 200, 200]
   \<and> map loan_itemId (loans (snd (serve (Some ''tok'')
        [(noon, post ''tok'' ''checkout'' [(''itemId'', JNum (Whole 1)), (''patronName'', JStr ''Bob'')]),
         (noon, post ''tok'' ''return'' [(''itemId'', JNum (Whole 1))]),
         (noon, post ''tok'' ''checkout'' [(''itemId'', JNum (Whole 1)), (''patronName'', JStr ''Alice'')])]
        history))) = [1, 1, 1]"
  by (simp add: eval_defs List.map_filter_def history_def noon_def)




text \<open>C7 (amended).  The action names the dispatcher knows are \<open>createItemType\<close>,
  \<open>createCategory\<close>, \<open>createItem\<close>, \<open>linkCategory\<close>, \<open>unlinkCategory\<close>, \<open>checkout\<close>,
  \<open>return\<close> and \<open>deleteItem\<close>.  Every request other than a GET whose action is none of these
  eight names (or is missing, or is not a string) is answered with an error and leaves the
  storage as it was; when such a request is a call with a payload and a non-empty name, the
  error is the 400 response "Unknown action".  In a storage that meets the schema's
  constraints, a call with one of the eight names and a payload that its mutation accepts
  (ids as the database client reads them, strings without the character U+0000) is answered
  200 and executes that mutation and nothing else:
  \<^item> \<open>createItemType\<close>, with a code and a name that are not blank, a code that no item type
    has, and the next id of the sequence free and in range, appends the item type with that
    id, code and name;
  \<^item> \<open>createCategory\<close>, under the same conditions on code, name and sequence and with no
    parent or a parent that exists, appends the category with that id, code, name and parent;
  \<^item> \<open>createItem\<close>, with a title that is not blank, the id of an item type that exists, and
    the item sequence in range, appends the item with the next id, that title, type and
    requester, and no loan;
  \<^item> \<open>linkCategory\<close>, for an item and a category that exist, appends the link of the pair
    unless it is there;
  \<^item> \<open>unlinkCategory\<close>, for an item that exists, removes the link of the pair;
  \<^item> \<open>checkout\<close>, for an available item, a patron name that is not blank and a loan sequence
    that has not ended, appends the loan and points the item to it;
  \<^item> \<open>return\<close>, for an item on loan, closes the loan and clears the pointer of the item;
  \<^item> \<open>deleteItem\<close>, for an item that exists in a storage that meets the loan invariant,
    removes the item, its loans and its links.\<close>

theorem dispatch_known_actions:
  "(http_method req \<noteq> ''GET''
      \<and> get_prop (body req) ''action'' \<notin> set (map (\<lambda>n. Some (JStr n)) known_actions) \<longrightarrow>
    \<not> ok (fst (handler env clk req d)) \<and> snd (handler env clk req d) = d)
   \<and> (calls env req a pl \<and> truthy pl \<and> a \<notin> set known_actions \<and> a \<noteq> [] \<longrightarrow>
        handler env clk req d = (failure 400 (Text ''Unknown action''), d))
   \<and> (wf d \<and> calls env req ''createItemType'' pl
        \<and> get_prop pl ''code'' = Some (JStr c) \<and> \<not> blank c
        \<and> get_prop pl ''name'' = Some (JStr n) \<and> \<not> blank n
        \<and> c \<notin> set (map it_code (item_types d))
        \<and> item_type_id_seq d \<notin> set (map it_id (item_types d))
        \<and> item_type_id_seq d \<le> 2147483647
        \<and> \<not> has_nul c \<and> \<not> has_nul n \<longrightarrow>
      status (fst (handler env clk req d)) = 200
      \<and> snd (handler env clk req d)
          = d\<lparr>item_type_id_seq := item_type_id_seq d + 1,
              item_types := item_types d @ [\<lparr>it_id = item_type_id_seq d, it_code = c, it_name = n\<rparr>]\<rparr>)
   \<and> (wf d \<and> calls env req ''createCategory'' pl
        \<and> get_prop pl ''code'' = Some (JStr c) \<and> \<not> blank c
        \<and> get_prop pl ''name'' = Some (JStr n) \<and> \<not> blank n
        \<and> nullable_int (get_prop pl ''parentId'') = Inr parent
        \<and> (\<forall>q \<in> set_option parent. int4 q \<and> q \<in> set (map cat_id (categories d)))
        \<and> c \<notin> set (map cat_code (categories d))
        \<and> category_id_seq d \<notin> set (map cat_id (categories d))
        \<and> category_id_seq d \<le> 2147483647
        \<and> \<not> has_nul c \<and> \<not> has_nul n \<longrightarrow>
      status (fst (handler env clk req d)) = 200
      \<and> snd (handler env clk req d)
          = d\<lparr>category_id_seq := category_id_seq d + 1,
              categories := categories d @ [\<lparr>cat_id = category_id_seq d, cat_code = c, cat_name = n,
                                             cat_parentId = parent\<rparr>]\<rparr>)
   \<and> (wf d \<and> calls env req ''createItem'' pl
        \<and> get_prop pl ''title'' = Some (JStr t) \<and> \<not> blank t
        \<and> as_int (get_prop pl ''itemTypeId'') = Some ty
        \<and> int4 ty \<and> ty \<in> set (map it_id (item_types d))
        \<and> requested_by (get_prop pl ''requestedBy'') = Inr rb
        \<and> item_id_seq d \<le> 2147483647
        \<and> \<not> has_nul t \<and> (\<forall>s \<in> set_option rb. \<not> has_nul s) \<longrightarrow>
      status (fst (handler env clk req d)) = 200
      \<and> snd (handler env clk req d)
          = d\<lparr>item_id_seq := item_id_seq d + 1,
              items := items d @ [\<lparr>item_id = item_id_seq d, item_title = t, item_itemTypeId = ty,
                                   item_requestedBy = rb, item_currentLoanId = None\<rparr>]\<rparr>)
   \<and> (wf d \<and> calls env req ''linkCategory'' pl
        \<and> as_int (get_prop pl ''itemId'') = Some i
        \<and> as_int (get_prop pl ''categoryId'') = Some ci
        \<and> i \<in> set (map item_id (items d))
        \<and> int4 ci \<and> ci \<in> set (map cat_id (categories d)) \<longrightarrow>
      status (fst (handler env clk req d)) = 200
      \<and> snd (handler env clk req d)
          = (if (ci, i) \<in> set (item_to_category d) then d
             else d\<lparr>item_to_category := item_to_category d @ [(ci, i)]\<rparr>))
   \<and> (wf d \<and> calls env req ''unlinkCategory'' pl
        \<and> as_int (get_prop pl ''itemId'') = Some i
        \<and> as_int (get_prop pl ''categoryId'') = Some ci
        \<and> i \<in> set (map item_id (items d)) \<and> int4 ci \<longrightarrow>
      status (fst (handler env clk req d)) = 200
      \<and> snd (handler env clk req d)
          = d\<lparr>item_to_category := filter (\<lambda>ab. ab \<noteq> (ci, i)) (item_to_category d)\<rparr>)
   \<and> (wf d \<and> calls env req ''checkout'' pl
        \<and> r \<in> set (items d) \<and> item_currentLoanId r = None
        \<and> as_int (get_prop pl ''itemId'') = Some (item_id r)
        \<and> get_prop pl ''patronName'' = Some (JStr p) \<and> \<not> blank p
        \<and> loan_id_seq d \<le> 2147483647 \<and> \<not> has_nul p \<longrightarrow>
      status (fst (handler env clk req d)) = 200
      \<and> snd (handler env clk req d) = checked_out clk (item_id r) p d)
   \<and> (wf d \<and> calls env req ''return'' pl
        \<and> r \<in> set (items d) \<and> item_currentLoanId r = Some lid
        \<and> as_int (get_prop pl ''itemId'') = Some (item_id r) \<longrightarrow>
      status (fst (handler env clk req d)) = 200
      \<and> snd (handler env clk req d) = returned clk (item_id r) lid d)
   \<and> (wf d \<and> loan_invariant d \<and> calls env req ''deleteItem'' pl
        \<and> r \<in> set (items d)
        \<and> as_int (get_prop pl ''id'') = Some (item_id r) \<longrightarrow>
      status (fst (handler env clk req d)) = 200
      \<and> snd (handler env clk req d) = deleted (item_id r) d)"
proof -
  have u: "http_method req \<noteq> ''GET''
      \<and> get_prop (body req) ''action'' \<notin> set (map (\<lambda>n. Some (JStr n)) known_actions) \<longrightarrow>
    \<not> ok (fst (handler env clk req d)) \<and> snd (handler env clk req d) = d"
    using handler_unknown by blast
  have k: "calls env req a pl \<and> truthy pl \<and> a \<notin> set known_actions \<and> a \<noteq> [] \<longrightarrow>
        handler env clk req d = (failure 400 (Text ''Unknown action''), d)"
  proof (intro impI, elim conjE)
    assume c: "calls env req a pl" and t: "truthy pl" and n: "a \<notin> set known_actions" and e: "a \<noteq> []"
    from n show "handler env clk req d = (failure 400 (Text ''Unknown action''), d)"
      by (simp add: handler_calls[OF c t e] switch_def known_actions_def finish_Respond)
  qed
  have c1: "wf d \<and> calls env req ''createItemType'' pl
        \<and> get_prop pl ''code'' = Some (JStr c) \<and> \<not> blank c
        \<and> get_prop pl ''name'' = Some (JStr n) \<and> \<not> blank n
        \<and> c \<notin> set (map it_code (item_types d))
        \<and> item_type_id_seq d \<notin> set (map it_id (item_types d))
        \<and> item_type_id_seq d \<le> 2147483647
        \<and> \<not> has_nul c \<and> \<not> has_nul n \<longrightarrow>
      status (fst (handler env clk req d)) = 200
      \<and> snd (handler env clk req d)
          = d\<lparr>item_type_id_seq := item_type_id_seq d + 1,
              item_types := item_types d @ [\<lparr>it_id = item_type_id_seq d, it_code = c, it_name = n\<rparr>]\<rparr>"
    by (intro impI, elim conjE) (rule handler_createItemType_commit)
  have c2: "wf d \<and> calls env req ''createCategory'' pl
        \<and> get_prop pl ''code'' = Some (JStr c) \<and> \<not> blank c
        \<and> get_prop pl ''name'' = Some (JStr n) \<and> \<not> blank n
        \<and> nullable_int (get_prop pl ''parentId'') = Inr parent
        \<and> (\<forall>q \<in> set_option parent. int4 q \<and> q \<in> set (map cat_id (categories d)))
        \<and> c \<notin> set (map cat_code (categories d))
        \<and> category_id_seq d \<notin> set (map cat_id (categories d))
        \<and> category_id_seq d \<le> 2147483647
        \<and> \<not> has_nul c \<and> \<not> has_nul n \<longrightarrow>
      status (fst (handler env clk req d)) = 200
      \<and> snd (handler env clk req d)
          = d\<lparr>category_id_seq := category_id_seq d + 1,
              categories := categories d @ [\<lparr>cat_id = category_id_seq d, cat_code = c, cat_name = n,
                                             cat_parentId = parent\<rparr>]\<rparr>"
    by (intro impI, elim conjE) (rule handler_createCategory_commit)
  have c3: "wf d \<and> calls env req ''createItem'' pl
        \<and> get_prop pl ''title'' = Some (JStr t) \<and> \<not> blank t
        \<and> as_int (get_prop pl ''itemTypeId'') = Some ty
        \<and> int4 ty \<and> ty \<in> set (map it_id (item_types d))
        \<and> requested_by (get_prop pl ''requestedBy'') = Inr rb
        \<and> item_id_seq d \<le> 2147483647
        \<and> \<not> has_nul t \<and> (\<forall>s \<in> set_option rb. \<not> has_nul s) \<longrightarrow>
      status (fst (handler env clk req d)) = 200
      \<and> snd (handler env clk req d)
          = d\<lparr>item_id_seq := item_id_seq d + 1,
              items := items d @ [\<lparr>item_id = item_id_seq d, item_title = t, item_itemTypeId = ty,
                                   item_requestedBy = rb, item_currentLoanId = None\<rparr>]\<rparr>"
    by (intro impI, elim conjE) (rule handler_createItem_commit)
  have c4: "wf d \<and> calls env req ''linkCategory'' pl
        \<and> as_int (get_prop pl ''itemId'') = Some i
        \<and> as_int (get_prop pl ''categoryId'') = Some ci
        \<and> i \<in> set (map item_id (items d))
        \<and> int4 ci \<and> ci \<in> set (map cat_id (categories d)) \<longrightarrow>
      status (fst (handler env clk req d)) = 200
      \<and> snd (handler env clk req d)
          = (if (ci, i) \<in> set (item_to_category d) then d
             else d\<lparr>item_to_category := item_to_category d @ [(ci, i)]\<rparr>)"
    by (intro impI, elim conjE) (rule handler_linkCategory_commit)
  have c5: "wf d \<and> calls env req ''unlinkCategory'' pl
        \<and> as_int (get_prop pl ''itemId'') = Some i
        \<and> as_int (get_prop pl ''categoryId'') = Some ci
        \<and> i \<in> set (map item_id (items d)) \<and> int4 ci \<longrightarrow>
      status (fst (handler env clk req d)) = 200
      \<and> snd (handler env clk req d)
          = d\<lparr>item_to_category := filter (\<lambda>ab. ab \<noteq> (ci, i)) (item_to_category d)\<rparr>"
    by (intro impI, elim conjE) (rule handler_unlinkCategory_commit)
  have c6: "wf d \<and> calls env req ''checkout'' pl
        \<and> r \<in> set (items d) \<and> item_currentLoanId r = None
        \<and> as_int (get_prop pl ''itemId'') = Some (item_id r)
        \<and> get_prop pl ''patronName'' = Some (JStr p) \<and> \<not> blank p
        \<and> loan_id_seq d \<le> 2147483647 \<and> \<not> has_nul p \<longrightarrow>
      status (fst (handler env clk req d)) = 200
      \<and> snd (handler env clk req d) = checked_out clk (item_id r) p d"
  proof (intro impI, elim conjE)
    assume "wf d" "calls env req ''checkout'' pl" "r \<in> set (items d)" "item_currentLoanId r = None"
      "as_int (get_prop pl ''itemId'') = Some (item_id r)"
      "get_prop pl ''patronName'' = Some (JStr p)" "\<not> blank p" "loan_id_seq d \<le> 2147483647"
      "\<not> has_nul p"
    from handler_checkout_commit[OF this(1,3,4,2,5-9), of clk]
    show "status (fst (handler env clk req d)) = 200
      \<and> snd (handler env clk req d) = checked_out clk (item_id r) p d"
      by (auto simp: success_def)
  qed
  have c7: "wf d \<and> calls env req ''return'' pl
        \<and> r \<in> set (items d) \<and> item_currentLoanId r = Some lid
        \<and> as_int (get_prop pl ''itemId'') = Some (item_id r) \<longrightarrow>
      status (fst (handler env clk req d)) = 200
      \<and> snd (handler env clk req d) = returned clk (item_id r) lid d"
  proof (intro impI, elim conjE)
    assume "wf d" "calls env req ''return'' pl" "r \<in> set (items d)" "item_currentLoanId r = Some lid"
      "as_int (get_prop pl ''itemId'') = Some (item_id r)"
    from handler_return_commit[OF this(1,3,4,2,5), of clk]
    show "status (fst (handler env clk req d)) = 200
      \<and> snd (handler env clk req d) = returned clk (item_id r) lid d"
      by (auto simp: success_def)
  qed
  have c8: "wf d \<and> loan_invariant d \<and> calls env req ''deleteItem'' pl
        \<and> r \<in> set (items d)
        \<and> as_int (get_prop pl ''id'') = Some (item_id r) \<longrightarrow>
      status (fst (handler env clk req d)) = 200
      \<and> snd (handler env clk req d) = deleted (item_id r) d"
  proof (intro impI, elim conjE)
    assume a: "wf d" "loan_invariant d" "calls env req ''deleteItem'' pl" "r \<in> set (items d)"
      "as_int (get_prop pl ''id'') = Some (item_id r)"
    from a(2) have "ptr_ok d" by (simp add: loan_invariant_iff)
    from handler_deleteItem_commit[OF a(1) this a(4,3,5), of clk]
    show "status (fst (handler env clk req d)) = 200
      \<and> snd (handler env clk req d) = deleted (item_id r) d"
      by (auto simp: success_def)
  qed
  show ?thesis
    by (rule conjI[OF u conjI[OF k conjI[OF c1 conjI[OF c2 conjI[OF c3 conjI[OF c4 conjI[OF c5
        conjI[OF c6 conjI[OF c7 c8]]]]]]]]])
qed

theorem dispatch_known_actions_witness:
  "wf seed
   \<and> calls (Some ''tok'')
        (post ''tok'' ''createCategory'' [(''code'', JStr ''BIO''), (''name'', JStr ''Biography''), (''parentId'', JNum (Whole 1))])
        ''createCategory''
        (Some (JObj [(''code'', JStr ''BIO''), (''name'', JStr ''Biography''), (''parentId'', JNum (Whole 1))]))
   \<and> \<not> blank ''BIO'' \<and> \<not> blank ''Biography'' \<and> \<not> has_nul ''BIO'' \<and> \<not> has_nul ''Biography''
   \<and> categories (snd (handler (Some ''tok'') noon
        (post ''tok'' ''createCategory'' [(''code'', JStr ''BIO''), (''name'', JStr ''Biography''), (''parentId'', JNum (Whole 1))])
        seed))
      = categories seed @ [\<lparr>cat_id = 3, cat_code = ''BIO'', cat_name = ''Biography'', cat_parentId = Some 1\<rparr>]
   \<and> calls (Some ''tok'')
        (post ''tok'' ''linkCategory'' [(''itemId'', JNum (Whole 2)), (''categoryId'', JNum (Whole 2))])
        ''linkCategory'' (Some (JObj [(''itemId'', JNum (Whole 2)), (''categoryId'', JNum (Whole 2))]))
   \<and> item_to_category (snd (handler (Some ''tok'') noon
        (post ''tok'' ''linkCategory'' [(''itemId'', JNum (Whole 2)), (''categoryId'', JNum (Whole 2))])
        seed))
      = [(1, 1), (2, 1), (1, 3), (2, 2)]
   \<and> calls (Some ''tok'')
        (post ''tok'' ''unlinkCategory'' [(''itemId'', JNum (Whole 1)), (''categoryId'', JNum (Whole 2))])
        ''unlinkCategory'' (Some (JObj [(''itemId'', JNum (Whole 1)), (''categoryId'', JNum (Whole 2))]))
   \<and> item_to_category (snd (handler (Some ''tok'') noon
        (post ''tok'' ''unlinkCategory'' [(''itemId'', JNum (Whole 1)), (''categoryId'', JNum (Whole 2))])
        seed))
      = [(1, 1), (1, 3)]
   \<and> http_method (post ''tok'' ''renameItem'' [(''id'', JNum (Whole 1))]) \<noteq> ''GET''
   \<and> get_prop (body (post ''tok'' ''renameItem'' [(''id'', JNum (Whole 1))])) ''action''
        \<notin> set (map (\<lambda>n. Some (JStr n)) known_actions)
   \<and> snd (handler (Some ''tok'') noon (post ''tok'' ''renameItem'' [(''id'', JNum (Whole 1))]) seed) = seed"
proof -
  let ?pc = "Some (JObj [(''code'', JStr ''BIO''), (''name'', JStr ''Biography''), (''parentId'', JNum (Whole 1))])"
  let ?rc = "post ''tok'' ''createCategory'' [(''code'', JStr ''BIO''), (''name'', JStr ''Biography''), (''parentId'', JNum (Whole 1))]"
  let ?pl = "Some (JObj [(''itemId'', JNum (Whole 2)), (''categoryId'', JNum (Whole 2))])"
  let ?rl = "post ''tok'' ''linkCategory'' [(''itemId'', JNum (Whole 2)), (''categoryId'', JNum (Whole 2))]"
  let ?pu = "Some (JObj [(''itemId'', JNum (Whole 1)), (''categoryId'', JNum (Whole 2))])"
  let ?ru = "post ''tok'' ''unlinkCategory'' [(''itemId'', JNum (Whole 1)), (''categoryId'', JNum (Whole 2))]"
  let ?rx = "post ''tok'' ''renameItem'' [(''id'', JNum (Whole 1))]"
  have cc: "calls (Some ''tok'') ?rc ''createCategory'' ?pc"
    and cl: "calls (Some ''tok'') ?rl ''linkCategory'' ?pl"
    and cu: "calls (Some ''tok'') ?ru ''unlinkCategory'' ?pu"
    by (simp_all add: calls_def post_def unauthorized_def)
  have b: "\<not> blank ''BIO''" "\<not> blank ''Biography''"
    by (simp_all add: is_space1_def is_space2_def is_space3_def)
  have z: "\<not> has_nul ''BIO''" "\<not> has_nul ''Biography''"
    by (simp_all add: has_nul_def)
  have m: "http_method ?rx \<noteq> ''GET''" by (simp add: post_def)
  have u: "get_prop (body ?rx) ''action'' \<notin> set (map (\<lambda>n. Some (JStr n)) known_actions)"
    by (simp add: post_def known_actions_def)
  have x: "snd (handler (Some ''tok'') noon ?rx seed) = seed"
    using dispatch_known_actions [THEN conjunct1, of ?rx "Some ''tok''" noon seed] m u by simp
  have k: "categories (snd (handler (Some ''tok'') noon ?rc seed))
      = categories seed @ [\<lparr>cat_id = 3, cat_code = ''BIO'', cat_name = ''Biography'', cat_parentId = Some 1\<rparr>]"
  proof -
    have "status (fst (handler (Some ''tok'') noon ?rc seed)) = 200
      \<and> snd (handler (Some ''tok'') noon ?rc seed)
          = seed\<lparr>category_id_seq := category_id_seq seed + 1,
              categories := categories seed @ [\<lparr>cat_id = category_id_seq seed, cat_code = ''BIO'',
                                             cat_name = ''Biography'', cat_parentId = Some 1\<rparr>]\<rparr>"
      by (rule dispatch_known_actions [where pl = ?pc, THEN conjunct2, THEN conjunct2, THEN conjunct2,
            THEN conjunct1, THEN mp])
         (intro conjI, (rule wf_seed cc b z | simp add: int4_def seed_def)+)
    then show ?thesis by (simp add: seed_def)
  qed
  have l: "item_to_category (snd (handler (Some ''tok'') noon ?rl seed)) = [(1, 1), (2, 1), (1, 3), (2, 2)]"
  proof -
    have "status (fst (handler (Some ''tok'') noon ?rl seed)) = 200
      \<and> snd (handler (Some ''tok'') noon ?rl seed)
          = (if (2, 2) \<in> set (item_to_category seed) then seed
             else seed\<lparr>item_to_category := item_to_category seed @ [(2, 2)]\<rparr>)"
      by (rule dispatch_known_actions [where pl = ?pl, THEN conjunct2, THEN conjunct2, THEN conjunct2,
            THEN conjunct2, THEN conjunct2, THEN conjunct1, THEN mp])
         (intro conjI, (rule wf_seed cl | simp add: int4_def seed_def)+)
    then show ?thesis by (simp add: seed_def)
  qed
  have n: "item_to_category (snd (handler (Some ''tok'') noon ?ru seed)) = [(1, 1), (1, 3)]"
  proof -
    have "status (fst (handler (Some ''tok'') noon ?ru seed)) = 200
      \<and> snd (handler (Some ''tok'') noon ?ru seed)
          = seed\<lparr>item_to_category := filter (\<lambda>ab. ab \<noteq> (2, 1)) (item_to_category seed)\<rparr>"
      by (rule dispatch_known_actions [where pl = ?pu, THEN conjunct2, THEN conjunct2, THEN conjunct2,
            THEN conjunct2, THEN conjunct2, THEN conjunct2, THEN conjunct1, THEN mp])
         (intro conjI, (rule wf_seed cu | simp add: int4_def seed_def)+)
    then show ?thesis by (simp add: seed_def)
  qed
  show ?thesis
    using wf_seed cc cl cu b z m u x k l n by simp
qed

text \<open>The claim as stated fails at the first of the names it lists: a call named
  \<open>create-item-type\<close> with a valid payload is answered "Unknown action" and creates nothing.\<close>

theorem kebab_case_action_counterexample:
  "handler (Some ''tok'') noon
     (post ''tok'' ''create-item-type'' [(''code'', JStr ''DVD''), (''name'', JStr ''Dvd'')]) seed
   = (failure 400 (Text ''Unknown action''), seed)"
  by (simp add: eval_defs)
end
